(* ===== verification/Ymsl_Prelude.thy ===== *)
theory Ymsl_Prelude
  imports Main "HOL-Library.Word" "HOL-Library.Signed_Division"
begin

text \<open>
  What every component shares: the machine types of \<^verbatim>\<open>include/ymsl_int.h\<close>, the faults that
  stand for undefined behaviour and failed assertions of the C++ code, the result type that
  carries them, bounds-checked array access, and the arithmetic of \<^verbatim>\<open>Ymsl_INT\<close>.
\<close>

unbundle bit_operations_syntax

named_theorems fault_simps \<open>rewrite rules that run a computation which may fault\<close>

section \<open>Machine types\<close>

text \<open>
  \<^verbatim>\<open>Ymsl_INT\<close> is a 32-bit signed integer (read with \<open>sint\<close>), \<^verbatim>\<open>Ymsl_CODE\<close> and
  \<^verbatim>\<open>ymuint\<close> are 32-bit unsigned ones, \<^verbatim>\<open>Ymsl_OBJPTR\<close> is an address of the LP64 machine.
\<close>

type_synonym i32 = "32 word"
type_synonym u32 = "32 word"
type_synonym u64 = "64 word"

section \<open>Faults and results\<close>

text \<open>
  A \<open>fault\<close> is a point where the C++ program has no defined continuation: undefined behaviour,
  or an \<^verbatim>\<open>ASSERT_COND\<close> / \<^verbatim>\<open>ASSERT_NOT_REACHED\<close> of YmTools that fires.
\<close>

datatype fault =
    OutOfBounds
  | NullDeref
  | AssertFail
  | SignedOverflow
  | DivByZero
  | BadShift
  | BadConversion
  | WrongMember
  | Uninit

type_synonym 'a res = "fault + 'a"

definition res_bind :: "'e + 'a \<Rightarrow> ('a \<Rightarrow> 'e + 'b) \<Rightarrow> 'e + 'b" where
  "res_bind m f = (case m of Inl e \<Rightarrow> Inl e | Inr x \<Rightarrow> f x)"

definition assert_cond :: "bool \<Rightarrow> unit res" where
  "assert_cond b = (if b then Inr () else Inl AssertFail)"

lemma res_bind_Inl [simp, fault_simps]: "res_bind (Inl e) f = Inl e"
  by (simp add: res_bind_def)

lemma res_bind_Inr [simp, fault_simps]: "res_bind (Inr x) f = f x"
  by (simp add: res_bind_def)

lemma res_bind_eq_Inr:
  "res_bind m f = Inr y \<longleftrightarrow> (\<exists>x. m = Inr x \<and> f x = Inr y)"
  by (cases m) auto

lemma res_bind_eq_Inl:
  "res_bind m f = Inl e \<longleftrightarrow> m = Inl e \<or> (\<exists>x. m = Inr x \<and> f x = Inl e)"
  by (cases m) auto

lemma res_bind_assoc: "res_bind (res_bind m f) g = res_bind m (\<lambda>x. res_bind (f x) g)"
  by (cases m) auto

lemma res_bindE [elim!]:
  assumes "res_bind m f = Inr y"
  obtains x where "m = Inr x" "f x = Inr y"
  using assms by (auto simp: res_bind_eq_Inr)

lemma res_bind_cong [fundef_cong]:
  "m = m' \<Longrightarrow> (\<And>x. m' = Inr x \<Longrightarrow> f x = f' x) \<Longrightarrow> res_bind m f = res_bind m' f'"
  by (cases m') auto

lemma assert_cond_simps [simp, fault_simps]:
  "assert_cond True = Inr ()" "assert_cond False = Inl AssertFail"
  by (simp_all add: assert_cond_def)

lemma assert_cond_eq_Inr [simp]: "assert_cond b = Inr u \<longleftrightarrow> b"
  by (simp add: assert_cond_def)

section \<open>Arrays\<close>

text \<open>
  A C++ array is a list; an access outside it is undefined behaviour, so it is a fault here.
\<close>

definition arr_get :: "'a list \<Rightarrow> int \<Rightarrow> 'a res" where
  "arr_get xs i = (if 0 \<le> i \<and> i < int (length xs) then Inr (xs ! nat i) else Inl OutOfBounds)"

definition arr_set :: "'a list \<Rightarrow> int \<Rightarrow> 'a \<Rightarrow> 'a list res" where
  "arr_set xs i v =
     (if 0 \<le> i \<and> i < int (length xs) then Inr (xs[nat i := v]) else Inl OutOfBounds)"

lemma arr_get_ok [simp]: "0 \<le> i \<Longrightarrow> i < int (length xs) \<Longrightarrow> arr_get xs i = Inr (xs ! nat i)"
  by (simp add: arr_get_def)

lemma arr_set_ok [simp]:
  "0 \<le> i \<Longrightarrow> i < int (length xs) \<Longrightarrow> arr_set xs i v = Inr (xs[nat i := v])"
  by (simp add: arr_set_def)

lemma arr_get_InrD: "arr_get xs i = Inr x \<Longrightarrow> 0 \<le> i \<and> i < int (length xs) \<and> x = xs ! nat i"
  by (auto simp: arr_get_def split: if_splits)

lemma arr_set_InrD:
  "arr_set xs i v = Inr ys \<Longrightarrow> 0 \<le> i \<and> i < int (length xs) \<and> ys = xs[nat i := v]"
  by (auto simp: arr_set_def split: if_splits)

lemma arr_get_uint [simp]:
  fixes h :: "'w::len word"
  shows "unat h < length xs \<Longrightarrow> arr_get xs (uint h) = Inr (xs ! unat h)"
  by (simp add: arr_get_def flip: nat_uint_eq)

lemma arr_set_uint [simp]:
  fixes h :: "'w::len word"
  shows "unat h < length xs \<Longrightarrow> arr_set xs (uint h) v = Inr (xs[unat h := v])"
  by (simp add: arr_set_def flip: nat_uint_eq)

lemma arr_get_oob: "i < 0 \<or> int (length xs) \<le> i \<Longrightarrow> arr_get xs i = Inl OutOfBounds"
  by (auto simp: arr_get_def)

lemma arr_set_oob: "i < 0 \<or> int (length xs) \<le> i \<Longrightarrow> arr_set xs i v = Inl OutOfBounds"
  by (auto simp: arr_set_def)

lemma arr_get_set_same: "arr_set xs i v = Inr ys \<Longrightarrow> arr_get ys i = Inr v"
  by (auto dest!: arr_set_InrD)

lemma arr_get_set_other: "arr_set xs i v = Inr ys \<Longrightarrow> i \<noteq> j \<Longrightarrow> arr_get ys j = arr_get xs j"
  by (auto dest!: arr_set_InrD simp: arr_get_def nth_list_update)

section \<open>Signed 32-bit arithmetic\<close>

text \<open>
  The operators of C++ on \<^verbatim>\<open>Ymsl_INT\<close>. A result outside the type is undefined (a fault), division
  truncates towards zero, a shift count outside \<open>[0, 32)\<close> is undefined. Left shift moves the bit
  pattern, right shift is arithmetic, as on the compilers the code is built with.
\<close>

definition i32_of_int :: "int \<Rightarrow> i32 res" where
  "i32_of_int k = (if - (2 ^ 31) \<le> k \<and> k < 2 ^ 31 then Inr (word_of_int k) else Inl SignedOverflow)"

definition i32_of_bool :: "bool \<Rightarrow> i32" where
  "i32_of_bool b = (if b then 1 else 0)"

definition c_neg :: "i32 \<Rightarrow> i32 res" where
  "c_neg a = i32_of_int (- sint a)"

definition c_inc :: "i32 \<Rightarrow> i32 res" where
  "c_inc a = i32_of_int (sint a + 1)"

definition c_dec :: "i32 \<Rightarrow> i32 res" where
  "c_dec a = i32_of_int (sint a - 1)"

definition c_add :: "i32 \<Rightarrow> i32 \<Rightarrow> i32 res" where
  "c_add a b = i32_of_int (sint a + sint b)"

definition c_sub :: "i32 \<Rightarrow> i32 \<Rightarrow> i32 res" where
  "c_sub a b = i32_of_int (sint a - sint b)"

definition c_mul :: "i32 \<Rightarrow> i32 \<Rightarrow> i32 res" where
  "c_mul a b = i32_of_int (sint a * sint b)"

definition c_div :: "i32 \<Rightarrow> i32 \<Rightarrow> i32 res" where
  "c_div a b = (if sint b = 0 then Inl DivByZero else i32_of_int (sint a sdiv sint b))"

definition c_mod :: "i32 \<Rightarrow> i32 \<Rightarrow> i32 res" where
  "c_mod a b =
     (if sint b = 0 then Inl DivByZero
      else res_bind (i32_of_int (sint a sdiv sint b)) (\<lambda>_. Inr (word_of_int (sint a smod sint b))))"

definition c_shl :: "i32 \<Rightarrow> i32 \<Rightarrow> i32 res" where
  "c_shl a b =
     (if 0 \<le> sint b \<and> sint b < 32 then Inr (push_bit (nat (sint b)) a) else Inl BadShift)"

definition c_shr :: "i32 \<Rightarrow> i32 \<Rightarrow> i32 res" where
  "c_shr a b =
     (if 0 \<le> sint b \<and> sint b < 32 then Inr (signed_drop_bit (nat (sint b)) a) else Inl BadShift)"

lemma sint_i32_bounds: "- (2 ^ 31) \<le> sint (a :: i32)" "sint (a :: i32) < 2 ^ 31"
  using sint_range_size [of a] by (simp_all add: word_size)

lemma i32_of_int_sint [simp]: "i32_of_int (sint a) = Inr a"
  using sint_i32_bounds [of a] by (simp add: i32_of_int_def)

lemma sint_word_of_int_i32:
  "- (2 ^ 31) \<le> k \<Longrightarrow> k < 2 ^ 31 \<Longrightarrow> sint (word_of_int k :: i32) = k"
  by (simp add: sint_sbintrunc' signed_take_bit_int_eq_self)

lemma i32_of_int_InrD: "i32_of_int k = Inr a \<Longrightarrow> a = word_of_int k \<and> sint a = k"
  by (auto simp: i32_of_int_def sint_word_of_int_i32 split: if_splits)

lemma i32_of_int_ok:
  "- (2 ^ 31) \<le> k \<Longrightarrow> k < 2 ^ 31 \<Longrightarrow> i32_of_int k = Inr (word_of_int k)"
  by (simp add: i32_of_int_def)

lemma i32_of_int_fault: "i32_of_int k = Inl e \<Longrightarrow> e = SignedOverflow"
  by (auto simp: i32_of_int_def split: if_splits)

lemma c_add_InrD: "c_add a b = Inr c \<Longrightarrow> c = a + b \<and> sint c = sint a + sint b"
  by (auto simp: c_add_def dest!: i32_of_int_InrD)

lemma c_sub_InrD: "c_sub a b = Inr c \<Longrightarrow> c = a - b \<and> sint c = sint a - sint b"
  by (auto simp: c_sub_def dest!: i32_of_int_InrD)

lemma c_mul_InrD: "c_mul a b = Inr c \<Longrightarrow> c = a * b \<and> sint c = sint a * sint b"
  by (auto simp: c_mul_def dest!: i32_of_int_InrD)

lemma c_neg_InrD: "c_neg a = Inr c \<Longrightarrow> c = - a \<and> sint c = - sint a"
  by (auto simp: c_neg_def dest!: i32_of_int_InrD)

lemma c_div_InrD: "c_div a b = Inr c \<Longrightarrow> sint b \<noteq> 0 \<and> sint c = sint a sdiv sint b"
  by (auto simp: c_div_def split: if_splits dest!: i32_of_int_InrD)

end
