(* ===== verification/Ymsl_Double.thy ===== *)
theory Ymsl_Double
  imports Ymsl_Prelude
begin

text \<open>
  \<^verbatim>\<open>Ymsl_FLOAT\<close> (\<^verbatim>\<open>typedef double\<close> in \<^verbatim>\<open>include/ymsl_int.h\<close>): an IEEE 754 binary64 value as its
  bit pattern, with the operators of C++ that the machine and the constant evaluator apply to it.
  The value of a finite pattern is an integer multiple of \<open>2 ^ -1074\<close>; an operation computes the
  exact result as a fraction of that unit and rounds it to nearest, ties to even. NaN has one
  representative: payloads are not modelled.
\<close>

section \<open>Representation\<close>

type_synonym f64 = "64 word"

definition f_sign :: "f64 \<Rightarrow> bool" where
  "f_sign x = (2 ^ 63 \<le> unat x)"

definition f_mag :: "f64 \<Rightarrow> nat" where
  "f_mag x = unat x mod 2 ^ 63"

definition f_inf_mag :: nat where
  "f_inf_mag = 2047 * 2 ^ 52"

definition f_is_nan :: "f64 \<Rightarrow> bool" where
  "f_is_nan x = (f_inf_mag < f_mag x)"

definition f_is_inf :: "f64 \<Rightarrow> bool" where
  "f_is_inf x = (f_mag x = f_inf_mag)"

definition f_pack :: "bool \<Rightarrow> nat \<Rightarrow> f64" where
  "f_pack s m = of_nat ((if s then 2 ^ 63 else 0) + m)"

definition f_zero :: f64 where "f_zero = 0"

definition f_one :: f64 where "f_one = 0x3FF0000000000000"

definition f_nan :: f64 where "f_nan = 0x7FF8000000000000"

text \<open>The magnitude of a finite pattern, in units of \<open>2 ^ -1074\<close>, and its signed value.\<close>

definition mag_units :: "nat \<Rightarrow> nat" where
  "mag_units m =
     (let e = m div 2 ^ 52; f = m mod 2 ^ 52
      in if e = 0 then f else (2 ^ 52 + f) * 2 ^ (e - 1))"

definition f_units :: "f64 \<Rightarrow> int" where
  "f_units x = (if f_sign x then - int (mag_units (f_mag x)) else int (mag_units (f_mag x)))"

section \<open>Rounding\<close>

fun bit_len :: "nat \<Rightarrow> nat" where
  "bit_len n = (if n = 0 then 0 else Suc (bit_len (n div 2)))"

declare bit_len.simps [simp del]

text \<open>
  \<open>f_round s num den\<close> is the double nearest to \<open>(num / den) * 2 ^ -1074\<close> with sign \<open>s\<close>: \<open>p\<close> is the
  number of low bits of the quotient that do not fit into 53 bits. Adding the rounded significand
  to the exponent field carries into it exactly where IEEE 754 says so.
\<close>

definition round_mag :: "nat \<Rightarrow> nat \<Rightarrow> nat" where
  "round_mag num den =
     (let p = bit_len (num div den) - 53;
          d = den * 2 ^ p;
          q = num div d;
          r = num mod d;
          q' = (if d < 2 * r \<or> (2 * r = d \<and> odd q) then Suc q else q)
      in p * 2 ^ 52 + q')"

definition f_round :: "bool \<Rightarrow> nat \<Rightarrow> nat \<Rightarrow> f64" where
  "f_round s num den = f_pack s (min (round_mag num den) f_inf_mag)"

section \<open>The operators\<close>

definition f_neg :: "f64 \<Rightarrow> f64" where
  "f_neg x = f_pack (\<not> f_sign x) (f_mag x)"

definition f_add :: "f64 \<Rightarrow> f64 \<Rightarrow> f64" where
  "f_add x y =
     (if f_is_nan x \<or> f_is_nan y then f_nan
      else if f_is_inf x then (if f_is_inf y \<and> f_sign x \<noteq> f_sign y then f_nan else x)
      else if f_is_inf y then y
      else let s = f_units x + f_units y
           in if s = 0 then f_pack (f_sign x \<and> f_sign y) 0
              else f_round (s < 0) (nat \<bar>s\<bar>) 1)"

definition f_sub :: "f64 \<Rightarrow> f64 \<Rightarrow> f64" where
  "f_sub x y = f_add x (f_neg y)"

definition f_mul :: "f64 \<Rightarrow> f64 \<Rightarrow> f64" where
  "f_mul x y =
     (let s = (f_sign x \<noteq> f_sign y)
      in if f_is_nan x \<or> f_is_nan y then f_nan
         else if f_is_inf x \<or> f_is_inf y
           then (if f_mag x = 0 \<or> f_mag y = 0 then f_nan else f_pack s f_inf_mag)
         else f_round s (mag_units (f_mag x) * mag_units (f_mag y)) (2 ^ 1074))"

definition f_div :: "f64 \<Rightarrow> f64 \<Rightarrow> f64" where
  "f_div x y =
     (let s = (f_sign x \<noteq> f_sign y)
      in if f_is_nan x \<or> f_is_nan y then f_nan
         else if f_is_inf x then (if f_is_inf y then f_nan else f_pack s f_inf_mag)
         else if f_is_inf y then f_pack s 0
         else if f_mag y = 0 then (if f_mag x = 0 then f_nan else f_pack s f_inf_mag)
         else f_round s (mag_units (f_mag x) * 2 ^ 1074) (mag_units (f_mag y)))"

text \<open>Patterns of ordered values compare like the signed magnitudes of the patterns.\<close>

definition f_key :: "f64 \<Rightarrow> int" where
  "f_key x = (if f_sign x then - int (f_mag x) else int (f_mag x))"

definition f_eq :: "f64 \<Rightarrow> f64 \<Rightarrow> bool" where
  "f_eq x y = (\<not> f_is_nan x \<and> \<not> f_is_nan y \<and> f_key x = f_key y)"

definition f_lt :: "f64 \<Rightarrow> f64 \<Rightarrow> bool" where
  "f_lt x y = (\<not> f_is_nan x \<and> \<not> f_is_nan y \<and> f_key x < f_key y)"

definition f_le :: "f64 \<Rightarrow> f64 \<Rightarrow> bool" where
  "f_le x y = (\<not> f_is_nan x \<and> \<not> f_is_nan y \<and> f_key x \<le> f_key y)"

definition f_of_i32 :: "i32 \<Rightarrow> f64" where
  "f_of_i32 a =
     (let k = sint a
      in if k = 0 then f_zero else f_round (k < 0) (nat \<bar>k\<bar> * 2 ^ 1074) 1)"

text \<open>Conversion to an integer truncates; a value outside the type (or NaN) is undefined.\<close>

definition f_to_i32 :: "f64 \<Rightarrow> i32 res" where
  "f_to_i32 x =
     (if f_is_nan x \<or> f_is_inf x then Inl BadConversion
      else let k = int (mag_units (f_mag x) div 2 ^ 1074);
               v = (if f_sign x then - k else k)
           in if - (2 ^ 31) \<le> v \<and> v < 2 ^ 31 then Inr (word_of_int v) else Inl BadConversion)"

section \<open>Facts about the representation\<close>

lemma f_mag_less: "f_mag x < 2 ^ 63"
  by (simp add: f_mag_def)

lemma f_mag_less_numeral [simp]: "f_mag x < 9223372036854775808"
  using f_mag_less [of x] by simp

lemma unat_f64_less: "unat (x :: f64) < 2 ^ 64"
  using unsigned_less [of x, where 'a = nat] by simp

lemma f_pack_unpack [simp]: "f_pack (f_sign x) (f_mag x) = x"
proof -
  have "(if f_sign x then 2 ^ 63 else 0) + f_mag x = unat x"
    using unat_f64_less [of x] by (auto simp: f_sign_def f_mag_def le_mod_geq)
  then show ?thesis by (simp add: f_pack_def)
qed

lemma unat_f_pack: "m < 2 ^ 63 \<Longrightarrow> unat (f_pack s m) = (if s then 2 ^ 63 else 0) + m"
  unfolding f_pack_def unat_of_nat by simp

lemma f_sign_pack [simp]: "m < 2 ^ 63 \<Longrightarrow> f_sign (f_pack s m) = s"
  by (simp add: f_sign_def unat_f_pack)

lemma f_mag_pack [simp]: "m < 2 ^ 63 \<Longrightarrow> f_mag (f_pack s m) = m"
  by (simp add: f_mag_def unat_f_pack)

lemma f_neg_neg [simp]: "f_neg (f_neg x) = x"
  by (simp add: f_neg_def f_mag_less)

lemma f_key_neg: "f_key (f_neg x) = - f_key x"
  by (simp add: f_key_def f_neg_def f_mag_less)

lemma f_is_nan_neg [simp]: "f_is_nan (f_neg x) = f_is_nan x"
  by (simp add: f_is_nan_def f_neg_def f_mag_less)

lemma f_lt_neg: "f_lt (f_neg x) (f_neg y) = f_lt y x"
  by (auto simp: f_lt_def f_key_neg)

lemma f_le_lt_or_eq: "f_le x y \<longleftrightarrow> f_lt x y \<or> f_eq x y"
  by (auto simp: f_le_def f_lt_def f_eq_def)

lemma f_lt_irrefl: "\<not> f_lt x x"
  by (simp add: f_lt_def)

lemma f_lt_trans: "f_lt x y \<Longrightarrow> f_lt y z \<Longrightarrow> f_lt x z"
  by (auto simp: f_lt_def)

lemma f_trichotomy:
  "\<not> f_is_nan x \<Longrightarrow> \<not> f_is_nan y \<Longrightarrow> f_lt x y \<or> f_eq x y \<or> f_lt y x"
  by (auto simp: f_lt_def f_eq_def)

end
