(* ===== verification/Vsm_CodeList.thy ===== *)
theory Vsm_CodeList
  imports Ymsl_Double
begin

text \<open>
  The code stream of the virtual machine: \<^verbatim>\<open>VsmCodeList::Builder\<close>, the constructor of
  \<^verbatim>\<open>VsmCodeList\<close> and its read functions (\<^verbatim>\<open>include/VsmCodeList.h\<close>,
  \<^verbatim>\<open>src/vsm/VsmCodeList.cc\<close>). Each kind of operand has a writer and a reader; the locale
  \<open>code_codec\<close> states what the two promise each other, and the machine's streams rest on it.
\<close>

section \<open>Builder\<close>

record builder =
  bBody :: "u32 list"

definition Builder_new :: builder where
  "Builder_new = \<lparr>bBody = []\<rparr>"

definition write_opcode :: "u32 \<Rightarrow> builder \<Rightarrow> builder" where
  "write_opcode op b = b\<lparr>bBody := bBody b @ [op]\<rparr>"

definition write_int :: "i32 \<Rightarrow> builder \<Rightarrow> builder" where
  "write_int val b = b\<lparr>bBody := bBody b @ [val]\<rparr>"

text \<open>The two 32-bit codes that overlay a 64-bit member of the union, low half first.\<close>

definition codes_of_u64 :: "u64 \<Rightarrow> u32 list" where
  "codes_of_u64 x = [ucast x, ucast (drop_bit 32 x)]"

definition u64_of_codes :: "u32 \<Rightarrow> u32 \<Rightarrow> u64" where
  "u64_of_codes lo hi = push_bit 32 (ucast hi) OR ucast lo"

definition write_float :: "f64 \<Rightarrow> builder \<Rightarrow> builder" where
  "write_float val b = b\<lparr>bBody := bBody b @ codes_of_u64 val\<rparr>"

definition write_objptr :: "u64 \<Rightarrow> builder \<Rightarrow> builder" where
  "write_objptr val b = b\<lparr>bBody := bBody b @ codes_of_u64 val\<rparr>"

definition Builder_size :: "builder \<Rightarrow> i32" where
  "Builder_size b = of_nat (length (bBody b))"

definition Builder_read_opcode :: "builder \<Rightarrow> i32 \<Rightarrow> u32 res" where
  "Builder_read_opcode b addr =
     res_bind (assert_cond (0 \<le> sint addr \<and> sint addr < sint (Builder_size b)))
       (\<lambda>_. arr_get (bBody b) (sint addr))"

section \<open>Code list\<close>

record code_list =
  mSize :: u32
  mBody :: "u32 list"

primrec copy_codes :: "builder \<Rightarrow> nat \<Rightarrow> u32 list res" where
  "copy_codes b 0 = Inr []"
| "copy_codes b (Suc i) =
     res_bind (copy_codes b i)
       (\<lambda>xs. res_bind (Builder_read_opcode b (of_nat i)) (\<lambda>c. Inr (xs @ [c])))"

definition VsmCodeList_new :: "builder \<Rightarrow> code_list res" where
  "VsmCodeList_new b =
     (let n = Builder_size b
      in res_bind (copy_codes b (unat n)) (\<lambda>xs. Inr \<lparr>mSize = n, mBody = xs\<rparr>))"

definition code_size :: "code_list \<Rightarrow> int" where
  "code_size cl = sint (mSize cl)"

text \<open>The readers return the value and the advanced address.\<close>

definition read_opcode :: "code_list \<Rightarrow> int \<Rightarrow> (u32 \<times> int) res" where
  "read_opcode cl addr = res_bind (arr_get (mBody cl) addr) (\<lambda>op. Inr (op, addr + 1))"

definition read_int :: "code_list \<Rightarrow> int \<Rightarrow> (i32 \<times> int) res" where
  "read_int cl addr = res_bind (arr_get (mBody cl) addr) (\<lambda>val. Inr (val, addr + 1))"

definition read_float :: "code_list \<Rightarrow> int \<Rightarrow> (f64 \<times> int) res" where
  "read_float cl addr =
     res_bind (arr_get (mBody cl) addr)
       (\<lambda>lo. res_bind (arr_get (mBody cl) (addr + 1))
         (\<lambda>hi. Inr (u64_of_codes lo hi, addr + 2)))"

definition read_objptr :: "code_list \<Rightarrow> int \<Rightarrow> (u64 \<times> int) res" where
  "read_objptr cl addr =
     res_bind (arr_get (mBody cl) addr)
       (\<lambda>lo. res_bind (arr_get (mBody cl) (addr + 1))
         (\<lambda>hi. Inr (u64_of_codes lo hi, addr + 2)))"

section \<open>The constructor copies the builder\<close>

lemma sint_of_nat_i32: "n < 2 ^ 31 \<Longrightarrow> sint (of_nat n :: i32) = int n"
  using sint_word_of_int_i32 [of "int n"] by simp

lemma unat_of_nat_i32: "n < 2 ^ 31 \<Longrightarrow> unat (of_nat n :: i32) = n"
  by (simp add: unat_of_nat)

lemma copy_codes_take:
  assumes "length (bBody b) < 2 ^ 31" and "n \<le> length (bBody b)"
  shows "copy_codes b n = Inr (take n (bBody b))"
  using assms(2)
proof (induction n)
  case 0
  then show ?case by simp
next
  case (Suc i)
  then have "sint (of_nat i :: i32) = int i" and "i < length (bBody b)"
    using assms(1) by (simp_all add: sint_of_nat_i32)
  moreover have "sint (Builder_size b) = int (length (bBody b))"
    using assms(1) by (simp add: Builder_size_def sint_of_nat_i32)
  ultimately show ?case
    using Suc.IH by (simp add: Builder_read_opcode_def take_Suc_conv_app_nth)
qed

lemma VsmCodeList_new_copies:
  assumes "length (bBody b) < 2 ^ 31"
  shows "VsmCodeList_new b =
    Inr \<lparr>mSize = of_nat (length (bBody b)), mBody = bBody b\<rparr>"
  using assms
  by (simp add: VsmCodeList_new_def Builder_size_def unat_of_nat_i32 copy_codes_take)

section \<open>What a writer and a reader promise each other\<close>

locale code_codec =
  fixes put :: "'v \<Rightarrow> builder \<Rightarrow> builder"
    and get :: "code_list \<Rightarrow> int \<Rightarrow> ('v \<times> int) res"
    and enc :: "'v \<Rightarrow> u32 list"
  assumes write_appends: "bBody (put v b) = bBody b @ enc v"
    and read_enc: "mBody cl = xs @ enc v @ ys \<Longrightarrow>
      get cl (int (length xs)) = Inr (v, int (length xs + length (enc v)))"
begin

text \<open>A written value is read back at the address the writer started from, whatever follows.\<close>

lemma read_after_write:
  assumes "mBody cl = bBody (put v b) @ ys"
  shows "get cl (int (length (bBody b))) = Inr (v, int (length (bBody (put v b))))"
  using read_enc [of cl "bBody b" v ys] assms by (simp add: write_appends)

lemma write_size: "length (bBody (put v b)) = length (bBody b) + length (enc v)"
  by (simp add: write_appends)

end

lemma u64_of_codes_of_u64: "u64_of_codes (ucast x) (ucast (drop_bit 32 x)) = (x :: u64)"
proof (rule bit_word_eqI)
  fix n
  assume "n < LENGTH(64)"
  then show "bit (u64_of_codes (ucast x) (ucast (drop_bit 32 x))) n = bit x n"
    by (auto simp: u64_of_codes_def bit_or_iff bit_push_bit_iff bit_unsigned_iff bit_drop_bit_eq)
qed

lemma arr_get_append1: "arr_get (xs @ v # ys) (int (length xs)) = Inr v"
  by (simp add: arr_get_def)

lemma arr_get_append2: "arr_get (xs @ u # v # ys) (int (length xs) + 1) = Inr v"
  by (simp add: arr_get_def nat_add_distrib nth_append)

interpretation op_codec: code_codec write_opcode read_opcode "\<lambda>v. [v]"
  by unfold_locales (simp_all add: write_opcode_def read_opcode_def arr_get_append1)

interpretation int_codec: code_codec write_int read_int "\<lambda>v. [v]"
  by unfold_locales (simp_all add: write_int_def read_int_def arr_get_append1)

interpretation float_codec: code_codec write_float read_float codes_of_u64
  by unfold_locales
    (simp_all add: write_float_def read_float_def codes_of_u64_def arr_get_append1
      arr_get_append2 u64_of_codes_of_u64)

interpretation objptr_codec: code_codec write_objptr read_objptr codes_of_u64
  by unfold_locales
    (simp_all add: write_objptr_def read_objptr_def codes_of_u64_def arr_get_append1
      arr_get_append2 u64_of_codes_of_u64)

section \<open>Mixed streams\<close>

text \<open>A program text as the sequence of operands a generator writes.\<close>

datatype item = OpI u32 | IntI i32 | FloatI f64 | ObjI u64

fun write_item :: "item \<Rightarrow> builder \<Rightarrow> builder" where
  "write_item (OpI v) b = write_opcode v b"
| "write_item (IntI v) b = write_int v b"
| "write_item (FloatI v) b = write_float v b"
| "write_item (ObjI v) b = write_objptr v b"

text \<open>Read one operand of the kind of the given item.\<close>

fun read_like :: "item \<Rightarrow> code_list \<Rightarrow> int \<Rightarrow> (item \<times> int) res" where
  "read_like (OpI _) cl a = res_bind (read_opcode cl a) (\<lambda>(v, a'). Inr (OpI v, a'))"
| "read_like (IntI _) cl a = res_bind (read_int cl a) (\<lambda>(v, a'). Inr (IntI v, a'))"
| "read_like (FloatI _) cl a = res_bind (read_float cl a) (\<lambda>(v, a'). Inr (FloatI v, a'))"
| "read_like (ObjI _) cl a = res_bind (read_objptr cl a) (\<lambda>(v, a'). Inr (ObjI v, a'))"

fun write_items :: "item list \<Rightarrow> builder \<Rightarrow> builder" where
  "write_items [] b = b"
| "write_items (x # xs) b = write_items xs (write_item x b)"

fun read_items :: "item list \<Rightarrow> code_list \<Rightarrow> int \<Rightarrow> (item list \<times> int) res" where
  "read_items [] cl a = Inr ([], a)"
| "read_items (x # xs) cl a =
     res_bind (read_like x cl a)
       (\<lambda>(y, a'). res_bind (read_items xs cl a') (\<lambda>(ys, a''). Inr (y # ys, a'')))"

lemma read_like_write_item:
  assumes "mBody cl = bBody (write_item x b) @ ys"
  shows "read_like x cl (int (length (bBody b))) = Inr (x, int (length (bBody (write_item x b))))"
  using assms
  by (cases x)
    (simp_all add: op_codec.read_after_write int_codec.read_after_write
      float_codec.read_after_write objptr_codec.read_after_write)

lemma write_items_extends: "\<exists>ys. bBody (write_items xs b) = bBody b @ ys"
proof (induction xs arbitrary: b)
  case Nil
  then show ?case by simp
next
  case (Cons x xs)
  have "\<exists>ys. bBody (write_item x b) = bBody b @ ys"
    by (cases x) (simp_all add: op_codec.write_appends int_codec.write_appends
      float_codec.write_appends objptr_codec.write_appends)
  with Cons [of "write_item x b"] show ?case by auto
qed

lemma read_items_write_items:
  assumes "mBody cl = bBody (write_items xs b)"
  shows "read_items xs cl (int (length (bBody b))) =
    Inr (xs, int (length (bBody (write_items xs b))))"
  using assms
proof (induction xs arbitrary: b)
  case Nil
  then show ?case by simp
next
  case (Cons x xs)
  obtain ys where "mBody cl = bBody (write_item x b) @ ys"
    using write_items_extends [of xs "write_item x b"] Cons.prems by auto
  then show ?case
    using Cons by (simp add: read_like_write_item)
qed

end
