(* ===== verification/Vsm_State.thy ===== *)
theory Vsm_State
  imports Vsm_CodeList
begin

text \<open>
  The state of the virtual stack machine and its inline accessors (\<^verbatim>\<open>include/Vsm.h\<close>,
  \<^verbatim>\<open>include/VsmValue.h\<close>, \<^verbatim>\<open>include/VsmFunction.h\<close>). The local stack is an array with a stack
  pointer; the section on the abstract stack shows that push and pop implement a list, through
  the locale \<open>typed_stack\<close> that the three value kinds interpret.
\<close>

section \<open>Computations on a state that may fault\<close>

definition st_ret :: "'a \<Rightarrow> 's \<Rightarrow> ('a \<times> 's) res" where
  "st_ret x s = Inr (x, s)"

definition st_bind :: "('s \<Rightarrow> ('a \<times> 's) res) \<Rightarrow> ('a \<Rightarrow> 's \<Rightarrow> ('b \<times> 's) res) \<Rightarrow> 's \<Rightarrow> ('b \<times> 's) res" where
  "st_bind m f s = res_bind (m s) (\<lambda>(x, s'). f x s')"

definition st_lift :: "'a res \<Rightarrow> 's \<Rightarrow> ('a \<times> 's) res" where
  "st_lift r s = res_bind r (\<lambda>x. Inr (x, s))"

lemma st_bind_Inr [simp, fault_simps]: "m s = Inr (x, s') \<Longrightarrow> st_bind m f s = f x s'"
  by (simp add: st_bind_def)

lemma st_bind_Inl [simp, fault_simps]: "m s = Inl e \<Longrightarrow> st_bind m f s = Inl e"
  by (simp add: st_bind_def)

lemma st_ret_apply [simp, fault_simps]: "st_ret x s = Inr (x, s)"
  by (simp add: st_ret_def)

lemma st_lift_apply [simp, fault_simps]:
  "st_lift (Inr x) s = Inr (x, s)" "st_lift (Inl e) s = Inl e"
  by (simp_all add: st_lift_def)

lemma st_bind_eq_Inr:
  "st_bind m f s = Inr y \<longleftrightarrow> (\<exists>x s'. m s = Inr (x, s') \<and> f x s' = Inr y)"
  by (auto simp: st_bind_def res_bind_eq_Inr)

lemma st_lift_eq_Inr: "st_lift r s = Inr (x, s') \<longleftrightarrow> r = Inr x \<and> s' = s"
  by (cases r) auto

section \<open>Values, functions and the machine\<close>

text \<open>
  The union \<^verbatim>\<open>VsmValue\<close> remembers which member was written last; reading another member is
  undefined in C++. \<open>UninitV\<close> is a value that was never written.
\<close>

datatype vsm_value = UninitV | IntV i32 | FloatV f64 | ObjV u64

fun int_value :: "vsm_value \<Rightarrow> i32 res" where
  "int_value (IntV v) = Inr v"
| "int_value UninitV = Inl Uninit"
| "int_value _ = Inl WrongMember"

fun float_value :: "vsm_value \<Rightarrow> f64 res" where
  "float_value (FloatV v) = Inr v"
| "float_value UninitV = Inl Uninit"
| "float_value _ = Inl WrongMember"

fun obj_value :: "vsm_value \<Rightarrow> u64 res" where
  "obj_value (ObjV v) = Inr v"
| "obj_value UninitV = Inl Uninit"
| "obj_value _ = Inl WrongMember"

text \<open>
  A function is native (\<^verbatim>\<open>VsmNativeFunc\<close>: a code list) or built in (\<^verbatim>\<open>VsmBuiltinFunc\<close>: the pure
  virtual \<^verbatim>\<open>arg_num\<close> and \<^verbatim>\<open>_execute\<close> are the two last arguments; \<^verbatim>\<open>_execute\<close> returns the value and
  the text it prints). Types are pointers to types of the
  type manager.
\<close>

datatype vsm_func =
    NativeFunc (vf_name: string) (vf_type: "nat option") code_list
  | BuiltinFunc (vf_name: string) (vf_type: "nat option") nat
      "vsm_value list \<Rightarrow> (vsm_value \<times> string) res"

fun is_builtin :: "vsm_func \<Rightarrow> bool" where
  "is_builtin (NativeFunc _ _ _) = False"
| "is_builtin (BuiltinFunc _ _ _ _) = True"

text \<open>
  Each pointer member and its size member are one list, allocated or not (\<^verbatim>\<open>NULL\<close> with size 0 is
  the empty list). The stack pointer counts slots of an array whose size is an \<^verbatim>\<open>Ymsl_INT\<close>, so
  stepping it does not overflow before an access is out of bounds. \<open>vOut\<close> is the standard
  output the built-in functions write.
\<close>

record vsm =
  mFuncTable :: "vsm_func list"
  mGlobalHeap :: "vsm_value list"
  mLocalStack :: "vsm_value list"
  mSP :: int
  vOut :: string

definition Vsm_new :: vsm where
  "Vsm_new = \<lparr>mFuncTable = [], mGlobalHeap = [], mLocalStack = [], mSP = 0, vOut = ''''\<rparr>"

type_synonym 'a vm = "vsm \<Rightarrow> ('a \<times> vsm) res"

section \<open>Accessors\<close>

definition read_stack :: "int \<Rightarrow> vsm_value vm" where
  "read_stack index s = res_bind (arr_get (mLocalStack s) index) (\<lambda>v. Inr (v, s))"

definition write_stack :: "int \<Rightarrow> vsm_value \<Rightarrow> unit vm" where
  "write_stack index val s =
     res_bind (arr_set (mLocalStack s) index val) (\<lambda>st. Inr ((), s\<lparr>mLocalStack := st\<rparr>))"

definition push_value :: "vsm_value \<Rightarrow> unit vm" where
  "push_value v s =
     res_bind (arr_set (mLocalStack s) (mSP s) v)
       (\<lambda>st. Inr ((), s\<lparr>mLocalStack := st, mSP := mSP s + 1\<rparr>))"

definition push_INT :: "i32 \<Rightarrow> unit vm" where
  "push_INT val = push_value (IntV val)"

definition push_FLOAT :: "f64 \<Rightarrow> unit vm" where
  "push_FLOAT val = push_value (FloatV val)"

definition push_OBJPTR :: "u64 \<Rightarrow> unit vm" where
  "push_OBJPTR val = push_value (ObjV val)"

definition pop_value :: "(vsm_value \<Rightarrow> 'a res) \<Rightarrow> 'a vm" where
  "pop_value member s =
     (let sp = mSP s - 1
      in res_bind (arr_get (mLocalStack s) sp)
           (\<lambda>v. res_bind (member v) (\<lambda>x. Inr (x, s\<lparr>mSP := sp\<rparr>))))"

definition pop_INT :: "i32 vm" where
  "pop_INT = pop_value int_value"

definition pop_FLOAT :: "f64 vm" where
  "pop_FLOAT = pop_value float_value"

definition pop_OBJPTR :: "u64 vm" where
  "pop_OBJPTR = pop_value obj_value"

definition load_global :: "(vsm_value \<Rightarrow> 'a res) \<Rightarrow> int \<Rightarrow> 'a vm" where
  "load_global member index s =
     res_bind (arr_get (mGlobalHeap s) index)
       (\<lambda>v. res_bind (member v) (\<lambda>x. Inr (x, s)))"

definition load_global_INT :: "int \<Rightarrow> i32 vm" where
  "load_global_INT = load_global int_value"

definition load_global_FLOAT :: "int \<Rightarrow> f64 vm" where
  "load_global_FLOAT = load_global float_value"

definition load_global_OBJPTR :: "int \<Rightarrow> u64 vm" where
  "load_global_OBJPTR = load_global obj_value"

definition store_global :: "int \<Rightarrow> vsm_value \<Rightarrow> unit vm" where
  "store_global index v s =
     res_bind (arr_set (mGlobalHeap s) index v) (\<lambda>h. Inr ((), s\<lparr>mGlobalHeap := h\<rparr>))"

definition store_global_INT :: "int \<Rightarrow> i32 \<Rightarrow> unit vm" where
  "store_global_INT index val = store_global index (IntV val)"

definition store_global_FLOAT :: "int \<Rightarrow> f64 \<Rightarrow> unit vm" where
  "store_global_FLOAT index val = store_global index (FloatV val)"

definition store_global_OBJPTR :: "int \<Rightarrow> u64 \<Rightarrow> unit vm" where
  "store_global_OBJPTR index val = store_global index (ObjV val)"

definition load_local :: "(vsm_value \<Rightarrow> 'a res) \<Rightarrow> int \<Rightarrow> 'a vm" where
  "load_local member index s =
     res_bind (arr_get (mLocalStack s) index)
       (\<lambda>v. res_bind (member v) (\<lambda>x. Inr (x, s)))"

definition load_local_INT :: "int \<Rightarrow> i32 vm" where
  "load_local_INT = load_local int_value"

definition load_local_FLOAT :: "int \<Rightarrow> f64 vm" where
  "load_local_FLOAT = load_local float_value"

definition load_local_OBJPTR :: "int \<Rightarrow> u64 vm" where
  "load_local_OBJPTR = load_local obj_value"

definition store_local_INT :: "int \<Rightarrow> i32 \<Rightarrow> unit vm" where
  "store_local_INT index val = write_stack index (IntV val)"

definition store_local_FLOAT :: "int \<Rightarrow> f64 \<Rightarrow> unit vm" where
  "store_local_FLOAT index val = write_stack index (FloatV val)"

definition store_local_OBJPTR :: "int \<Rightarrow> u64 \<Rightarrow> unit vm" where
  "store_local_OBJPTR index val = write_stack index (ObjV val)"

section \<open>The abstract stack\<close>

definition stack_ok :: "vsm \<Rightarrow> bool" where
  "stack_ok s = (0 \<le> mSP s \<and> mSP s \<le> int (length (mLocalStack s)))"

definition abs_stack :: "vsm \<Rightarrow> vsm_value list" where
  "abs_stack s = rev (take (nat (mSP s)) (mLocalStack s))"

definition room :: "vsm \<Rightarrow> nat" where
  "room s = length (mLocalStack s) - nat (mSP s)"

text \<open>Two states that differ in the stack array and the stack pointer only.\<close>

definition same_rest :: "vsm \<Rightarrow> vsm \<Rightarrow> bool" where
  "same_rest s t \<longleftrightarrow>
     mFuncTable t = mFuncTable s \<and> mGlobalHeap t = mGlobalHeap s \<and> vOut t = vOut s \<and>
     length (mLocalStack t) = length (mLocalStack s)"

lemma same_rest_refl [simp]: "same_rest s s"
  by (simp add: same_rest_def)

lemma same_rest_trans: "same_rest s t \<Longrightarrow> same_rest t u \<Longrightarrow> same_rest s u"
  by (simp add: same_rest_def)

lemma length_abs_stack: "stack_ok s \<Longrightarrow> length (abs_stack s) = nat (mSP s)"
  by (auto simp: stack_ok_def abs_stack_def min_def)

lemma room_add_depth: "stack_ok s \<Longrightarrow> room s + length (abs_stack s) = length (mLocalStack s)"
  by (simp add: room_def length_abs_stack) (simp add: stack_ok_def nat_le_iff)

definition pushed :: "vsm_value \<Rightarrow> vsm \<Rightarrow> vsm" where
  "pushed v s = s\<lparr>mLocalStack := (mLocalStack s)[nat (mSP s) := v], mSP := mSP s + 1\<rparr>"

definition popped :: "vsm \<Rightarrow> vsm" where
  "popped s = s\<lparr>mSP := mSP s - 1\<rparr>"

lemma push_value_ok:
  assumes "stack_ok s" and "0 < room s"
  shows "push_value v s = Inr ((), pushed v s)"
  using assms by (simp add: push_value_def pushed_def stack_ok_def room_def)

lemma push_value_full:
  assumes "stack_ok s" and "room s = 0"
  shows "push_value v s = Inl OutOfBounds"
proof -
  have "int (length (mLocalStack s)) \<le> mSP s"
    using assms by (simp add: stack_ok_def room_def le_nat_iff)
  then show ?thesis by (simp add: push_value_def arr_set_oob)
qed

lemma abs_stack_pushed:
  assumes "stack_ok s" and "0 < room s"
  shows "abs_stack (pushed v s) = v # abs_stack s"
proof -
  have "nat (mSP s) < length (mLocalStack s)"
    using assms by (simp add: stack_ok_def room_def)
  then show ?thesis
    using assms(1)
    by (simp add: abs_stack_def pushed_def stack_ok_def nat_add_distrib take_Suc_conv_app_nth)
qed

lemma stack_ok_pushed: "stack_ok s \<Longrightarrow> 0 < room s \<Longrightarrow> stack_ok (pushed v s)"
  by (simp add: stack_ok_def pushed_def room_def)

lemma room_pushed: "stack_ok s \<Longrightarrow> 0 < room s \<Longrightarrow> room (pushed v s) = room s - 1"
  by (simp add: stack_ok_def pushed_def room_def nat_add_distrib)

lemma same_rest_pushed [simp]: "same_rest s (pushed v s)"
  by (simp add: same_rest_def pushed_def)

lemma pop_value_cons:
  assumes "stack_ok s" and "abs_stack s = v # vs"
  shows "pop_value member s = res_bind (member v) (\<lambda>x. Inr (x, popped s))"
    and "abs_stack (popped s) = vs" and "stack_ok (popped s)" and "room (popped s) = Suc (room s)"
proof -
  obtain n where n: "nat (mSP s) = Suc n"
    using assms length_abs_stack [of s] by (cases "nat (mSP s)") auto
  then have sp: "mSP s = int n + 1" and len: "n < length (mLocalStack s)"
    using assms(1) by (auto simp: stack_ok_def)
  have abs: "abs_stack s = mLocalStack s ! n # rev (take n (mLocalStack s))"
    using len n by (simp add: abs_stack_def take_Suc_conv_app_nth)
  then show "pop_value member s = res_bind (member v) (\<lambda>x. Inr (x, popped s))"
    using assms(2) len sp by (simp add: pop_value_def popped_def)
  show "abs_stack (popped s) = vs"
    using abs assms(2) sp by (simp add: abs_stack_def popped_def)
  show "stack_ok (popped s)" "room (popped s) = Suc (room s)"
    using len sp by (simp_all add: stack_ok_def popped_def room_def)
qed

lemma pop_value_empty: "stack_ok s \<Longrightarrow> abs_stack s = [] \<Longrightarrow> pop_value member s = Inl OutOfBounds"
  by (auto simp: pop_value_def stack_ok_def abs_stack_def arr_get_def)

lemma same_rest_popped [simp]: "same_rest s (popped s)"
  by (simp add: same_rest_def popped_def)

lemmas stack_step_simps =
  push_value_ok abs_stack_pushed stack_ok_pushed room_pushed pop_value_cons

section \<open>The typed views of the stack\<close>

text \<open>
  What the instruction set needs of one value kind: a pushed value is the top of the abstract
  stack, and popping returns exactly the value pushed last, leaving the rest.
\<close>

locale typed_stack =
  fixes push :: "'a \<Rightarrow> unit vm" and pop :: "'a vm" and inj_v :: "'a \<Rightarrow> vsm_value"
  assumes push_law: "stack_ok s \<Longrightarrow> 0 < room s \<Longrightarrow> push x s = Inr ((), pushed (inj_v x) s)"
    and pop_law: "stack_ok s \<Longrightarrow> abs_stack s = inj_v x # vs \<Longrightarrow> pop s = Inr (x, popped s)"
begin

lemma push_then_pop:
  assumes "stack_ok s" and "0 < room s"
  shows "st_bind (push x) (\<lambda>_. pop) s = Inr (x, popped (pushed (inj_v x) s))"
  using assms by (simp add: push_law pop_law abs_stack_pushed stack_ok_pushed)

lemma push_then_pop_abs:
  assumes "stack_ok s" and "0 < room s"
  shows "\<exists>t. st_bind (push x) (\<lambda>_. pop) s = Inr (x, t) \<and>
    abs_stack t = abs_stack s \<and> stack_ok t \<and> room t = room s \<and> same_rest s t"
proof -
  let ?u = "pushed (inj_v x) s"
  have u: "stack_ok ?u" "abs_stack ?u = inj_v x # abs_stack s" "room ?u = room s - 1"
    using assms by (simp_all add: stack_ok_pushed abs_stack_pushed room_pushed)
  have "same_rest s (popped ?u)"
    by (rule same_rest_trans [of _ ?u]) simp_all
  then show ?thesis
    using push_then_pop [OF assms] pop_value_cons(2-4) [OF u(1,2)] u(3) assms(2) by auto
qed

end

interpretation int_stack: typed_stack push_INT pop_INT IntV
  by unfold_locales
    (simp_all add: push_INT_def push_value_ok pop_INT_def pop_value_cons)

interpretation float_stack: typed_stack push_FLOAT pop_FLOAT FloatV
  by unfold_locales
    (simp_all add: push_FLOAT_def push_value_ok pop_FLOAT_def pop_value_cons)

interpretation objptr_stack: typed_stack push_OBJPTR pop_OBJPTR ObjV
  by unfold_locales
    (simp_all add: push_OBJPTR_def push_value_ok pop_OBJPTR_def pop_value_cons)

end
