(* ===== verification/Vsm_Opcode.thy ===== *)
theory Vsm_Opcode
  imports Ymsl_Prelude
begin

text \<open>
  The instruction codes of the virtual machine, \<^verbatim>\<open>enum VsmOpcode\<close> of \<^verbatim>\<open>include/Vsm.h\<close>, and their
  numbers in a code stream.
\<close>

section \<open>Opcodes\<close>

datatype (plugins only: code) vsm_opcode =
    VSM_NOP | VSM_PUSH_INT_IMM | VSM_PUSH_FLOAT_IMM | VSM_PUSH_FLOAT_ZERO |
    VSM_PUSH_FLOAT_ONE | VSM_PUSH_OBJ_NULL | VSM_LOAD_GLOBAL_INT | VSM_LOAD_GLOBAL_FLOAT |
    VSM_LOAD_GLOBAL_OBJ | VSM_LOAD_LOCAL_INT | VSM_LOAD_LOCAL_FLOAT | VSM_LOAD_LOCAL_OBJ |
    VSM_STORE_GLOBAL_INT | VSM_STORE_GLOBAL_FLOAT | VSM_STORE_GLOBAL_OBJ |
    VSM_STORE_LOCAL_INT | VSM_STORE_LOCAL_FLOAT | VSM_STORE_LOCAL_OBJ | VSM_INT_MINUS |
    VSM_INT_INC | VSM_INT_DEC | VSM_INT_NOT | VSM_INT_TO_BOOL | VSM_INT_TO_FLOAT |
    VSM_INT_ADD | VSM_INT_SUB | VSM_INT_MUL | VSM_INT_DIV | VSM_INT_MOD | VSM_INT_LSHIFT |
    VSM_INT_RSHIFT | VSM_INT_EQ | VSM_INT_NE | VSM_INT_LT | VSM_INT_LE | VSM_INT_AND |
    VSM_INT_OR | VSM_INT_XOR | VSM_INT_ITE | VSM_FLOAT_MINUS | VSM_FLOAT_TO_BOOL |
    VSM_FLOAT_TO_INT | VSM_FLOAT_ADD | VSM_FLOAT_SUB | VSM_FLOAT_MUL | VSM_FLOAT_DIV |
    VSM_FLOAT_EQ | VSM_FLOAT_NE | VSM_FLOAT_LT | VSM_FLOAT_LE | VSM_FLOAT_ITE |
    VSM_OBJ_MINUS | VSM_OBJ_INC | VSM_OBJ_DEC | VSM_OBJ_NOT | VSM_OBJ_TO_INT |
    VSM_OBJ_TO_FLOAT | VSM_OBJ_ADD | VSM_OBJ_SUB | VSM_OBJ_MUL | VSM_OBJ_DIV |
    VSM_OBJ_MOD | VSM_OBJ_LSHIFT | VSM_OBJ_RSHIFT | VSM_OBJ_EQ | VSM_OBJ_NE | VSM_OBJ_LT |
    VSM_OBJ_LE | VSM_OBJ_AND | VSM_OBJ_OR | VSM_OBJ_XOR | VSM_OBJ_ITE | VSM_JUMP |
    VSM_JUMP_R | VSM_BRANCH_TRUE | VSM_BRANCH_FALSE | VSM_CALL | VSM_CALL_R | VSM_RETURN |
    VSM_HALT

text \<open>The enumerators in order: the number of an opcode is its position.\<close>

definition vsm_opcodes :: "vsm_opcode list" where
  "vsm_opcodes =
    [VSM_NOP, VSM_PUSH_INT_IMM, VSM_PUSH_FLOAT_IMM, VSM_PUSH_FLOAT_ZERO,
     VSM_PUSH_FLOAT_ONE, VSM_PUSH_OBJ_NULL, VSM_LOAD_GLOBAL_INT, VSM_LOAD_GLOBAL_FLOAT,
     VSM_LOAD_GLOBAL_OBJ, VSM_LOAD_LOCAL_INT, VSM_LOAD_LOCAL_FLOAT, VSM_LOAD_LOCAL_OBJ,
     VSM_STORE_GLOBAL_INT, VSM_STORE_GLOBAL_FLOAT, VSM_STORE_GLOBAL_OBJ,
     VSM_STORE_LOCAL_INT, VSM_STORE_LOCAL_FLOAT, VSM_STORE_LOCAL_OBJ, VSM_INT_MINUS,
     VSM_INT_INC, VSM_INT_DEC, VSM_INT_NOT, VSM_INT_TO_BOOL, VSM_INT_TO_FLOAT, VSM_INT_ADD,
     VSM_INT_SUB, VSM_INT_MUL, VSM_INT_DIV, VSM_INT_MOD, VSM_INT_LSHIFT, VSM_INT_RSHIFT,
     VSM_INT_EQ, VSM_INT_NE, VSM_INT_LT, VSM_INT_LE, VSM_INT_AND, VSM_INT_OR, VSM_INT_XOR,
     VSM_INT_ITE, VSM_FLOAT_MINUS, VSM_FLOAT_TO_BOOL, VSM_FLOAT_TO_INT, VSM_FLOAT_ADD,
     VSM_FLOAT_SUB, VSM_FLOAT_MUL, VSM_FLOAT_DIV, VSM_FLOAT_EQ, VSM_FLOAT_NE, VSM_FLOAT_LT,
     VSM_FLOAT_LE, VSM_FLOAT_ITE, VSM_OBJ_MINUS, VSM_OBJ_INC, VSM_OBJ_DEC, VSM_OBJ_NOT,
     VSM_OBJ_TO_INT, VSM_OBJ_TO_FLOAT, VSM_OBJ_ADD, VSM_OBJ_SUB, VSM_OBJ_MUL, VSM_OBJ_DIV,
     VSM_OBJ_MOD, VSM_OBJ_LSHIFT, VSM_OBJ_RSHIFT, VSM_OBJ_EQ, VSM_OBJ_NE, VSM_OBJ_LT,
     VSM_OBJ_LE, VSM_OBJ_AND, VSM_OBJ_OR, VSM_OBJ_XOR, VSM_OBJ_ITE, VSM_JUMP, VSM_JUMP_R,
     VSM_BRANCH_TRUE, VSM_BRANCH_FALSE, VSM_CALL, VSM_CALL_R, VSM_RETURN, VSM_HALT]"

definition decode_op :: "u32 \<Rightarrow> vsm_opcode option" where
  "decode_op code =
     (if unat code < length vsm_opcodes then Some (vsm_opcodes ! unat code) else None)"

end
