(* ===== verification/Vsm_Exec.thy ===== *)
theory Vsm_Exec
  imports Vsm_State Vsm_Opcode
begin

text \<open>
  The switch and the fetch loop of the virtual machine, \<^verbatim>\<open>Vsm::execute\<close> (\<^verbatim>\<open>include/Vsm.h\<close>, \<^verbatim>\<open>src/vsm/Vsm.cc\<close>) with the functions it calls
  (\<^verbatim>\<open>VsmNativeFunc::execute\<close>, \<^verbatim>\<open>VsmBuiltinFunc::execute\<close>). The cases of the switch are grouped
  as the source orders them; each group says which opcodes it handles and what they do.
\<close>

section \<open>Instruction shapes\<close>

text \<open>The frame of \<^verbatim>\<open>execute\<close> is its program counter and the machine.\<close>

type_synonym frame = "int \<times> vsm"
type_synonym 'a ins = "frame \<Rightarrow> ('a \<times> frame) res"

definition fetch_opcode :: "code_list \<Rightarrow> u32 ins" where
  "fetch_opcode cl = (\<lambda>(pc, s). res_bind (read_opcode cl pc) (\<lambda>(v, pc'). Inr (v, (pc', s))))"

definition fetch_int :: "code_list \<Rightarrow> i32 ins" where
  "fetch_int cl = (\<lambda>(pc, s). res_bind (read_int cl pc) (\<lambda>(v, pc'). Inr (v, (pc', s))))"

definition fetch_float :: "code_list \<Rightarrow> f64 ins" where
  "fetch_float cl = (\<lambda>(pc, s). res_bind (read_float cl pc) (\<lambda>(v, pc'). Inr (v, (pc', s))))"

definition on_vm :: "'a vm \<Rightarrow> 'a ins" where
  "on_vm m = (\<lambda>(pc, s). res_bind (m s) (\<lambda>(x, s'). Inr (x, (pc, s'))))"

definition set_pc :: "i32 \<Rightarrow> unit ins" where
  "set_pc addr = (\<lambda>(pc, s). Inr ((), (sint addr, s)))"

definition un_INT :: "(i32 \<Rightarrow> i32 res) \<Rightarrow> unit vm" where
  "un_INT f = st_bind pop_INT (\<lambda>val. st_bind (st_lift (f val)) push_INT)"

definition bin_INT :: "(i32 \<Rightarrow> i32 \<Rightarrow> i32 res) \<Rightarrow> unit vm" where
  "bin_INT f =
     st_bind pop_INT (\<lambda>val1. st_bind pop_INT (\<lambda>val2. st_bind (st_lift (f val1 val2)) push_INT))"

definition cmp_INT :: "(i32 \<Rightarrow> i32 \<Rightarrow> bool) \<Rightarrow> unit vm" where
  "cmp_INT p = bin_INT (\<lambda>val1 val2. Inr (i32_of_bool (p val1 val2)))"

definition bin_FLOAT :: "(f64 \<Rightarrow> f64 \<Rightarrow> f64) \<Rightarrow> unit vm" where
  "bin_FLOAT f =
     st_bind pop_FLOAT (\<lambda>val1. st_bind pop_FLOAT (\<lambda>val2. push_FLOAT (f val1 val2)))"

definition cmp_FLOAT :: "(f64 \<Rightarrow> f64 \<Rightarrow> bool) \<Rightarrow> unit vm" where
  "cmp_FLOAT p =
     st_bind pop_FLOAT (\<lambda>val1. st_bind pop_FLOAT (\<lambda>val2. push_INT (i32_of_bool (p val1 val2))))"

text \<open>
  The \<^verbatim>\<open>OBJ\<close> cases pop their operands and push a local variable that was never assigned, which is
  undefined.
\<close>

definition un_OBJ :: "unit vm" where
  "un_OBJ = st_bind pop_OBJPTR (\<lambda>val1. st_lift (Inl Uninit))"

definition bin_OBJ :: "unit vm" where
  "bin_OBJ = st_bind pop_OBJPTR (\<lambda>val1. st_bind pop_OBJPTR (\<lambda>val2. st_lift (Inl Uninit)))"

definition shift_OBJ :: "unit vm" where
  "shift_OBJ = st_bind pop_OBJPTR (\<lambda>val1. st_bind pop_INT (\<lambda>val2. st_lift (Inl Uninit)))"

definition load_op :: "code_list \<Rightarrow> (int \<Rightarrow> 'a vm) \<Rightarrow> ('a \<Rightarrow> unit vm) \<Rightarrow> unit ins" where
  "load_op cl load push =
     st_bind (fetch_int cl)
       (\<lambda>index. st_bind (on_vm (load (sint index))) (\<lambda>val. on_vm (push val)))"

definition store_op :: "code_list \<Rightarrow> 'a vm \<Rightarrow> (int \<Rightarrow> 'a \<Rightarrow> unit vm) \<Rightarrow> unit ins" where
  "store_op cl pop store =
     st_bind (fetch_int cl)
       (\<lambda>index. st_bind (on_vm pop) (\<lambda>val. on_vm (store (sint index) val)))"

section \<open>The cases of the switch\<close>

definition exec_mem_op :: "code_list \<Rightarrow> int \<Rightarrow> vsm_opcode \<Rightarrow> unit ins option" where
  "exec_mem_op cl base op = (case op of
     VSM_PUSH_INT_IMM \<Rightarrow> Some (st_bind (fetch_int cl) (\<lambda>val. on_vm (push_INT val)))
   | VSM_PUSH_FLOAT_IMM \<Rightarrow> Some (st_bind (fetch_float cl) (\<lambda>val. on_vm (push_FLOAT val)))
   | VSM_PUSH_FLOAT_ZERO \<Rightarrow> Some (on_vm (push_FLOAT f_zero))
   | VSM_PUSH_FLOAT_ONE \<Rightarrow> Some (on_vm (push_FLOAT f_one))
   | VSM_PUSH_OBJ_NULL \<Rightarrow> Some (on_vm (push_OBJPTR 0))
   | VSM_LOAD_GLOBAL_INT \<Rightarrow> Some (load_op cl load_global_INT push_INT)
   | VSM_LOAD_GLOBAL_FLOAT \<Rightarrow> Some (load_op cl load_global_FLOAT push_FLOAT)
   | VSM_LOAD_GLOBAL_OBJ \<Rightarrow> Some (load_op cl load_global_OBJPTR push_OBJPTR)
   | VSM_LOAD_LOCAL_INT \<Rightarrow> Some (load_op cl (\<lambda>i. load_local_INT (base + i)) push_INT)
   | VSM_LOAD_LOCAL_FLOAT \<Rightarrow> Some (load_op cl (\<lambda>i. load_local_FLOAT (base + i)) push_FLOAT)
   | VSM_LOAD_LOCAL_OBJ \<Rightarrow> Some (load_op cl (\<lambda>i. load_local_OBJPTR (base + i)) push_OBJPTR)
   | VSM_STORE_GLOBAL_INT \<Rightarrow> Some (store_op cl pop_INT store_global_INT)
   | VSM_STORE_GLOBAL_FLOAT \<Rightarrow> Some (store_op cl pop_FLOAT store_global_FLOAT)
   | VSM_STORE_GLOBAL_OBJ \<Rightarrow> Some (store_op cl pop_OBJPTR store_global_OBJPTR)
   | VSM_STORE_LOCAL_INT \<Rightarrow> Some (store_op cl pop_INT (\<lambda>i. store_local_INT (base + i)))
   | VSM_STORE_LOCAL_FLOAT \<Rightarrow> Some (store_op cl pop_FLOAT (\<lambda>i. store_local_FLOAT (base + i)))
   | VSM_STORE_LOCAL_OBJ \<Rightarrow> Some (store_op cl pop_OBJPTR (\<lambda>i. store_local_OBJPTR (base + i)))
   | _ \<Rightarrow> None)"

definition exec_int_arith :: "vsm_opcode \<Rightarrow> unit vm option" where
  "exec_int_arith op = (case op of
     VSM_INT_MINUS \<Rightarrow> Some (un_INT c_neg)
   | VSM_INT_INC \<Rightarrow> Some (un_INT c_inc)
   | VSM_INT_DEC \<Rightarrow> Some (un_INT c_dec)
   | VSM_INT_NOT \<Rightarrow> Some (un_INT (\<lambda>val. Inr (NOT val)))
   | VSM_INT_TO_BOOL \<Rightarrow>
       Some (st_bind pop_INT (\<lambda>val. push_FLOAT (f_of_i32 (i32_of_bool (val \<noteq> 0)))))
   | VSM_INT_TO_FLOAT \<Rightarrow> Some (st_bind pop_INT (\<lambda>val. push_FLOAT (f_of_i32 val)))
   | VSM_INT_ADD \<Rightarrow> Some (bin_INT c_add)
   | VSM_INT_SUB \<Rightarrow> Some (bin_INT c_sub)
   | VSM_INT_MUL \<Rightarrow> Some (bin_INT c_mul)
   | VSM_INT_DIV \<Rightarrow> Some (bin_INT c_div)
   | VSM_INT_MOD \<Rightarrow> Some (bin_INT c_mod)
   | VSM_INT_LSHIFT \<Rightarrow> Some (bin_INT c_shl)
   | VSM_INT_RSHIFT \<Rightarrow> Some (bin_INT c_shr)
   | _ \<Rightarrow> None)"

definition exec_int_logic :: "vsm_opcode \<Rightarrow> unit vm option" where
  "exec_int_logic op = (case op of
     VSM_INT_EQ \<Rightarrow> Some (cmp_INT (\<lambda>val1 val2. val1 = val2))
   | VSM_INT_NE \<Rightarrow> Some (cmp_INT (\<lambda>val1 val2. val1 \<noteq> val2))
   | VSM_INT_LT \<Rightarrow> Some (cmp_INT (\<lambda>val1 val2. sint val1 < sint val2))
   | VSM_INT_LE \<Rightarrow> Some (cmp_INT (\<lambda>val1 val2. sint val1 \<le> sint val2))
   | VSM_INT_AND \<Rightarrow> Some (bin_INT (\<lambda>val1 val2. Inr (val1 AND val2)))
   | VSM_INT_OR \<Rightarrow> Some (bin_INT (\<lambda>val1 val2. Inr (val1 OR val2)))
   | VSM_INT_XOR \<Rightarrow> Some (bin_INT (\<lambda>val1 val2. Inr (val1 XOR val2)))
   | VSM_INT_ITE \<Rightarrow>
       Some (st_bind pop_INT (\<lambda>val1. st_bind pop_INT (\<lambda>val2. st_bind pop_INT
         (\<lambda>val3. push_INT (if val1 \<noteq> 0 then val2 else val3)))))
   | _ \<Rightarrow> None)"

definition exec_float_op :: "vsm_opcode \<Rightarrow> unit vm option" where
  "exec_float_op op = (case op of
     VSM_FLOAT_MINUS \<Rightarrow> Some (st_bind pop_FLOAT (\<lambda>val1. push_FLOAT (f_neg val1)))
   | VSM_FLOAT_TO_BOOL \<Rightarrow>
       Some (st_bind pop_FLOAT
         (\<lambda>val1. push_FLOAT (f_of_i32 (i32_of_bool (\<not> f_eq val1 f_zero)))))
   | VSM_FLOAT_TO_INT \<Rightarrow>
       Some (st_bind pop_FLOAT
         (\<lambda>val1. st_bind (st_lift (f_to_i32 val1)) (\<lambda>val. push_FLOAT (f_of_i32 val))))
   | VSM_FLOAT_ADD \<Rightarrow> Some (bin_FLOAT f_add)
   | VSM_FLOAT_SUB \<Rightarrow> Some (bin_FLOAT f_sub)
   | VSM_FLOAT_MUL \<Rightarrow> Some (bin_FLOAT f_mul)
   | VSM_FLOAT_DIV \<Rightarrow> Some (bin_FLOAT f_div)
   | VSM_FLOAT_EQ \<Rightarrow> Some (cmp_FLOAT f_eq)
   | VSM_FLOAT_NE \<Rightarrow> Some (cmp_FLOAT (\<lambda>val1 val2. \<not> f_eq val1 val2))
   | VSM_FLOAT_LT \<Rightarrow> Some (cmp_FLOAT f_lt)
   | VSM_FLOAT_LE \<Rightarrow> Some (cmp_FLOAT f_le)
   | VSM_FLOAT_ITE \<Rightarrow>
       Some (st_bind pop_INT (\<lambda>val1. st_bind pop_FLOAT (\<lambda>val2. st_bind pop_FLOAT
         (\<lambda>val3. push_FLOAT (if val1 \<noteq> 0 then val2 else val3)))))
   | _ \<Rightarrow> None)"

definition exec_obj_arith :: "vsm_opcode \<Rightarrow> unit vm option" where
  "exec_obj_arith op = (case op of
     VSM_OBJ_MINUS \<Rightarrow> Some un_OBJ
   | VSM_OBJ_INC \<Rightarrow> Some un_OBJ
   | VSM_OBJ_DEC \<Rightarrow> Some un_OBJ
   | VSM_OBJ_NOT \<Rightarrow> Some un_OBJ
   | VSM_OBJ_TO_INT \<Rightarrow> Some un_OBJ
   | VSM_OBJ_TO_FLOAT \<Rightarrow> Some un_OBJ
   | VSM_OBJ_ADD \<Rightarrow> Some bin_OBJ
   | VSM_OBJ_SUB \<Rightarrow> Some bin_OBJ
   | VSM_OBJ_MUL \<Rightarrow> Some bin_OBJ
   | VSM_OBJ_DIV \<Rightarrow> Some bin_OBJ
   | VSM_OBJ_MOD \<Rightarrow> Some bin_OBJ
   | VSM_OBJ_LSHIFT \<Rightarrow> Some shift_OBJ
   | VSM_OBJ_RSHIFT \<Rightarrow> Some shift_OBJ
   | _ \<Rightarrow> None)"

definition exec_obj_logic :: "vsm_opcode \<Rightarrow> unit vm option" where
  "exec_obj_logic op = (case op of
     VSM_OBJ_EQ \<Rightarrow> Some bin_OBJ
   | VSM_OBJ_NE \<Rightarrow> Some bin_OBJ
   | VSM_OBJ_LT \<Rightarrow> Some bin_OBJ
   | VSM_OBJ_LE \<Rightarrow> Some bin_OBJ
   | VSM_OBJ_AND \<Rightarrow> Some bin_OBJ
   | VSM_OBJ_OR \<Rightarrow> Some bin_OBJ
   | VSM_OBJ_XOR \<Rightarrow> Some bin_OBJ
   | VSM_OBJ_ITE \<Rightarrow>
       Some (st_bind pop_INT (\<lambda>val1. st_bind pop_OBJPTR (\<lambda>val2. st_bind pop_OBJPTR
         (\<lambda>val3. st_lift (Inl Uninit)))))
   | _ \<Rightarrow> None)"

text \<open>
  The control cases. The branches test \<open>code\<close>, the opcode that was fetched, as the source does;
  \<^verbatim>\<open>VSM_CALL\<close> yields the function to call.
\<close>

definition lookup_func :: "i32 \<Rightarrow> vsm_func option ins" where
  "lookup_func index = (\<lambda>(pc, s).
     res_bind (assert_cond (0 \<le> sint index \<and> sint index < int (length (mFuncTable s))))
       (\<lambda>_. res_bind (arr_get (mFuncTable s) (sint index)) (\<lambda>f. Inr (Some f, (pc, s)))))"

definition exec_control_op :: "code_list \<Rightarrow> u32 \<Rightarrow> vsm_opcode \<Rightarrow> vsm_func option ins option" where
  "exec_control_op cl code op = (case op of
     VSM_JUMP \<Rightarrow>
       Some (st_bind (fetch_int cl) (\<lambda>addr. st_bind (set_pc addr) (\<lambda>_. st_ret None)))
   | VSM_JUMP_R \<Rightarrow>
       Some (st_bind (on_vm pop_INT) (\<lambda>addr. st_bind (set_pc addr) (\<lambda>_. st_ret None)))
   | VSM_BRANCH_TRUE \<Rightarrow>
       Some (st_bind (fetch_int cl) (\<lambda>addr. st_bind (on_vm pop_INT) (\<lambda>cond.
         if code \<noteq> 0 then st_bind (set_pc addr) (\<lambda>_. st_ret None) else st_ret None)))
   | VSM_BRANCH_FALSE \<Rightarrow>
       Some (st_bind (fetch_int cl) (\<lambda>addr. st_bind (on_vm pop_INT) (\<lambda>cond.
         if \<not> code \<noteq> 0 then st_bind (set_pc addr) (\<lambda>_. st_ret None) else st_ret None)))
   | VSM_CALL \<Rightarrow> Some (st_bind (fetch_int cl) lookup_func)
   | VSM_CALL_R \<Rightarrow> Some (st_bind (on_vm pop_INT) lookup_func)
   | VSM_RETURN \<Rightarrow> Some (st_ret None)
   | VSM_HALT \<Rightarrow> Some (st_ret None)
   | _ \<Rightarrow> None)"

definition exec_value_op :: "vsm_opcode \<Rightarrow> unit vm option" where
  "exec_value_op op =
     (case exec_int_arith op of Some m \<Rightarrow> Some m
      | None \<Rightarrow> (case exec_int_logic op of Some m \<Rightarrow> Some m
      | None \<Rightarrow> (case exec_float_op op of Some m \<Rightarrow> Some m
      | None \<Rightarrow> (case exec_obj_arith op of Some m \<Rightarrow> Some m
      | None \<Rightarrow> exec_obj_logic op))))"

text \<open>One pass of the switch; an opcode without a case (\<^verbatim>\<open>VSM_NOP\<close>) does nothing.\<close>

definition exec_op :: "code_list \<Rightarrow> int \<Rightarrow> u32 \<Rightarrow> vsm_func option ins" where
  "exec_op cl base code =
     (case decode_op code of
        None \<Rightarrow> st_ret None
      | Some op \<Rightarrow>
          (case exec_mem_op cl base op of
             Some m \<Rightarrow> st_bind m (\<lambda>_. st_ret None)
           | None \<Rightarrow>
               (case exec_value_op op of
                  Some m \<Rightarrow> st_bind (on_vm m) (\<lambda>_. st_ret None)
                | None \<Rightarrow>
                    (case exec_control_op cl code op of
                       Some m \<Rightarrow> m
                     | None \<Rightarrow> st_ret None))))"

section \<open>Calls and the loop\<close>

text \<open>
  \<^verbatim>\<open>VsmBuiltinFunc::execute\<close>: the arguments are read from \<open>base\<close> upwards and the value is written
  to \<open>base\<close>; the stack pointer does not move.
\<close>

primrec read_args :: "int \<Rightarrow> nat \<Rightarrow> vsm_value list vm" where
  "read_args base 0 s = Inr ([], s)"
| "read_args base (Suc n) s =
     st_bind (read_args base n)
       (\<lambda>xs. st_bind (read_stack (base + int n)) (\<lambda>v. st_ret (xs @ [v]))) s"

definition exec_builtin ::
  "nat \<Rightarrow> (vsm_value list \<Rightarrow> (vsm_value \<times> string) res) \<Rightarrow> int \<Rightarrow> unit vm" where
  "exec_builtin arg_num body base =
     st_bind (read_args base arg_num)
       (\<lambda>arg_list. st_bind (st_lift (body arg_list))
         (\<lambda>(ret_val, txt). st_bind (write_stack base ret_val)
           (\<lambda>_ s. Inr ((), s\<lparr>vOut := vOut s @ txt\<rparr>))))"

text \<open>
  \<open>exec_from fuel cl base pc s\<close> is the loop of \<^verbatim>\<open>execute\<close> from \<open>pc\<close>; \<open>None\<close> is out of fuel. A call
  of a native function runs its own loop with the stack pointer as base.
\<close>

fun exec_from :: "nat \<Rightarrow> code_list \<Rightarrow> int \<Rightarrow> int \<Rightarrow> vsm \<Rightarrow> vsm res option" where
  "exec_from 0 cl base pc s = None"
| "exec_from (Suc n) cl base pc s =
     (if \<not> pc < code_size cl then Some (Inr s)
      else (case st_bind (fetch_opcode cl) (exec_op cl base) (pc, s) of
              Inl e \<Rightarrow> Some (Inl e)
            | Inr (None, (pc', s')) \<Rightarrow> exec_from n cl base pc' s'
            | Inr (Some (NativeFunc _ _ body), (pc', s')) \<Rightarrow>
                (case exec_from n body (mSP s') 0 s' of
                   None \<Rightarrow> None
                 | Some (Inl e) \<Rightarrow> Some (Inl e)
                 | Some (Inr s'') \<Rightarrow> exec_from n cl base pc' s'')
            | Inr (Some (BuiltinFunc _ _ k body), (pc', s')) \<Rightarrow>
                (case exec_builtin k body (mSP s') s' of
                   Inl e \<Rightarrow> Some (Inl e)
                 | Inr (_, s'') \<Rightarrow> exec_from n cl base pc' s'')))"

definition execute :: "nat \<Rightarrow> code_list \<Rightarrow> int \<Rightarrow> vsm \<Rightarrow> vsm res option" where
  "execute fuel cl base s = exec_from fuel cl base 0 s"

text \<open>\<^verbatim>\<open>VsmFunction::execute\<close> of the two kinds of function.\<close>

definition exec_function :: "nat \<Rightarrow> vsm_func \<Rightarrow> int \<Rightarrow> vsm \<Rightarrow> vsm res option" where
  "exec_function fuel f base s =
     (case f of
        NativeFunc _ _ body \<Rightarrow> execute fuel body base s
      | BuiltinFunc _ _ k body \<Rightarrow>
          Some (res_bind (exec_builtin k body base s) (\<lambda>(_, s'). Inr s')))"

end
