(* ===== verification/Vsm_Typing.thy ===== *)
theory Vsm_Typing
  imports Vsm_Exec
begin

text \<open>
  The type discipline of the instruction set: what kinds of value each opcode of the virtual
  machine takes from the stack and leaves there, and the proof that \<^verbatim>\<open>Vsm::execute\<close> keeps to it.
\<close>

section \<open>Effects of the value operations\<close>

datatype slot = SInt | SFloat | SObj

fun slot_of :: "vsm_value \<Rightarrow> slot option" where
  "slot_of UninitV = None"
| "slot_of (IntV _) = Some SInt"
| "slot_of (FloatV _) = Some SFloat"
| "slot_of (ObjV _) = Some SObj"

lemma slot_of_eq [simp]:
  "slot_of v = Some SInt \<longleftrightarrow> (\<exists>a. v = IntV a)"
  "slot_of v = Some SFloat \<longleftrightarrow> (\<exists>x. v = FloatV x)"
  "slot_of v = Some SObj \<longleftrightarrow> (\<exists>p. v = ObjV p)"
  by (cases v; simp)+

text \<open>Operands from the top of the stack downwards, and the kind of the result.\<close>

definition op_effect :: "vsm_opcode \<Rightarrow> (slot list \<times> slot) option" where
  "op_effect op =
     (if op \<in> {VSM_INT_MINUS, VSM_INT_INC, VSM_INT_DEC, VSM_INT_NOT} then Some ([SInt], SInt)
      else if op \<in> {VSM_INT_TO_BOOL, VSM_INT_TO_FLOAT} then Some ([SInt], SFloat)
      else if op \<in> {VSM_INT_ADD, VSM_INT_SUB, VSM_INT_MUL, VSM_INT_DIV, VSM_INT_MOD,
        VSM_INT_LSHIFT, VSM_INT_RSHIFT, VSM_INT_EQ, VSM_INT_NE, VSM_INT_LT, VSM_INT_LE,
        VSM_INT_AND, VSM_INT_OR, VSM_INT_XOR} then Some ([SInt, SInt], SInt)
      else if op = VSM_INT_ITE then Some ([SInt, SInt, SInt], SInt)
      else if op \<in> {VSM_FLOAT_MINUS, VSM_FLOAT_TO_BOOL, VSM_FLOAT_TO_INT}
        then Some ([SFloat], SFloat)
      else if op \<in> {VSM_FLOAT_ADD, VSM_FLOAT_SUB, VSM_FLOAT_MUL, VSM_FLOAT_DIV}
        then Some ([SFloat, SFloat], SFloat)
      else if op \<in> {VSM_FLOAT_EQ, VSM_FLOAT_NE, VSM_FLOAT_LT, VSM_FLOAT_LE}
        then Some ([SFloat, SFloat], SInt)
      else if op = VSM_FLOAT_ITE then Some ([SInt, SFloat, SFloat], SFloat)
      else None)"

definition arith_faults :: "fault set" where
  "arith_faults = {SignedOverflow, DivByZero, BadShift, BadConversion}"

text \<open>What a value operation may do on a stack that starts with its operands.\<close>

definition op_result :: "nat \<Rightarrow> slot \<Rightarrow> vsm \<Rightarrow> (unit \<times> vsm) res \<Rightarrow> bool" where
  "op_result k out s r =
     (case r of
        Inl e \<Rightarrow> e \<in> arith_faults
      | Inr (_, t) \<Rightarrow>
          (\<exists>v. slot_of v = Some out \<and> abs_stack t = v # drop k (abs_stack s)) \<and>
          stack_ok t \<and> same_rest s t)"

section \<open>The shapes of instructions on the abstract stack\<close>

lemma int_stack_popped:
  assumes "stack_ok s" "abs_stack s = v # vs"
  shows "abs_stack (popped s) = vs" "stack_ok (popped s)" "room (popped s) = Suc (room s)"
  using pop_value_cons(2-4) [OF assms] by auto

lemma push_result:
  assumes "stack_ok s" "0 < room s" "slot_of v = Some out" "same_rest s0 s"
    "abs_stack s = drop k (abs_stack s0)"
  shows "op_result k out s0 (push_value v s)"
  using assms same_rest_trans [OF assms(4) same_rest_pushed]
  by (auto simp: op_result_def push_value_ok abs_stack_pushed stack_ok_pushed)

lemma same_rest_popped2: "same_rest s t \<Longrightarrow> same_rest s (popped t)"
  by (rule same_rest_trans [OF _ same_rest_popped])

lemma un_INT_result:
  assumes "stack_ok s" "abs_stack s = IntV a # vs"
    and "\<And>e. f a = Inl e \<Longrightarrow> e \<in> arith_faults"
  shows "op_result (Suc 0) SInt s (un_INT f s)"
proof (cases "f a")
  case (Inl e)
  then show ?thesis
    using assms by (simp add: un_INT_def int_stack.pop_law op_result_def)
next
  case (Inr v)
  then show ?thesis
    using assms push_result [of "popped s" "IntV v" SInt s "Suc 0"]
    by (simp add: un_INT_def int_stack.pop_law int_stack_popped push_INT_def)
qed

lemma pop_push_result:
  assumes "stack_ok s" "abs_stack s = u # vs" "slot_of v = Some out"
  shows "op_result (Suc 0) out s (push_value v (popped s))"
  using assms push_result [of "popped s" v out s "Suc 0"] by (simp add: int_stack_popped)

lemma pop2_push_result:
  assumes "stack_ok s" "abs_stack s = u1 # u2 # vs" "slot_of v = Some out"
  shows "op_result 2 out s (push_value v (popped (popped s)))"
  using assms push_result [of "popped (popped s)" v out s 2]
  by (simp add: int_stack_popped same_rest_popped2)

lemma pop3_push_result:
  assumes "stack_ok s" "abs_stack s = u1 # u2 # u3 # vs" "slot_of v = Some out"
  shows "op_result 3 out s (push_value v (popped (popped (popped s))))"
  using assms push_result [of "popped (popped (popped s))" v out s 3]
  by (simp add: int_stack_popped same_rest_popped2 numeral_3_eq_3)

lemmas pop_laws = int_stack.pop_law float_stack.pop_law objptr_stack.pop_law int_stack_popped

lemma bin_INT_result:
  assumes "stack_ok s" "abs_stack s = IntV a # IntV b # vs"
    and "\<And>e. f a b = Inl e \<Longrightarrow> e \<in> arith_faults"
  shows "op_result 2 SInt s (bin_INT f s)"
  using assms pop2_push_result [OF assms(1,2)]
  by (cases "f a b")
    (simp_all add: bin_INT_def pop_laws push_INT_def, simp add: op_result_def)

lemma cmp_INT_result:
  assumes "stack_ok s" "abs_stack s = IntV a # IntV b # vs"
  shows "op_result 2 SInt s (cmp_INT p s)"
  using assms unfolding cmp_INT_def by (rule bin_INT_result) simp

lemma bin_FLOAT_result:
  assumes "stack_ok s" "abs_stack s = FloatV a # FloatV b # vs"
  shows "op_result 2 SFloat s (bin_FLOAT f s)"
  using assms pop2_push_result [OF assms]
  by (simp add: bin_FLOAT_def pop_laws push_FLOAT_def)

lemma cmp_FLOAT_result:
  assumes "stack_ok s" "abs_stack s = FloatV a # FloatV b # vs"
  shows "op_result 2 SInt s (cmp_FLOAT p s)"
  using assms pop2_push_result [OF assms]
  by (simp add: cmp_FLOAT_def pop_laws push_INT_def)

lemma arith_fault_members [simp]:
  "SignedOverflow \<in> arith_faults" "DivByZero \<in> arith_faults"
  "BadShift \<in> arith_faults" "BadConversion \<in> arith_faults"
  by (simp_all add: arith_faults_def)

lemma c_ops_faults:
  "c_neg a = Inl e \<Longrightarrow> e \<in> arith_faults" "c_inc a = Inl e \<Longrightarrow> e \<in> arith_faults"
  "c_dec a = Inl e \<Longrightarrow> e \<in> arith_faults" "c_add a b = Inl e \<Longrightarrow> e \<in> arith_faults"
  "c_sub a b = Inl e \<Longrightarrow> e \<in> arith_faults" "c_mul a b = Inl e \<Longrightarrow> e \<in> arith_faults"
  "c_div a b = Inl e \<Longrightarrow> e \<in> arith_faults" "c_mod a b = Inl e \<Longrightarrow> e \<in> arith_faults"
  "c_shl a b = Inl e \<Longrightarrow> e \<in> arith_faults" "c_shr a b = Inl e \<Longrightarrow> e \<in> arith_faults"
  "f_to_i32 x = Inl e \<Longrightarrow> e \<in> arith_faults"
  by (auto simp: c_neg_def c_inc_def c_dec_def c_add_def c_sub_def c_mul_def c_div_def c_mod_def
      c_shl_def c_shr_def f_to_i32_def Let_def res_bind_eq_Inl
      dest: i32_of_int_fault split: if_splits)

lemma float_to_int_result:
  assumes "stack_ok s" "abs_stack s = FloatV x # vs"
  shows "op_result (Suc 0) SFloat s
    (st_bind (st_lift (f_to_i32 x)) (\<lambda>val. push_value (FloatV (f_of_i32 val))) (popped s))"
proof (cases "f_to_i32 x")
  case (Inl e)
  then show ?thesis by (simp add: op_result_def c_ops_faults)
next
  case (Inr v)
  then show ?thesis using pop_push_result [OF assms] by simp
qed

lemmas exec_value_op_defs =
  exec_value_op_def exec_int_arith_def exec_int_logic_def exec_float_op_def
  exec_obj_arith_def exec_obj_logic_def

lemma starts1:
  "map slot_of (take 1 xs) = [Some a] \<Longrightarrow> \<exists>u vs. xs = u # vs \<and> slot_of u = Some a"
  by (cases xs) auto

lemma starts2:
  "map slot_of (take 2 xs) = [Some a, Some b] \<Longrightarrow>
     \<exists>u v vs. xs = u # v # vs \<and> slot_of u = Some a \<and> slot_of v = Some b"
  by (cases xs; cases "tl xs") auto

lemma starts3:
  "map slot_of (take 3 xs) = [Some a, Some b, Some c] \<Longrightarrow>
     \<exists>u v w vs. xs = u # v # w # vs \<and> slot_of u = Some a \<and> slot_of v = Some b \<and>
        slot_of w = Some c"
  by (cases xs; cases "tl xs"; cases "tl (tl xs)") auto

lemma value_op_effect1:
  assumes "exec_value_op op = Some m" and "op_effect op = Some ([i1], out)"
    and "stack_ok s" and "map slot_of (take 1 (abs_stack s)) = [Some i1]"
  shows "op_result 1 out s (m s)"
proof -
  obtain u vs where "abs_stack s = u # vs" "slot_of u = Some i1"
    using starts1 [OF assms(4)] by blast
  with assms show ?thesis
    by (cases op)
      (auto simp: exec_value_op_defs op_effect_def pop_laws push_FLOAT_def
        intro!: un_INT_result pop_push_result float_to_int_result dest: c_ops_faults)
qed

lemma value_op_effect2:
  assumes "exec_value_op op = Some m" and "op_effect op = Some ([i1, i2], out)"
    and "stack_ok s" and "map slot_of (take 2 (abs_stack s)) = [Some i1, Some i2]"
  shows "op_result 2 out s (m s)"
proof -
  obtain u v vs where "abs_stack s = u # v # vs" "slot_of u = Some i1" "slot_of v = Some i2"
    using starts2 [OF assms(4)] by blast
  with assms show ?thesis
    by (cases op)
      (auto simp: exec_value_op_defs op_effect_def
        intro!: bin_INT_result cmp_INT_result bin_FLOAT_result cmp_FLOAT_result
        dest: c_ops_faults)
qed

lemma value_op_effect3:
  assumes "exec_value_op op = Some m" and "op_effect op = Some ([i1, i2, i3], out)"
    and "stack_ok s" and "map slot_of (take 3 (abs_stack s)) = [Some i1, Some i2, Some i3]"
  shows "op_result 3 out s (m s)"
proof -
  obtain u v w vs where "abs_stack s = u # v # w # vs"
    "slot_of u = Some i1" "slot_of v = Some i2" "slot_of w = Some i3"
    using starts3 [OF assms(4)] by blast
  with assms show ?thesis
    by (cases op)
      (auto simp: exec_value_op_defs op_effect_def pop_laws push_INT_def push_FLOAT_def
        intro!: pop3_push_result)
qed

lemma op_effect_length: "op_effect op = Some (ins, out) \<Longrightarrow> length ins \<in> {1, 2, 3}"
  by (auto simp: op_effect_def split: if_splits)

text \<open>
  C31: An arithmetic, logical or conversion opcode, run on a well-formed stack that starts with
  operands of the kinds of its effect, never reads a wrong union member, never leaves the stack
  array and touches nothing but its operands: it replaces them by one value of the stated kind,
  unless the arithmetic itself is undefined in C++.
\<close>

theorem value_op_type_safe:
  assumes "exec_value_op op = Some m" and "op_effect op = Some (ins, out)" and "stack_ok s"
    and "map slot_of (take (length ins) (abs_stack s)) = map Some ins"
  shows "op_result (length ins) out s (m s)"
proof -
  consider (one) a where "ins = [a]" | (two) a b where "ins = [a, b]"
    | (three) a b c where "ins = [a, b, c]"
    using op_effect_length [OF assms(2)] by (auto simp: length_Suc_conv numeral_2_eq_2 numeral_3_eq_3)
  then show ?thesis
  proof cases
    case one
    then show ?thesis using assms value_op_effect1 [of op m a out s] by simp
  next
    case two
    then show ?thesis using assms value_op_effect2 [of op m a b out s] by (simp add: numeral_2_eq_2)
  next
    case three
    then show ?thesis using assms value_op_effect3 [of op m a b c out s] by (simp add: numeral_3_eq_3)
  qed
qed

section \<open>A bytecode checker\<close>

text \<open>Words of immediate operand after each opcode.\<close>

definition op_words :: "vsm_opcode \<Rightarrow> nat" where
  "op_words op =
     (if op = VSM_PUSH_FLOAT_IMM then 2
      else if op \<in> {VSM_PUSH_INT_IMM, VSM_LOAD_GLOBAL_INT, VSM_LOAD_GLOBAL_FLOAT,
        VSM_LOAD_GLOBAL_OBJ, VSM_LOAD_LOCAL_INT, VSM_LOAD_LOCAL_FLOAT, VSM_LOAD_LOCAL_OBJ,
        VSM_STORE_GLOBAL_INT, VSM_STORE_GLOBAL_FLOAT, VSM_STORE_GLOBAL_OBJ,
        VSM_STORE_LOCAL_INT, VSM_STORE_LOCAL_FLOAT, VSM_STORE_LOCAL_OBJ, VSM_JUMP,
        VSM_BRANCH_TRUE, VSM_BRANCH_FALSE, VSM_CALL} then 1
      else 0)"

text \<open>
  The kinds of the globals (\<open>gts\<close>), of the local variables above the base (\<open>lts\<close>) and of the
  operands (\<open>ts\<close>, top first) determine what an instruction without control transfer does.
\<close>

definition load_type :: "slot list \<Rightarrow> i32 \<Rightarrow> slot \<Rightarrow> slot list \<Rightarrow> slot list option" where
  "load_type vts w k ts =
     (if 0 \<le> sint w \<and> sint w < int (length vts) \<and> vts ! nat (sint w) = k
      then Some (k # ts) else None)"

definition store_type :: "slot list \<Rightarrow> i32 \<Rightarrow> slot \<Rightarrow> slot list \<Rightarrow> slot list option" where
  "store_type vts w k ts =
     (if 0 \<le> sint w \<and> sint w < int (length vts) \<and> vts ! nat (sint w) = k \<and> ts \<noteq> [] \<and> hd ts = k
      then Some (tl ts) else None)"

definition check_op ::
  "slot list \<Rightarrow> slot list \<Rightarrow> vsm_opcode \<Rightarrow> u32 \<Rightarrow> slot list \<Rightarrow> slot list option" where
  "check_op lts gts op w ts = (case op of
     VSM_NOP \<Rightarrow> Some ts
   | VSM_RETURN \<Rightarrow> Some ts
   | VSM_HALT \<Rightarrow> Some ts
   | VSM_PUSH_INT_IMM \<Rightarrow> Some (SInt # ts)
   | VSM_PUSH_FLOAT_IMM \<Rightarrow> Some (SFloat # ts)
   | VSM_PUSH_FLOAT_ZERO \<Rightarrow> Some (SFloat # ts)
   | VSM_PUSH_FLOAT_ONE \<Rightarrow> Some (SFloat # ts)
   | VSM_PUSH_OBJ_NULL \<Rightarrow> Some (SObj # ts)
   | VSM_LOAD_GLOBAL_INT \<Rightarrow> load_type gts w SInt ts
   | VSM_LOAD_GLOBAL_FLOAT \<Rightarrow> load_type gts w SFloat ts
   | VSM_LOAD_GLOBAL_OBJ \<Rightarrow> load_type gts w SObj ts
   | VSM_LOAD_LOCAL_INT \<Rightarrow> load_type lts w SInt ts
   | VSM_LOAD_LOCAL_FLOAT \<Rightarrow> load_type lts w SFloat ts
   | VSM_LOAD_LOCAL_OBJ \<Rightarrow> load_type lts w SObj ts
   | VSM_STORE_GLOBAL_INT \<Rightarrow> store_type gts w SInt ts
   | VSM_STORE_GLOBAL_FLOAT \<Rightarrow> store_type gts w SFloat ts
   | VSM_STORE_GLOBAL_OBJ \<Rightarrow> store_type gts w SObj ts
   | VSM_STORE_LOCAL_INT \<Rightarrow> store_type lts w SInt ts
   | VSM_STORE_LOCAL_FLOAT \<Rightarrow> store_type lts w SFloat ts
   | VSM_STORE_LOCAL_OBJ \<Rightarrow> store_type lts w SObj ts
   | _ \<Rightarrow> (case op_effect op of
        None \<Rightarrow> None
      | Some (ins, out) \<Rightarrow>
          if take (length ins) ts = ins then Some (out # drop (length ins) ts) else None))"

function check_code ::
  "nat \<Rightarrow> slot list \<Rightarrow> slot list \<Rightarrow> u32 list \<Rightarrow> slot list \<Rightarrow> slot list option" where
  "check_code cap lts gts [] ts = Some ts"
| "check_code cap lts gts (c # cs) ts =
     (case decode_op c of
        None \<Rightarrow> check_code cap lts gts cs ts
      | Some op \<Rightarrow>
          if length cs < op_words op then None
          else (case check_op lts gts op (hd (cs @ [0])) ts of
             None \<Rightarrow> None
           | Some ts' \<Rightarrow>
               if length ts' \<le> cap then check_code cap lts gts (drop (op_words op) cs) ts'
               else None))"
  by pat_completeness auto
termination
  by (relation "measure (\<lambda>(cap, lts, gts, cs, ts). length cs)") auto

section \<open>Typed frames\<close>

text \<open>
  The stack of a typed frame: the operands over the part \<open>low\<close> of the array that holds the local
  variables from \<open>base\<close> on, with space for \<open>cap\<close> operands.
\<close>

definition frame_typed ::
  "int \<Rightarrow> slot list \<Rightarrow> slot list \<Rightarrow> nat \<Rightarrow> slot list \<Rightarrow> vsm \<Rightarrow> bool" where
  "frame_typed base lts gts cap ts s \<longleftrightarrow>
     stack_ok s \<and> map slot_of (mGlobalHeap s) = map Some gts \<and> 0 \<le> base \<and>
     (\<exists>ops low. abs_stack s = ops @ rev low \<and> map slot_of ops = map Some ts \<and>
        nat base + length lts \<le> length low \<and>
        map slot_of (take (length lts) (drop (nat base) low)) = map Some lts \<and>
        length low + cap \<le> length (mLocalStack s))"

lemma frame_typedE:
  assumes "frame_typed base lts gts cap ts s"
  obtains ops low where "stack_ok s" "map slot_of (mGlobalHeap s) = map Some gts" "0 \<le> base"
    "abs_stack s = ops @ rev low" "map slot_of ops = map Some ts"
    "nat base + length lts \<le> length low"
    "map slot_of (take (length lts) (drop (nat base) low)) = map Some lts"
    "length low + cap \<le> length (mLocalStack s)"
  using assms unfolding frame_typed_def by blast

lemma frame_typed_room:
  assumes "frame_typed base lts gts cap ts s" and "length ts < cap"
  shows "0 < room s"
proof -
  from assms(1) obtain ops low where "stack_ok s" "abs_stack s = ops @ rev low"
    "map slot_of ops = map Some ts" "length low + cap \<le> length (mLocalStack s)"
    by (rule frame_typedE)
  moreover from this have "length ops = length ts"
    by (metis length_map)
  ultimately show ?thesis
    using room_add_depth [of s] assms(2) by simp
qed

lemma frame_typed_push:
  assumes "frame_typed base lts gts cap ts s" and "length ts < cap" and "slot_of v = Some k"
  shows "\<exists>t. push_value v s = Inr ((), t) \<and> frame_typed base lts gts cap (k # ts) t"
proof -
  have r: "0 < room s" by (rule frame_typed_room [OF assms(1,2)])
  from assms(1) obtain ops low where f: "stack_ok s" "map slot_of (mGlobalHeap s) = map Some gts"
    "0 \<le> base" "abs_stack s = ops @ rev low" "map slot_of ops = map Some ts"
    "nat base + length lts \<le> length low"
    "map slot_of (take (length lts) (drop (nat base) low)) = map Some lts"
    "length low + cap \<le> length (mLocalStack s)"
    by (rule frame_typedE)
  have "abs_stack (pushed v s) = (v # ops) @ rev low"
    using r f by (simp add: abs_stack_pushed)
  moreover have "map slot_of (v # ops) = map Some (k # ts)"
    using f assms(3) by simp
  ultimately have "frame_typed base lts gts cap (k # ts) (pushed v s)"
    unfolding frame_typed_def using r f same_rest_pushed [of s v]
    by (intro conjI exI [of _ "v # ops"] exI [of _ low])
      (simp_all add: stack_ok_pushed same_rest_def)
  then show ?thesis using r f by (simp add: push_value_ok)
qed

lemma frame_typed_value_op:
  assumes "frame_typed base lts gts cap ts s"
    and "exec_value_op op = Some m" and "op_effect op = Some (ins, out)"
    and "take (length ins) ts = ins"
  shows "case m s of Inl e \<Rightarrow> e \<in> arith_faults
    | Inr (_, t) \<Rightarrow> frame_typed base lts gts cap (out # drop (length ins) ts) t"
proof -
  from assms(1) obtain ops low where f: "stack_ok s" "map slot_of (mGlobalHeap s) = map Some gts"
    "0 \<le> base" "abs_stack s = ops @ rev low" "map slot_of ops = map Some ts"
    "nat base + length lts \<le> length low"
    "map slot_of (take (length lts) (drop (nat base) low)) = map Some lts"
    "length low + cap \<le> length (mLocalStack s)"
    by (rule frame_typedE)
  let ?k = "length ins"
  have len: "?k \<le> length ops"
    using assms(4) f(5) by (metis length_map length_take min.cobounded1)
  have "take ?k (map slot_of ops) = take ?k (map Some ts)"
    using f(5) by simp
  then have "map slot_of (take ?k (abs_stack s)) = map Some ins"
    using f(4) len assms(4) by (simp add: take_map)
  then have r: "op_result ?k out s (m s)"
    using assms(2,3) f(1) by (intro value_op_type_safe)
  show ?thesis
  proof (cases "m s")
    case (Inl e)
    with r show ?thesis by (simp add: op_result_def)
  next
    case (Inr p)
    then obtain t where t: "m s = Inr ((), t)" by (cases p) auto
    with r obtain v where v: "slot_of v = Some out" "abs_stack t = v # drop ?k (abs_stack s)"
      "stack_ok t" "same_rest s t"
      by (auto simp: op_result_def)
    have "abs_stack t = (v # drop ?k ops) @ rev low"
      using v(2) f(4) len by simp
    moreover have "map slot_of (v # drop ?k ops) = map Some (out # drop ?k ts)"
      using v(1) f(5) by (simp add: drop_map [symmetric])
    ultimately have "frame_typed base lts gts cap (out # drop ?k ts) t"
      unfolding frame_typed_def using v f
      by (intro conjI exI [of _ "v # drop ?k ops"] exI [of _ low]) (simp_all add: same_rest_def)
    with t show ?thesis by simp
  qed
qed

lemma low_nth:
  assumes "stack_ok s" "abs_stack s = ops @ rev low" "j < length low"
  shows "mLocalStack s ! j = low ! j" "j < length (mLocalStack s)"
    "j < nat (mSP s)"
proof -
  have t: "take (nat (mSP s)) (mLocalStack s) = low @ rev ops"
    using assms(2) by (simp add: abs_stack_def rev_swap)
  moreover have "nat (mSP s) \<le> length (mLocalStack s)"
    using assms(1) by (simp add: stack_ok_def nat_le_iff)
  ultimately have sp: "nat (mSP s) = length low + length ops"
    by (metis length_append length_rev length_take min.absorb2)
  then show j: "j < nat (mSP s)" "j < length (mLocalStack s)"
    using assms(3) \<open>nat (mSP s) \<le> length (mLocalStack s)\<close> by simp_all
  show "mLocalStack s ! j = low ! j"
    using t j assms(3) by (metis nth_append nth_take)
qed

lemma frame_typed_local:
  assumes "frame_typed base lts gts cap ts s" and "i < length lts"
  shows "\<exists>v. arr_get (mLocalStack s) (base + int i) = Inr v \<and> slot_of v = Some (lts ! i)"
proof -
  from assms(1) obtain ops low where f: "stack_ok s" "0 \<le> base"
    "abs_stack s = ops @ rev low" "nat base + length lts \<le> length low"
    "map slot_of (take (length lts) (drop (nat base) low)) = map Some lts"
    by (rule frame_typedE)
  let ?j = "nat base + i"
  have j: "?j < length low" using f(4) assms(2) by simp
  have "slot_of (low ! ?j) = Some (lts ! i)"
    using arg_cong [OF f(5), where f = "\<lambda>xs. xs ! i"] f(4) assms(2) by simp
  moreover have "arr_get (mLocalStack s) (base + int i) = Inr (low ! ?j)"
    using low_nth [OF f(1,3) j] f(2) by (simp add: nat_add_distrib)
  ultimately show ?thesis by blast
qed

lemma frame_typed_global:
  assumes "frame_typed base lts gts cap ts s" and "i < length gts"
  shows "\<exists>v. arr_get (mGlobalHeap s) (int i) = Inr v \<and> slot_of v = Some (gts ! i)"
proof -
  have g: "map slot_of (mGlobalHeap s) = map Some gts"
    using assms(1) by (rule frame_typedE)
  then have "length (mGlobalHeap s) = length gts" by (metis length_map)
  moreover have "slot_of (mGlobalHeap s ! i) = Some (gts ! i)"
    using arg_cong [OF g, where f = "\<lambda>xs. xs ! i"] assms(2) calculation by simp
  ultimately show ?thesis using assms(2) by simp
qed

lemma frame_typed_pop:
  assumes "frame_typed base lts gts cap (k # ts) s"
  shows "\<exists>v vs. abs_stack s = v # vs \<and> slot_of v = Some k \<and> stack_ok s \<and>
    frame_typed base lts gts cap ts (popped s)"
proof -
  from assms obtain ops low where f: "stack_ok s" "map slot_of (mGlobalHeap s) = map Some gts"
    "0 \<le> base" "abs_stack s = ops @ rev low" "map slot_of ops = map Some (k # ts)"
    "nat base + length lts \<le> length low"
    "map slot_of (take (length lts) (drop (nat base) low)) = map Some lts"
    "length low + cap \<le> length (mLocalStack s)"
    by (rule frame_typedE)
  then obtain v ops' where o: "ops = v # ops'" "slot_of v = Some k" "map slot_of ops' = map Some ts"
    by (auto simp: map_eq_Cons_conv)
  have a: "abs_stack s = v # ops' @ rev low" using f o by simp
  have "frame_typed base lts gts cap ts (popped s)"
    unfolding frame_typed_def using f o int_stack_popped [OF f(1) a] same_rest_popped [of s]
    by (intro conjI exI [of _ ops'] exI [of _ low]) (simp_all add: same_rest_def)
  with a o f show ?thesis by blast
qed

lemma frame_typed_store_local:
  assumes "frame_typed base lts gts cap ts s" and "i < length lts" and "slot_of v = Some (lts ! i)"
  shows "\<exists>t. write_stack (base + int i) v s = Inr ((), t) \<and> frame_typed base lts gts cap ts t"
proof -
  from assms(1) obtain ops low where f: "stack_ok s" "map slot_of (mGlobalHeap s) = map Some gts"
    "0 \<le> base" "abs_stack s = ops @ rev low" "map slot_of ops = map Some ts"
    "nat base + length lts \<le> length low"
    "map slot_of (take (length lts) (drop (nat base) low)) = map Some lts"
    "length low + cap \<le> length (mLocalStack s)"
    by (rule frame_typedE)
  let ?j = "nat base + i"
  let ?t = "s\<lparr>mLocalStack := (mLocalStack s)[?j := v]\<rparr>"
  have j: "?j < length low" using f(6) assms(2) by simp
  have w: "write_stack (base + int i) v s = Inr ((), ?t)"
    using low_nth [OF f(1,4) j] f(3) by (simp add: write_stack_def nat_add_distrib)
  have "take (nat (mSP s)) (mLocalStack s) = low @ rev ops"
    using f(4) by (simp add: abs_stack_def rev_swap)
  then have "abs_stack ?t = ops @ rev (low[?j := v])"
    using j by (simp add: abs_stack_def take_update_swap list_update_append)
  moreover have "map slot_of (take (length lts) (drop (nat base) (low[?j := v]))) = map Some lts"
  proof -
    have "take (length lts) (drop (nat base) (low[?j := v]))
        = (take (length lts) (drop (nat base) low))[i := v]"
      using assms(2) by (simp add: drop_update_swap take_update_swap)
    moreover have "(map Some lts)[i := Some (lts ! i)] = map Some lts"
      using assms(2) by (simp add: list_update_same_conv)
    ultimately show ?thesis using f(7) assms(3) by (simp add: map_update)
  qed
  ultimately have "frame_typed base lts gts cap ts ?t"
    unfolding frame_typed_def using f
    by (intro conjI exI [of _ ops] exI [of _ "low[?j := v]"]) (simp_all add: stack_ok_def)
  with w show ?thesis by blast
qed

lemma frame_typed_store_global:
  assumes "frame_typed base lts gts cap ts s" and "i < length gts" and "slot_of v = Some (gts ! i)"
  shows "\<exists>t. store_global (int i) v s = Inr ((), t) \<and> frame_typed base lts gts cap ts t"
proof -
  let ?t = "s\<lparr>mGlobalHeap := (mGlobalHeap s)[i := v]\<rparr>"
  have g: "map slot_of (mGlobalHeap s) = map Some gts"
    using assms(1) by (rule frame_typedE)
  then have l: "length (mGlobalHeap s) = length gts" by (metis length_map)
  have "(map Some gts)[i := Some (gts ! i)] = map Some gts"
    using assms(2) by (simp add: list_update_same_conv)
  then have "map slot_of (mGlobalHeap ?t) = map Some gts"
    using g assms(3) by (simp add: map_update)
  then have "frame_typed base lts gts cap ts ?t"
    using assms(1) unfolding frame_typed_def by (simp add: abs_stack_def stack_ok_def)
  moreover have "store_global (int i) v s = Inr ((), ?t)"
    using l assms(2) by (simp add: store_global_def)
  ultimately show ?thesis by blast
qed

section \<open>The outcome of one instruction\<close>

definition op_post ::
  "int \<Rightarrow> slot list \<Rightarrow> slot list \<Rightarrow> nat \<Rightarrow> slot list \<Rightarrow> int \<Rightarrow> ('a \<times> frame) res \<Rightarrow> bool" where
  "op_post base lts gts cap ts q r =
     (case r of
        Inl e \<Rightarrow> e \<in> arith_faults
      | Inr (_, (pc, t)) \<Rightarrow> pc = q \<and> frame_typed base lts gts cap ts t)"

lemma op_post_ex:
  "\<exists>t. r = Inr ((), (q, t)) \<and> frame_typed base lts gts cap ts t \<Longrightarrow>
    op_post base lts gts cap ts q r"
  by (auto simp: op_post_def)

section \<open>Loads and stores of one kind\<close>

text \<open>What the load and store instructions of one kind need of the union member they use.\<close>

locale typed_member =
  fixes member :: "vsm_value \<Rightarrow> 'a res" and inj_v :: "'a \<Rightarrow> vsm_value" and kind :: slot
  assumes member_inj: "member (inj_v x) = Inr x"
    and kind_inj: "slot_of v = Some kind \<longleftrightarrow> (\<exists>x. v = inj_v x)"
begin

lemma load_local_typed:
  assumes "load_type lts w kind ts = Some ts'" and "frame_typed base lts gts cap ts s"
  shows "\<exists>x. load_local member (base + sint w) s = Inr (x, s)" and "ts' = kind # ts"
proof -
  have w: "0 \<le> sint w" "nat (sint w) < length lts" "lts ! nat (sint w) = kind" "ts' = kind # ts"
    using assms(1) by (auto simp: load_type_def split: if_splits)
  show "ts' = kind # ts" by (rule w(4))
  show "\<exists>x. load_local member (base + sint w) s = Inr (x, s)"
    using frame_typed_local [OF assms(2) w(2)] w
    by (auto simp: load_local_def kind_inj member_inj)
qed

lemma load_global_typed:
  assumes "load_type gts w kind ts = Some ts'" and "frame_typed base lts gts cap ts s"
  shows "\<exists>x. load_global member (sint w) s = Inr (x, s)" and "ts' = kind # ts"
proof -
  have w: "0 \<le> sint w" "nat (sint w) < length gts" "gts ! nat (sint w) = kind" "ts' = kind # ts"
    using assms(1) by (auto simp: load_type_def split: if_splits)
  show "ts' = kind # ts" by (rule w(4))
  show "\<exists>x. load_global member (sint w) s = Inr (x, s)"
    using frame_typed_global [OF assms(2) w(2)] w
    by (auto simp: load_global_def kind_inj member_inj)
qed

lemma load_op_typed:
  assumes "fetch_int cl (pc, s) = Inr (w, (pc', s))" and "\<exists>x. load (sint w) s = Inr (x, s)"
    and "frame_typed base lts gts cap ts s" and "length ts < cap"
  shows "\<exists>t. load_op cl load (\<lambda>x. push_value (inj_v x)) (pc, s) = Inr ((), (pc', t)) \<and>
    frame_typed base lts gts cap (kind # ts) t"
proof -
  obtain x where x: "load (sint w) s = Inr (x, s)" using assms(2) by blast
  have "slot_of (inj_v x) = Some kind" by (auto simp: kind_inj)
  from frame_typed_push [OF assms(3,4) this] x assms(1) show ?thesis
    by (auto simp: load_op_def on_vm_def)
qed

lemma pop_typed:
  assumes "frame_typed base lts gts cap (kind # ts) s"
  obtains x where "pop_value member s = Inr (x, popped s)"
    "frame_typed base lts gts cap ts (popped s)"
proof -
  obtain v vs where v: "abs_stack s = v # vs" "slot_of v = Some kind" "stack_ok s"
    "frame_typed base lts gts cap ts (popped s)"
    using frame_typed_pop [OF assms] by blast
  then obtain x where "v = inj_v x" using kind_inj by blast
  then have "pop_value member s = Inr (x, popped s)"
    using pop_value_cons(1) [OF v(3,1), of member] by (simp add: member_inj)
  then show thesis using v(4) by (rule that)
qed

lemma kind_of_inj: "slot_of (inj_v x) = Some kind"
  by (auto simp: kind_inj)

lemma store_op_typed:
  assumes "store_type vts w kind ts = Some ts'" and "frame_typed base lts gts cap ts s"
    and "fetch_int cl (pc, s) = Inr (w, (pc', s))"
    and store: "\<And>i v t. i < length vts \<Longrightarrow> slot_of v = Some (vts ! i) \<Longrightarrow>
      frame_typed base lts gts cap ts' t \<Longrightarrow>
      \<exists>u. st (int i) v t = Inr ((), u) \<and> frame_typed base lts gts cap ts' u"
  shows "\<exists>t. store_op cl (pop_value member) (\<lambda>i x. st i (inj_v x)) (pc, s)
    = Inr ((), (pc', t)) \<and> frame_typed base lts gts cap ts' t"
proof -
  have w: "0 \<le> sint w" "nat (sint w) < length vts" "vts ! nat (sint w) = kind" "ts = kind # ts'"
    using assms(1) by (cases ts; auto simp: store_type_def split: if_splits)+
  obtain x where x: "pop_value member s = Inr (x, popped s)"
    and t: "frame_typed base lts gts cap ts' (popped s)"
    using pop_typed [OF assms(2) [unfolded w(4)]] .
  have "slot_of (inj_v x) = Some (vts ! nat (sint w))"
    using w(3) kind_of_inj by simp
  from store [OF w(2) this t] obtain u where
    "st (sint w) (inj_v x) (popped s) = Inr ((), u)" "frame_typed base lts gts cap ts' u"
    using w(1) by auto
  then show ?thesis using x assms(3) by (simp add: store_op_def on_vm_def)
qed

lemma store_local_typed:
  assumes "store_type lts w kind ts = Some ts'" and "frame_typed base lts gts cap ts s"
    and "fetch_int cl (pc, s) = Inr (w, (pc', s))"
  shows "\<exists>t. store_op cl (pop_value member) (\<lambda>i x. write_stack (base + i) (inj_v x)) (pc, s)
    = Inr ((), (pc', t)) \<and> frame_typed base lts gts cap ts' t"
  using assms by (rule store_op_typed) (rule frame_typed_store_local)

lemma store_global_typed:
  assumes "store_type gts w kind ts = Some ts'" and "frame_typed base lts gts cap ts s"
    and "fetch_int cl (pc, s) = Inr (w, (pc', s))"
  shows "\<exists>t. store_op cl (pop_value member) (\<lambda>i x. store_global i (inj_v x)) (pc, s)
    = Inr ((), (pc', t)) \<and> frame_typed base lts gts cap ts' t"
  using assms by (rule store_op_typed) (rule frame_typed_store_global)

lemma load_local_ins:
  assumes "load_type lts w kind ts = Some ts'" and "length ts' \<le> cap"
    and "frame_typed base lts gts cap ts s" and "fetch_int cl (pc, s) = Inr (w, (pc', s))"
  shows "op_post base lts gts cap ts' pc'
    (load_op cl (\<lambda>i. load_local member (base + i)) (\<lambda>x. push_value (inj_v x)) (pc, s))"
  using load_op_typed [OF assms(4) _ assms(3), of "\<lambda>i. load_local member (base + i)"]
    load_local_typed [OF assms(1,3)] assms(2)
  by (auto intro: op_post_ex)

lemma load_global_ins:
  assumes "load_type gts w kind ts = Some ts'" and "length ts' \<le> cap"
    and "frame_typed base lts gts cap ts s" and "fetch_int cl (pc, s) = Inr (w, (pc', s))"
  shows "op_post base lts gts cap ts' pc'
    (load_op cl (load_global member) (\<lambda>x. push_value (inj_v x)) (pc, s))"
  using load_op_typed [OF assms(4) _ assms(3), of "load_global member"]
    load_global_typed [OF assms(1,3)] assms(2)
  by (auto intro: op_post_ex)

lemmas store_local_ins = op_post_ex [OF store_local_typed]
lemmas store_global_ins = op_post_ex [OF store_global_typed]

end

interpretation int_member: typed_member int_value IntV SInt
  by unfold_locales simp_all

interpretation float_member: typed_member float_value FloatV SFloat
  by unfold_locales simp_all

interpretation obj_member: typed_member obj_value ObjV SObj
  by unfold_locales simp_all

section \<open>One instruction\<close>

lemma fetch_int_at:
  assumes "drop n (mBody cl) = w # ws"
  shows "fetch_int cl (int n, s) = Inr (w, (int n + 1, s))"
proof -
  have "n < length (mBody cl)" "mBody cl ! n = w"
    using assms by (metis drop_all linorder_not_less list.distinct(1), metis assms nth_via_drop)
  then show ?thesis by (simp add: fetch_int_def read_int_def)
qed

lemma fetch_float_at:
  assumes "drop n (mBody cl) = lo # hi # ws"
  shows "fetch_float cl (int n, s) = Inr (u64_of_codes lo hi, (int n + 2, s))"
proof -
  have "drop (Suc n) (mBody cl) = hi # ws"
    using assms by (metis drop_Suc list.sel(3) tl_drop)
  then have "n < length (mBody cl)" "mBody cl ! n = lo" "Suc n < length (mBody cl)"
    "mBody cl ! Suc n = hi"
    using assms by (metis drop_all linorder_not_less list.distinct(1), metis assms nth_via_drop,
      metis drop_all linorder_not_less list.distinct(1), metis nth_via_drop)
  then show ?thesis
    by (simp add: fetch_float_def read_float_def nat_add_distrib)
qed

lemmas member_ops =
  push_INT_def [abs_def] push_FLOAT_def [abs_def] push_OBJPTR_def [abs_def] pop_INT_def pop_FLOAT_def pop_OBJPTR_def
  load_local_INT_def load_local_FLOAT_def load_local_OBJPTR_def
  load_global_INT_def load_global_FLOAT_def load_global_OBJPTR_def
  store_local_INT_def [abs_def] store_local_FLOAT_def [abs_def] store_local_OBJPTR_def [abs_def]
  store_global_INT_def [abs_def] store_global_FLOAT_def [abs_def] store_global_OBJPTR_def [abs_def]

lemma push_ins_typed:
  assumes "frame_typed base lts gts cap ts s" and "length ts < cap" and "slot_of v = Some k"
  shows "op_post base lts gts cap (k # ts) pc (on_vm (push_value v) (pc, s))"
  using frame_typed_push [OF assms] by (auto simp: op_post_def on_vm_def)

lemma exec_op_mem:
  "decode_op code = Some op \<Longrightarrow> exec_mem_op cl base op = Some m \<Longrightarrow>
    exec_op cl base code = st_bind m (\<lambda>_. st_ret None)"
  by (simp add: exec_op_def)

lemma op_post_exec_op_mem:
  assumes "decode_op code = Some op" and "exec_mem_op cl base op = Some m"
    and "op_post base lts gts cap ts q (m (pc, s))"
  shows "op_post base lts gts cap ts q (exec_op cl base code (pc, s)) \<and>
    (\<forall>f t. exec_op cl base code (pc, s) = Inr (f, t) \<longrightarrow> f = None)"
  using assms by (cases "m (pc, s)") (auto simp: exec_op_mem op_post_def)

lemmas mem_ins =
  int_member.load_local_ins float_member.load_local_ins obj_member.load_local_ins
  int_member.load_global_ins float_member.load_global_ins obj_member.load_global_ins
  int_member.store_local_ins float_member.store_local_ins obj_member.store_local_ins
  int_member.store_global_ins float_member.store_global_ins obj_member.store_global_ins

lemma mem_op_typed:
  assumes "exec_mem_op cl base op = Some m"
    and "check_op lts gts op (hd (ws @ [0])) ts = Some ts'" and "length ts' \<le> cap"
    and "frame_typed base lts gts cap ts s"
    and "drop n (mBody cl) = ws" and "op_words op \<le> length ws"
  shows "op_post base lts gts cap ts' (int (n + op_words op)) (m (int n, s))"
proof -
  show ?thesis
  proof (cases "op_words op")
    case 0
    then show ?thesis using assms
      by (cases op) (auto simp: op_words_def exec_mem_op_def check_op_def member_ops
          intro!: push_ins_typed split: if_splits)
  next
    case (Suc k)
    then obtain w ws' where ws: "ws = w # ws'" using assms(6) by (cases ws) auto
    note fi = fetch_int_at [OF assms(5) [unfolded ws], of s]
    show ?thesis
    proof (cases "op = VSM_PUSH_FLOAT_IMM")
      case True
      then obtain hi ws'' where "ws = w # hi # ws''"
        using assms(6) ws by (cases ws') (auto simp: op_words_def)
      then have "fetch_float cl (int n, s) = Inr (u64_of_codes w hi, (int n + 2, s))"
        using assms(5) by (auto intro: fetch_float_at)
      then show ?thesis
        using True assms push_ins_typed [OF assms(4), of "FloatV (u64_of_codes w hi)" SFloat "int n + 2"]
        by (auto simp: op_words_def exec_mem_op_def check_op_def member_ops add.commute)
    next
      case False
      then have q: "int (n + op_words op) = int n + 1"
        using Suc by (auto simp: op_words_def split: if_splits)
      have w: "hd (ws @ [0]) = w" by (simp add: ws)
      show ?thesis
        unfolding q using assms(1-4) Suc False fi unfolding w
        by (cases op)
          (simp_all add: op_words_def exec_mem_op_def check_op_def member_ops,
            auto intro!: mem_ins push_ins_typed)
    qed
  qed
qed

lemma value_op_words: "exec_value_op op = Some m \<Longrightarrow> op_words op = 0"
  by (cases op) (simp_all add: exec_value_op_defs op_words_def)

lemma op_groups:
  assumes "check_op lts gts op w ts = Some ts'"
  shows "(\<exists>m. exec_mem_op cl base op = Some m) \<or>
    (exec_mem_op cl base op = None \<and> (\<exists>m ins out. exec_value_op op = Some m \<and>
      op_effect op = Some (ins, out) \<and> take (length ins) ts = ins \<and>
      ts' = out # drop (length ins) ts)) \<or>
    op \<in> {VSM_NOP, VSM_RETURN, VSM_HALT} \<and> ts' = ts"
  using assms
  by (cases op)
    (auto simp: check_op_def exec_mem_op_def exec_value_op_defs op_effect_def split: if_splits)

lemma op_typed:
  assumes "decode_op code = Some op"
    and "check_op lts gts op (hd (ws @ [0])) ts = Some ts'" and "length ts' \<le> cap"
    and "frame_typed base lts gts cap ts s"
    and "drop n (mBody cl) = ws" and "op_words op \<le> length ws"
  shows "op_post base lts gts cap ts' (int (n + op_words op)) (exec_op cl base code (int n, s)) \<and>
    (\<forall>f t. exec_op cl base code (int n, s) = Inr (f, t) \<longrightarrow> f = None)"
  using op_groups [OF assms(2), of cl base]
proof (elim disjE)
  assume "\<exists>m. exec_mem_op cl base op = Some m"
  then obtain m where m: "exec_mem_op cl base op = Some m" ..
  show ?thesis
    by (rule op_post_exec_op_mem [OF assms(1) m mem_op_typed [OF m assms(2-6)]])
next
  assume "exec_mem_op cl base op = None \<and> (\<exists>m ins out. exec_value_op op = Some m \<and>
      op_effect op = Some (ins, out) \<and> take (length ins) ts = ins \<and>
      ts' = out # drop (length ins) ts)"
  then obtain m ins out where v: "exec_mem_op cl base op = None" "exec_value_op op = Some m"
    "op_effect op = Some (ins, out)" "take (length ins) ts = ins"
    "ts' = out # drop (length ins) ts" by blast
  have x: "exec_op cl base code = st_bind (on_vm m) (\<lambda>_. st_ret None)"
    using assms(1) v(1,2) by (simp add: exec_op_def)
  show ?thesis
    using frame_typed_value_op [OF assms(4) v(2-4)] v(5) value_op_words [OF v(2)]
    by (cases "m s") (auto simp: x op_post_def on_vm_def st_bind_def)
next
  assume "op \<in> {VSM_NOP, VSM_RETURN, VSM_HALT} \<and> ts' = ts"
  then show ?thesis
    using assms(1,4)
    by (auto simp: exec_op_def exec_mem_op_def exec_value_op_defs exec_control_op_def
        op_post_def op_words_def)
qed

section \<open>Soundness of the checker\<close>

lemma exec_unknown_op: "decode_op code = None \<Longrightarrow> exec_op cl base code = st_ret None"
  by (simp add: exec_op_def)

definition run_post ::
  "int \<Rightarrow> slot list \<Rightarrow> slot list \<Rightarrow> nat \<Rightarrow> slot list \<Rightarrow> vsm res option \<Rightarrow> bool" where
  "run_post base lts gts cap ts r =
     (case r of
        None \<Rightarrow> False
      | Some (Inl e) \<Rightarrow> e \<in> arith_faults
      | Some (Inr t) \<Rightarrow> frame_typed base lts gts cap ts t)"

lemma fetch_opcode_at:
  assumes "drop n (mBody cl) = c # ws"
  shows "fetch_opcode cl (int n, s) = Inr (c, (int n + 1, s))"
  using fetch_int_at [OF assms] by (simp add: fetch_opcode_def fetch_int_def read_opcode_def read_int_def)

lemma exec_from_done: "\<not> pc < code_size cl \<Longrightarrow> exec_from (Suc n) cl base pc s = Some (Inr s)"
  by simp

lemma exec_from_step:
  assumes "pc < code_size cl" and "fetch_opcode cl (pc, s) = Inr (c, (pc', s))"
    and "exec_op cl base c (pc', s) = Inr (None, (q, t))"
  shows "exec_from (Suc n) cl base pc s = exec_from n cl base q t"
  using assms by simp

lemma exec_from_step_fault:
  assumes "pc < code_size cl" and "fetch_opcode cl (pc, s) = Inr (c, (pc', s))"
    and "exec_op cl base c (pc', s) = Inl e"
  shows "exec_from (Suc n) cl base pc s = Some (Inl e)"
  using assms by simp

lemma check_code_sound:
  assumes "code_size cl = int (length (mBody cl))"
    and "check_code cap lts gts ws ts = Some ts'" and "drop n (mBody cl) = ws"
    and "n \<le> length (mBody cl)"
    and "frame_typed base lts gts cap ts s" and "length ws < fuel"
  shows "run_post base lts gts cap ts' (exec_from fuel cl base (int n) s)"
  using assms(2-)
proof (induction cap lts gts ws ts arbitrary: n s fuel rule: check_code.induct)
  case (1 cap lts gts ts)
  then obtain k where "fuel = Suc k" by (cases fuel) auto
  with 1 assms(1) show ?case by (simp add: run_post_def)
next
  case (2 cap lts gts c cs ts)
  from 2(7) obtain k where k: "fuel = Suc k" "length cs < k" by (cases fuel) auto
  have len: "n < length (mBody cl)" and cs: "drop (Suc n) (mBody cl) = cs"
    using 2(4) by (metis drop_all linorder_not_less list.distinct(1), metis drop_Suc list.sel(3) tl_drop)
  have lt: "int n < code_size cl" using len assms(1) by simp
  note fetch = fetch_opcode_at [OF 2(4), of s]
  show ?case
  proof (cases "decode_op c")
    case None
    have "exec_from fuel cl base (int n) s = exec_from k cl base (int (Suc n)) s"
      using exec_from_step [OF lt fetch, of base "int n + 1" s k] k(1) None
      by (simp add: exec_unknown_op add.commute)
    moreover have "run_post base lts gts cap ts' (exec_from k cl base (int (Suc n)) s)"
      using 2(1) [OF None _ cs _ 2(6)] 2(3) None len k(2) by simp
    ultimately show ?thesis by simp
  next
    case (Some op)
    then obtain ts1 where c: "op_words op \<le> length cs" "check_op lts gts op (hd (cs @ [0])) ts = Some ts1"
      "length ts1 \<le> cap" "check_code cap lts gts (drop (op_words op) cs) ts1 = Some ts'"
      using 2(3) by (auto split: if_splits option.splits)
    let ?q = "Suc n + op_words op"
    have t: "op_post base lts gts cap ts1 (int ?q) (exec_op cl base c (int (Suc n), s))"
      "\<And>f t. exec_op cl base c (int (Suc n), s) = Inr (f, t) \<Longrightarrow> f = None"
      using op_typed [OF Some c(2,3) 2(6) cs c(1)] by auto
    have e: "int n + 1 = int (Suc n)" by simp
    show ?thesis
    proof (cases "exec_op cl base c (int (Suc n), s)")
      case (Inl err)
      then show ?thesis
        using exec_from_step_fault [OF lt fetch, of base err k] t(1) k(1)
        unfolding e by (simp add: op_post_def run_post_def)
    next
      case (Inr r)
      then obtain t' where r: "exec_op cl base c (int (Suc n), s) = Inr (None, (int ?q, t'))"
        and f: "frame_typed base lts gts cap ts1 t'"
        using t by (cases r) (auto simp: op_post_def)
      have "run_post base lts gts cap ts' (exec_from k cl base (int ?q) t')"
      proof (rule 2(2) [OF Some _ c(2,3,4) _ _ f])
        show "\<not> length cs < op_words op" using c(1) by simp
        show "drop ?q (mBody cl) = drop (op_words op) cs"
          using cs by (metis add.commute drop_drop)
        show "?q \<le> length (mBody cl)" using c(1) cs len by auto
        show "length (drop (op_words op) cs) < k" using k(2) by simp
      qed
      then show ?thesis
        using exec_from_step [OF lt fetch, of base "int ?q" t' k] r k(1) unfolding e by simp
    qed
  qed
qed

text \<open>
  C1: Soundness of the bytecode checker: code that it accepts for the kinds of the globals, of the
  local variables and of the operands, run by the fetch loop on a machine of those kinds with
  room for the checked depth, returns after at most one step per code word. It never leaves the
  code, the stack array or the heap and never reads a wrong union member: it ends in a machine
  of the computed kinds or stops at an arithmetic fault.
\<close>

theorem checked_code_runs:
  assumes "VsmCodeList_new b = Inr cl" and "length (bBody b) < 2 ^ 31"
    and "check_code cap lts gts (bBody b) ts = Some ts'"
    and "frame_typed base lts gts cap ts s" and "length (bBody b) < fuel"
  shows "run_post base lts gts cap ts' (execute fuel cl base s)"
proof -
  have cl: "cl = \<lparr>mSize = of_nat (length (bBody b)), mBody = bBody b\<rparr>"
    using assms(1) VsmCodeList_new_copies [OF assms(2)] by simp
  then have "code_size cl = int (length (mBody cl))"
    using assms(2) by (simp add: code_size_def sint_of_nat_i32)
  from check_code_sound [OF this, of cap lts gts "bBody b" ts ts' 0 base s fuel] cl assms(3-5)
  show ?thesis by (simp add: execute_def)
qed

section \<open>The properties at concrete inputs\<close>

text \<open>\<^verbatim>\<open>3 + 5\<close> on a machine with four stack slots.\<close>

definition sum_vm :: "int \<Rightarrow> vsm" where
  "sum_vm n = Vsm_new\<lparr>mLocalStack := [IntV 3, IntV 5, UninitV, UninitV], mSP := n\<rparr>"

lemma value_op_type_safe_witness:
  "op_result (length [SInt, SInt]) SInt (sum_vm 2) (bin_INT c_add (sum_vm 2))"
  by (rule value_op_type_safe [of VSM_INT_ADD])
    (simp_all add: exec_value_op_defs op_effect_def sum_vm_def Vsm_new_def stack_ok_def
      abs_stack_def)

definition sum_code :: builder where
  "sum_code = \<lparr>bBody = [1, 3, 1, 5, 24]\<rparr>"

lemma checked_code_runs_witness:
  "run_post 0 [] [] 2 [SInt]
    (execute 6 \<lparr>mSize = 5, mBody = [1, 3, 1, 5, 24]\<rparr> 0 (sum_vm 0))"
proof (rule checked_code_runs [of sum_code])
  show "VsmCodeList_new sum_code = Inr \<lparr>mSize = 5, mBody = [1, 3, 1, 5, 24]\<rparr>"
    by (subst VsmCodeList_new_copies) (simp_all add: sum_code_def)
  show "length (bBody sum_code) < 2 ^ 31" "length (bBody sum_code) < 6"
    by (simp_all add: sum_code_def)
  show "check_code 2 [] [] (bBody sum_code) [] = Some [SInt]"
    by (simp add: sum_code_def decode_op_def vsm_opcodes_def op_words_def check_op_def op_effect_def)
  show "frame_typed 0 [] [] 2 [] (sum_vm 0)"
    by (simp add: frame_typed_def sum_vm_def Vsm_new_def stack_ok_def abs_stack_def)
qed

end
