(* ===== verification/Vsm_Run.thy ===== *)
theory Vsm_Run
  imports Vsm_Typing
begin

text \<open>
  What whole runs of \<^verbatim>\<open>Vsm::execute\<close> do: fuel, control transfers, calls and the state the
  constructor leaves.
\<close>

section \<open>Fuel\<close>

declare exec_from.simps(2) [simp del]

lemma exec_from_Suc:
  "exec_from n cl base pc s = Some r \<Longrightarrow> exec_from (Suc n) cl base pc s = Some r"
proof (induction n arbitrary: cl base pc s r)
  case 0
  then show ?case by simp
next
  case (Suc n)
  note prem = Suc.prems [unfolded exec_from.simps(2)] and IH = Suc.IH
  show ?case
  proof (cases "st_bind (fetch_opcode cl) (exec_op cl base) (pc, s)")
    case (Inl e)
    then show ?thesis using prem by (simp add: exec_from.simps(2) split: if_splits)
  next
    case (Inr x)
    obtain f pc' s' where x: "x = (f, (pc', s'))" by (cases x) auto
    consider (none) "f = None" | (native) a b body where "f = Some (NativeFunc a b body)"
      | (builtin) a b k body where "f = Some (BuiltinFunc a b k body)"
      by (cases f) (auto, metis vsm_func.exhaust)
    then show ?thesis
    proof cases
      case none
      then show ?thesis
        using prem Inr x IH [of cl base pc' s' r]
        by (subst exec_from.simps(2)) (auto split: if_splits)
    next
      case native
      then show ?thesis
        using prem Inr x IH [of body "mSP s'" 0 s'] IH [of cl base pc' _ r]
        by (subst exec_from.simps(2)) (auto split: if_splits option.splits sum.splits)
    next
      case builtin
      then show ?thesis
        using prem Inr x IH [of cl base pc' _ r]
        by (subst exec_from.simps(2)) (auto split: if_splits sum.splits)
    qed
  qed
qed

text \<open>
  The fuel of the model is no part of the behaviour: a run that returns with some fuel returns
  the same with every larger amount.
\<close>

theorem execute_fuel_mono:
  assumes "execute n cl base s = Some r" and "n \<le> m"
  shows "execute m cl base s = Some r"
  using assms(2,1)
  by (induction m rule: dec_induct) (simp_all add: execute_def exec_from_Suc)

section \<open>Control transfers\<close>

text \<open>
  C39: A conditional branch pops its condition and ignores it: the true branch always jumps and the
  false branch never does, whatever value was on the stack, because the code tests the opcode
  it fetched.
\<close>

theorem branches_ignore_condition:
  assumes "fetch_int cl (pc, s) = Inr (addr, (pc', s))" and "pop_INT s = Inr (cond, t)"
    and "decode_op code = Some VSM_BRANCH_TRUE" and "decode_op code' = Some VSM_BRANCH_FALSE"
  shows "exec_op cl base code (pc, s) = Inr (None, (sint addr, t)) \<and>
    exec_op cl base code' (pc, s) = Inr (None, (pc', t))"
proof -
  have "code \<noteq> 0" "code' \<noteq> 0"
    using assms(3,4) by (auto simp: decode_op_def vsm_opcodes_def)
  then show ?thesis
    using assms
    by (simp add: exec_op_def exec_mem_op_def exec_value_op_defs exec_control_op_def on_vm_def
        set_pc_def)
qed

lemma exec_noop:
  assumes "decode_op code = Some op" and "op \<in> {VSM_RETURN, VSM_HALT, VSM_NOP}"
  shows "exec_op cl base code st = Inr (None, st)"
  using assms
  by (auto simp: exec_op_def exec_mem_op_def exec_value_op_defs exec_control_op_def)

text \<open>
  \<^verbatim>\<open>VSM_HALT\<close> and \<^verbatim>\<open>VSM_RETURN\<close> stop nothing: a run that reaches one of them goes on with the
  next code word in the same state.
\<close>

theorem halt_continues:
  assumes "pc < code_size cl" and "fetch_opcode cl (pc, s) = Inr (code, (pc', s))"
    and "decode_op code = Some op" and "op \<in> {VSM_RETURN, VSM_HALT}"
  shows "exec_from (Suc n) cl base pc s = exec_from n cl base (pc + 1) s"
proof -
  have "pc' = pc + 1"
    using assms(2) by (auto simp: fetch_opcode_def read_opcode_def)
  moreover have "exec_op cl base code (pc', s) = Inr (None, (pc', s))"
    using assms(3,4) by (intro exec_noop) auto
  ultimately show ?thesis
    using exec_from_step [OF assms(1,2)] by simp
qed

text \<open>The code of \<^verbatim>\<open>while ( c ) { }\<close> on a constant condition.\<close>

definition spin_code :: "i32 \<Rightarrow> builder" where
  "spin_code c =
     write_int 0 (write_opcode 74 (write_int c (write_opcode 1 Builder_new)))"

definition spin_list :: "i32 \<Rightarrow> code_list" where
  "spin_list c = \<lparr>mSize = 4, mBody = [1, c, 74, 0]\<rparr>"

lemma spin_new: "VsmCodeList_new (spin_code c) = Inr (spin_list c)"
  by (subst VsmCodeList_new_copies)
    (simp_all add: spin_code_def spin_list_def Builder_new_def write_int_def write_opcode_def)

lemma decode_spin:
  "decode_op 1 = Some VSM_PUSH_INT_IMM" "decode_op 74 = Some VSM_BRANCH_TRUE"
  by (simp_all add: decode_op_def vsm_opcodes_def)

lemma spin_round:
  assumes "stack_ok s" and "0 < room s"
  shows "\<exists>t. exec_from (Suc (Suc n)) (spin_list c) base 0 s = exec_from n (spin_list c) base 0 t \<and>
    stack_ok t \<and> 0 < room t"
proof -
  let ?cl = "spin_list c" and ?u = "pushed (IntV c) s"
  have size: "code_size ?cl = 4" by (simp add: code_size_def spin_list_def)
  have f: "fetch_opcode ?cl (0, s) = Inr (1, (1, s))" "fetch_opcode ?cl (2, ?u) = Inr (74, (3, ?u))"
    "fetch_int ?cl (1, s) = Inr (c, (2, s))" "fetch_int ?cl (3, ?u) = Inr (0, (4, ?u))"
    by (simp_all add: spin_list_def fetch_opcode_def fetch_int_def read_opcode_def read_int_def
        arr_get_def)
  have push: "exec_op ?cl base 1 (1, s) = Inr (None, (2, ?u))"
    using f(3) assms
    by (simp add: exec_op_def decode_spin exec_mem_op_def on_vm_def push_INT_def push_value_ok)
  have u: "stack_ok ?u" "abs_stack ?u = IntV c # abs_stack s"
    using assms by (simp_all add: stack_ok_pushed abs_stack_pushed)
  then have pop: "pop_INT ?u = Inr (c, popped ?u)"
    by (rule int_stack.pop_law)
  have br: "exec_op ?cl base 74 (3, ?u) = Inr (None, (0, popped ?u))"
    using f(4) pop
    by (simp add: exec_op_def decode_spin exec_mem_op_def exec_value_op_defs exec_control_op_def
        on_vm_def set_pc_def)
  have "exec_from (Suc (Suc n)) ?cl base 0 s = exec_from (Suc n) ?cl base 2 ?u"
    by (rule exec_from_step [OF _ f(1) push]) (simp add: size)
  also have "\<dots> = exec_from n ?cl base 0 (popped ?u)"
    by (rule exec_from_step [OF _ f(2) br]) (simp add: size)
  finally have "exec_from (Suc (Suc n)) ?cl base 0 s = exec_from n ?cl base 0 (popped ?u)" .
  then show ?thesis
    using int_stack_popped [OF u] by (intro exI [of _ "popped ?u"]) simp
qed

text \<open>
  The loop \<^verbatim>\<open>while ( c )\<close> never ends on this machine, even for the condition 0: no amount of fuel
  makes the run return.
\<close>

theorem spin_diverges:
  assumes "stack_ok s" and "0 < room s" and "VsmCodeList_new (spin_code c) = Inr cl"
  shows "execute fuel cl base s = None"
proof -
  have "exec_from fuel (spin_list c) base 0 s = None"
    using assms(1,2)
  proof (induction fuel arbitrary: s rule: less_induct)
    case (less fuel)
    show ?case
    proof (cases "fuel < 2")
      case True
      then consider "fuel = 0" | "fuel = Suc 0" by linarith
      then show ?thesis
      proof cases
        case 2
        show ?thesis
          using exec_from_Suc [of 1 "spin_list c" base 0 s] spin_round [OF less.prems, of 0 c base]
          by (cases "exec_from 1 (spin_list c) base 0 s") (auto simp: 2)
      qed simp
    next
      case False
      then obtain n where n: "fuel = Suc (Suc n)"
        by (metis add_2_eq_Suc le_Suc_ex linorder_not_less)
      then show ?thesis
        using spin_round [OF less.prems, of n c base] less.IH [of n] by auto
    qed
  qed
  then show ?thesis using assms(3) spin_new by (simp add: execute_def)
qed

section \<open>Calls of built-in functions\<close>

lemma read_args_ok:
  "0 \<le> base \<Longrightarrow> base + int n \<le> int (length (mLocalStack s)) \<Longrightarrow>
    read_args base n s = Inr (take n (drop (nat base) (mLocalStack s)), s)"
  by (induction n) (simp_all add: read_stack_def take_Suc_conv_app_nth nat_add_distrib)

lemma exec_call:
  assumes "decode_op code = Some VSM_CALL" and "fetch_int cl (pc, s) = Inr (index, (pc', s))"
    and "0 \<le> sint index" and "sint index < int (length (mFuncTable s))"
  shows "exec_op cl base code (pc, s) = Inr (Some (mFuncTable s ! nat (sint index)), (pc', s))"
  using assms
  by (simp add: exec_op_def exec_mem_op_def exec_value_op_defs exec_control_op_def lookup_func_def
      assert_cond_def arr_get_def)

lemma exec_builtin_ok:
  assumes "stack_ok s" and "0 < room s" and "k \<le> room s"
    and "body (take k (drop (nat (mSP s)) (mLocalStack s))) = Inr (ret, txt)"
  shows "exec_builtin k body (mSP s) s =
    Inr ((), s\<lparr>mLocalStack := (mLocalStack s)[nat (mSP s) := ret], vOut := vOut s @ txt\<rparr>)"
proof -
  have "0 \<le> mSP s" "mSP s < int (length (mLocalStack s))"
    "mSP s + int k \<le> int (length (mLocalStack s))"
    using assms(1-3) by (auto simp: stack_ok_def room_def)
  then show ?thesis
    using assms(4) by (simp add: exec_builtin_def read_args_ok write_stack_def)
qed

text \<open>
  C40: A call instruction on a built-in function of \<open>k\<close> arguments hands the function the \<open>k\<close> array
  slots from the stack pointer upwards, which are above the top of the stack, and writes the value
  to the slot of the stack pointer. The run goes on after the instruction with the same stack and
  stack pointer: the operands are neither read nor popped and the value is not pushed.
\<close>

theorem builtin_call_outside_stack:
  assumes "pc < code_size cl" and "fetch_opcode cl (pc, s) = Inr (code, (pc1, s))"
    and "decode_op code = Some VSM_CALL" and "fetch_int cl (pc1, s) = Inr (index, (pc2, s))"
    and "0 \<le> sint index" and "sint index < int (length (mFuncTable s))"
    and "mFuncTable s ! nat (sint index) = BuiltinFunc name type k body"
    and "stack_ok s" and "0 < room s" and "k \<le> room s"
    and "body (take k (drop (nat (mSP s)) (mLocalStack s))) = Inr (ret, txt)"
  shows "\<exists>t. exec_from (Suc n) cl base pc s = exec_from n cl base pc2 t \<and>
    abs_stack t = abs_stack s \<and> mSP t = mSP s \<and> mLocalStack t ! nat (mSP s) = ret \<and>
    vOut t = vOut s @ txt"
proof -
  let ?t = "s\<lparr>mLocalStack := (mLocalStack s)[nat (mSP s) := ret], vOut := vOut s @ txt\<rparr>"
  have sp: "0 \<le> mSP s" "mSP s < int (length (mLocalStack s))"
    using assms(8,9) by (auto simp: stack_ok_def room_def)
  have "exec_from (Suc n) cl base pc s = exec_from n cl base pc2 ?t"
    using assms(1,2,7) exec_call [OF assms(3-6), of base] exec_builtin_ok [of s k body ret "txt", OF assms(8-11)]
    by (subst exec_from.simps(2)) (simp add: st_bind_def)
  then show ?thesis using sp by (intro exI [of _ ?t]) (simp add: abs_stack_def)
qed

section \<open>Instructions that cannot succeed\<close>

definition always_faults :: "'a vm \<Rightarrow> bool" where
  "always_faults m \<longleftrightarrow> (\<forall>s. \<exists>e. m s = Inl e)"

lemma always_faults_lift: "always_faults (st_lift (Inl e))"
  by (simp add: always_faults_def)

lemma always_faults_bind: "(\<And>x. always_faults (f x)) \<Longrightarrow> always_faults (st_bind m f)"
  unfolding always_faults_def st_bind_def res_bind_def by (auto split: sum.splits)

lemmas always_faults_rules = always_faults_bind always_faults_lift

text \<open>
  Every arithmetic, logical and conversion opcode on objects fails: it pops its operands and
  then pushes a local variable that was never assigned.
\<close>

theorem obj_ops_fail:
  assumes "exec_value_op op = Some m" and "op_effect op = None"
  shows "\<exists>e. m s = Inl e"
proof -
  have "always_faults un_OBJ" "always_faults bin_OBJ" "always_faults shift_OBJ"
    unfolding un_OBJ_def bin_OBJ_def shift_OBJ_def by (intro always_faults_rules)+
  then have "always_faults m"
    using assms
    by (cases op)
      (auto simp: exec_value_op_defs op_effect_def intro!: always_faults_rules)
  then show ?thesis by (simp add: always_faults_def)
qed

section \<open>The state the constructor leaves\<close>

lemma arr_get_Nil [simp]: "arr_get [] i = Inl OutOfBounds"
  by (simp add: arr_get_def)

lemma Vsm_new_push [simp]: "push_value v Vsm_new = Inl OutOfBounds"
  by (simp add: push_value_def Vsm_new_def arr_set_def)

lemma Vsm_new_pop [simp]: "pop_value mem Vsm_new = Inl OutOfBounds"
  by (simp add: pop_value_def Vsm_new_def arr_get_def)

lemma Vsm_new_load [simp]:
  "load_global mem i Vsm_new = Inl OutOfBounds" "load_local mem i Vsm_new = Inl OutOfBounds"
  by (simp_all add: load_global_def load_local_def Vsm_new_def)
















section \<open>The properties at concrete inputs\<close>

text \<open>A machine with four stack slots and two operands.\<close>

definition demo_vm :: vsm where
  "demo_vm = Vsm_new\<lparr>mLocalStack := [IntV 3, IntV 5, UninitV, UninitV], mSP := 2\<rparr>"

lemma demo_vm_ok: "stack_ok demo_vm" "abs_stack demo_vm = [IntV 5, IntV 3]" "room demo_vm = 2"
  by (simp_all add: demo_vm_def Vsm_new_def stack_ok_def abs_stack_def room_def)

lemma execute_fuel_mono_witness: "execute 7 \<lparr>mSize = 0, mBody = []\<rparr> 0 demo_vm = Some (Inr demo_vm)"
  by (rule execute_fuel_mono [of 1]) (simp_all add: execute_def exec_from.simps(2) code_size_def)

definition branch_list :: code_list where
  "branch_list = \<lparr>mSize = 2, mBody = [74, 9]\<rparr>"

lemma branches_ignore_condition_witness:
  "exec_op branch_list 0 74 (1, demo_vm) = Inr (None, (9, popped demo_vm)) \<and>
   exec_op branch_list 0 75 (1, demo_vm) = Inr (None, (2, popped demo_vm))"
proof -
  have "fetch_int branch_list (1, demo_vm) = Inr (9, (2, demo_vm))"
    by (simp add: branch_list_def fetch_int_def read_int_def arr_get_def)
  moreover have "pop_INT demo_vm = Inr (5, popped demo_vm)"
    by (rule int_stack.pop_law) (simp_all add: demo_vm_ok)
  ultimately show ?thesis
    using branches_ignore_condition [of branch_list 1 demo_vm 9 2 5 "popped demo_vm" 74 75 0]
    by (simp add: decode_op_def vsm_opcodes_def)
qed

lemma halt_continues_witness:
  "exec_from (Suc 2) \<lparr>mSize = 1, mBody = [79]\<rparr> 0 0 demo_vm
    = exec_from 2 \<lparr>mSize = 1, mBody = [79]\<rparr> 0 (0 + 1) demo_vm"
  by (rule halt_continues [of 0 _ demo_vm 79 1 VSM_HALT])
    (simp_all add: code_size_def fetch_opcode_def read_opcode_def arr_get_def decode_op_def
      vsm_opcodes_def)

lemma spin_diverges_witness: "execute 1000 (spin_list 0) 0 demo_vm = None"
  by (rule spin_diverges [of demo_vm 0]) (simp_all add: demo_vm_ok spin_new)

text \<open>The call of function 0, which returns 7 and prints it, with the operands 5 and 3 on the stack.\<close>

definition call_vm :: vsm where
  "call_vm = demo_vm\<lparr>mFuncTable := [BuiltinFunc ''seven'' (Some 0) 1 (\<lambda>xs. Inr (IntV 7, ''7''))]\<rparr>"

definition call_list :: code_list where
  "call_list = \<lparr>mSize = 2, mBody = [76, 0]\<rparr>"

lemma builtin_call_outside_stack_witness:
  "\<exists>t. exec_from (Suc 4) call_list 0 0 call_vm = exec_from 4 call_list 0 2 t \<and>
    abs_stack t = [IntV 5, IntV 3] \<and> mSP t = 2 \<and> mLocalStack t ! 2 = IntV 7 \<and> vOut t = ''7''"
proof -
  have vm: "stack_ok call_vm" "abs_stack call_vm = [IntV 5, IntV 3]" "Vsm_State.room call_vm = 2"
    "mSP call_vm = 2" "vOut call_vm = []" "length (mFuncTable call_vm) = 1"
    "mFuncTable call_vm ! 0 = BuiltinFunc ''seven'' (Some 0) 1 (\<lambda>xs. Inr (IntV 7, ''7''))"
    using demo_vm_ok by (simp_all add: call_vm_def demo_vm_def Vsm_new_def stack_ok_def abs_stack_def
        Vsm_State.room_def)
  have "fetch_opcode call_list (0, call_vm) = Inr (76, (1, call_vm))"
    "fetch_int call_list (1, call_vm) = Inr (0, (2, call_vm))" "(0::int) < code_size call_list"
    by (simp_all add: call_list_def fetch_opcode_def fetch_int_def read_opcode_def read_int_def
        arr_get_def code_size_def)
  moreover have "decode_op 76 = Some VSM_CALL" by (simp add: decode_op_def vsm_opcodes_def)
  ultimately show ?thesis
    using builtin_call_outside_stack [of 0 call_list call_vm 76 1 0 2 "''seven''" "Some 0" 1
        "\<lambda>xs. Inr (IntV 7, ''7'')" "IntV 7" "''7''" 4 0] vm
    by simp
qed

lemma obj_ops_fail_witness: "\<exists>e. un_OBJ demo_vm = Inl e"
  by (rule obj_ops_fail [of VSM_OBJ_NOT])
    (simp_all add: exec_value_op_defs op_effect_def)


end
