(* ===== verification/Ymsl_Hash.thy ===== *)
theory Ymsl_Hash
  imports Ymsl_Prelude "HOL-Library.Multiset"
begin

text \<open>
  What the two chained hash tables of the compiler share (\<^verbatim>\<open>TypeMgr\<close> and \<^verbatim>\<open>Scope\<close>): unsigned
  remainder, the load limit, the content of a table as a multiset, and the word arithmetic of
  doubling a table.
\<close>

definition u_mod :: "u32 \<Rightarrow> u32 \<Rightarrow> u32 res" where
  "u_mod a b = (if b = 0 then Inl DivByZero else Inr (a mod b))"

text \<open>\<^verbatim>\<open>static_cast<ymuint>(size * 1.8)\<close>; the sizes are powers of two, where the product is exact enough
  for the cast to give \<open>9 size / 5\<close> rounded down.\<close>

definition next_limit :: "u32 \<Rightarrow> u32 res" where
  "next_limit sz =
     (if unat sz * 9 div 5 < 2 ^ 32 then Inr (of_nat (unat sz * 9 div 5))
      else Inl BadConversion)"

lemma mset_concat_update:
  "i < length tbl \<Longrightarrow> mset (concat (tbl[i := x # tbl ! i])) = add_mset x (mset (concat tbl))"
proof (induction tbl arbitrary: i)
  case Nil
  then show ?case by simp
next
  case (Cons c cs)
  then show ?case by (cases i) simp_all
qed

lemma u_mod_less: "u_mod a b = Inr h \<Longrightarrow> unat h < unat b"
  by (auto simp: u_mod_def unat_mod word_eq_iff_unsigned split: if_splits)
    (metis gr0I mod_less_divisor unat_eq_zero)

lemma concat_replicate_Nil [simp]: "concat (replicate n []) = []"
  by (induction n) simp_all

lemma next_limit_double:
  assumes "next_limit sz = Inr limit" and "unat limit < 2 ^ 30" and "sz \<noteq> 0"
  shows "unat (sz * 2) = unat sz * 2" and "\<exists>l. next_limit (sz * 2) = Inr l" and "sz * 2 \<noteq> 0"
proof -
  have l: "unat sz * 9 div 5 < 2 ^ 32" "limit = of_nat (unat sz * 9 div 5)"
    using assms(1) by (auto simp: next_limit_def split: if_splits)
  then have "unat limit = unat sz * 9 div 5"
    by (simp add: unat_of_nat)
  then have sz: "unat sz * 9 < 2 ^ 30 * 5" using assms(2) by (simp add: div_less_iff_less_mult)
  then have small: "unat sz * 2 < 2 ^ 32" by simp
  have "unat (sz * 2) = unat sz * unat (2 :: u32) mod 2 ^ 32"
    by (simp add: unat_word_ariths)
  then show u: "unat (sz * 2) = unat sz * 2"
    using small by simp
  have "unat sz * 2 * 9 div 5 < 2 ^ 32" using sz by (simp add: div_less_iff_less_mult)
  then show "\<exists>l. next_limit (sz * 2) = Inr l"
    using u by (simp add: next_limit_def)
  show "sz * 2 \<noteq> 0"
    using u assms(3) by (metis mult_eq_0_iff unat_eq_zero unat_0 zero_neq_numeral)
qed

end
