(* ===== verification/Type_Mgr.thy ===== *)
theory Type_Mgr
  imports Ymsl_Hash
begin

text \<open>
  Types and the type manager (\<^verbatim>\<open>include/Type.h\<close>, \<^verbatim>\<open>include/TypeMgr.h\<close>, \<^verbatim>\<open>src/compiler/TypeMgr.cc\<close> and
  the classes of types beside it). The manager owns every type, gives it the next number and keeps
  the structural types in a hash table, so that a structure exists once. A \<^verbatim>\<open>const Type*\<close> is the
  number of the type, \<^verbatim>\<open>NULL\<close> is \<open>None\<close>.
\<close>

section \<open>Types\<close>

datatype type_id =
    kVoidType | kBooleanType | kIntType | kFloatType | kStringType | kArrayType | kSetType
  | kMapType | kFuncType | kNamedType | kEnumType | kClassType | kUserDefType

datatype ty =
    PrimTy type_id
  | ArrayTy nat
  | SetTy nat
  | MapTy nat nat
  | FuncTy nat "nat list"
  | EnumTy string "(string \<times> i32) list"

type_synonym tptr = "nat option"

fun ty_id :: "ty \<Rightarrow> type_id" where
  "ty_id (PrimTy t) = t"
| "ty_id (ArrayTy _) = kArrayType"
| "ty_id (SetTy _) = kSetType"
| "ty_id (MapTy _ _) = kMapType"
| "ty_id (FuncTy _ _) = kFuncType"
| "ty_id (EnumTy _ _) = kEnumType"

text \<open>The virtual accessors: the base class asserts, the classes override.\<close>

fun type_name :: "ty \<Rightarrow> string res" where
  "type_name (EnumTy name _) = Inr name"
| "type_name _ = Inl AssertFail"

fun key_type :: "ty \<Rightarrow> nat res" where
  "key_type (MapTy k _) = Inr k"
| "key_type _ = Inl AssertFail"

fun elem_type :: "ty \<Rightarrow> nat res" where
  "elem_type (ArrayTy e) = Inr e"
| "elem_type (SetTy e) = Inr e"
| "elem_type (MapTy _ e) = Inr e"
| "elem_type _ = Inl AssertFail"

fun function_output_type :: "ty \<Rightarrow> nat res" where
  "function_output_type (FuncTy out _) = Inr out"
| "function_output_type _ = Inl AssertFail"

fun function_input_num :: "ty \<Rightarrow> nat res" where
  "function_input_num (FuncTy _ ins) = Inr (length ins)"
| "function_input_num _ = Inl AssertFail"

fun function_input_type :: "ty \<Rightarrow> nat \<Rightarrow> nat res" where
  "function_input_type (FuncTy _ ins) pos =
     res_bind (assert_cond (pos < length ins)) (\<lambda>_. Inr (ins ! pos))"
| "function_input_type _ _ = Inl AssertFail"

fun enum_num :: "ty \<Rightarrow> nat res" where
  "enum_num (EnumTy _ elems) = Inr (length elems)"
| "enum_num _ = Inl AssertFail"

fun enum_elem_val :: "ty \<Rightarrow> nat \<Rightarrow> i32 res" where
  "enum_elem_val (EnumTy _ elems) index =
     res_bind (assert_cond (index < length elems)) (\<lambda>_. Inr (snd (elems ! index)))"
| "enum_elem_val _ _ = Inl AssertFail"

fun enum_elem_name :: "ty \<Rightarrow> nat \<Rightarrow> string res" where
  "enum_elem_name (EnumTy _ elems) index =
     res_bind (assert_cond (index < length elems)) (\<lambda>_. Inr (fst (elems ! index)))"
| "enum_elem_name _ _ = Inl AssertFail"

text \<open>The first position of a name, or \<open>-1\<close>.\<close>

fun enum_scan :: "(string \<times> i32) list \<Rightarrow> string \<Rightarrow> int \<Rightarrow> int" where
  "enum_scan [] name i = - 1"
| "enum_scan (e # es) name i = (if fst e = name then i else enum_scan es name (i + 1))"

fun enum_index :: "ty \<Rightarrow> string \<Rightarrow> int res" where
  "enum_index (EnumTy _ elems) name = Inr (enum_scan elems name 0)"
| "enum_index _ _ = Inl AssertFail"

section \<open>The manager\<close>

record type_mgr =
  mTypeList :: "ty list"
  mVoidType :: tptr
  mBooleanType :: tptr
  mIntType :: tptr
  mFloatType :: tptr
  mStringType :: tptr
  mHashSize :: u32
  mNextLimit :: u32
  mHashTable :: "nat list list"
  mHashNum :: u32

text \<open>The chain of a bucket is the list of its types, following \<^verbatim>\<open>mLink\<close>.\<close>

definition deref :: "tptr \<Rightarrow> nat res" where
  "deref p = (case p of None \<Rightarrow> Inl NullDeref | Some q \<Rightarrow> Inr q)"

definition type_at :: "ty list \<Rightarrow> nat \<Rightarrow> ty res" where
  "type_at tys p = (if p < length tys then Inr (tys ! p) else Inl OutOfBounds)"

definition type_no :: "nat \<Rightarrow> u32" where
  "type_no p = of_nat p"

definition hash_array :: "nat \<Rightarrow> u32" where
  "hash_array e = type_no e"

definition hash_set :: "nat \<Rightarrow> u32" where
  "hash_set e = type_no e + 511"

definition hash_map :: "nat \<Rightarrow> nat \<Rightarrow> u32" where
  "hash_map k e = type_no k * 2047 + type_no e + 511"

fun hash_inputs :: "nat list \<Rightarrow> u32 \<Rightarrow> u32 \<Rightarrow> u32" where
  "hash_inputs [] i h = h"
| "hash_inputs (t # ts) i h = hash_inputs ts (i + 1) (h + type_no t * i)"

definition hash_func :: "nat \<Rightarrow> nat list \<Rightarrow> u32" where
  "hash_func out ins = hash_inputs ins 0 (type_no out + 253)"

text \<open>\<^verbatim>\<open>hash_func2\<close> reads the inputs back from the type; it is \<open>hash_func\<close> on them.\<close>

fun hash_type :: "u32 \<Rightarrow> ty \<Rightarrow> u32 res" where
  "hash_type sz (ArrayTy e) = u_mod (hash_array e) sz"
| "hash_type sz (SetTy e) = u_mod (hash_set e) sz"
| "hash_type sz (MapTy k e) = u_mod (hash_map k e) sz"
| "hash_type sz (FuncTy out ins) = u_mod (hash_func out ins) sz"
| "hash_type sz _ = Inr sz"

definition push_bucket :: "u32 \<Rightarrow> nat \<Rightarrow> nat list list \<Rightarrow> nat list list res" where
  "push_bucket h p tbl =
     res_bind (arr_get tbl (uint h)) (\<lambda>chain. arr_set tbl (uint h) (p # chain))"

fun rehash :: "ty list \<Rightarrow> u32 \<Rightarrow> nat list \<Rightarrow> nat list list \<Rightarrow> nat list list res" where
  "rehash tys sz [] tbl = Inr tbl"
| "rehash tys sz (p # ps) tbl =
     res_bind (type_at tys p) (\<lambda>t. res_bind (hash_type sz t)
       (\<lambda>h. res_bind (push_bucket h p tbl) (rehash tys sz ps)))"

definition alloc_table :: "u32 \<Rightarrow> type_mgr \<Rightarrow> type_mgr res" where
  "alloc_table req_size m =
     res_bind (next_limit req_size) (\<lambda>limit.
       res_bind (rehash (mTypeList m) req_size (concat (mHashTable m)) (replicate (unat req_size) []))
         (\<lambda>tbl. Inr (m\<lparr>mHashSize := req_size, mNextLimit := limit, mHashTable := tbl\<rparr>)))"

definition reg_type :: "ty \<Rightarrow> type_mgr \<Rightarrow> (nat \<times> type_mgr) res" where
  "reg_type t m =
     (let p = length (mTypeList m); m1 = m\<lparr>mTypeList := mTypeList m @ [t]\<rparr>
      in res_bind (if mHashNum m1 \<ge> mNextLimit m1 then alloc_table (mHashSize m1 * 2) m1 else Inr m1)
           (\<lambda>m2. res_bind (hash_type (mHashSize m2) t)
             (\<lambda>h. if h < mHashSize m2
                  then res_bind (push_bucket h p (mHashTable m2))
                    (\<lambda>tbl. Inr (p, m2\<lparr>mHashTable := tbl, mHashNum := mHashNum m2 + 1\<rparr>))
                  else Inr (p, m2))))"

definition new_PrimType :: "type_id \<Rightarrow> type_mgr \<Rightarrow> (nat \<times> type_mgr) res" where
  "new_PrimType t = reg_type (PrimTy t)"

definition blank :: type_mgr where
  "blank = \<lparr>mTypeList = [], mVoidType = None, mBooleanType = None, mIntType = None,
     mFloatType = None, mStringType = None, mHashSize = 0, mNextLimit = 0, mHashTable = [],
     mHashNum = 0\<rparr>"

definition init :: "type_mgr \<Rightarrow> type_mgr res" where
  "init m0 =
     res_bind (alloc_table 1024 (m0\<lparr>mHashSize := 0, mHashTable := [], mHashNum := 0\<rparr>)) (\<lambda>m.
     res_bind (new_PrimType kVoidType m) (\<lambda>(p, m). let m = m\<lparr>mVoidType := Some p\<rparr> in
     res_bind (new_PrimType kBooleanType m) (\<lambda>(p, m). let m = m\<lparr>mBooleanType := Some p\<rparr> in
     res_bind (new_PrimType kIntType m) (\<lambda>(p, m). let m = m\<lparr>mIntType := Some p\<rparr> in
     res_bind (new_PrimType kFloatType m) (\<lambda>(p, m). let m = m\<lparr>mFloatType := Some p\<rparr> in
     res_bind (new_PrimType kStringType m) (\<lambda>(p, m). Inr (m\<lparr>mStringType := Some p\<rparr>)))))))"

definition TypeMgr_new :: "type_mgr res" where
  "TypeMgr_new = init blank"

definition clear :: "type_mgr \<Rightarrow> type_mgr" where
  "clear m = m\<lparr>mTypeList := [], mVoidType := None, mBooleanType := None, mIntType := None,
     mFloatType := None, mStringType := None, mHashSize := 0, mHashTable := [], mHashNum := 0\<rparr>"

section \<open>Lookup or registration of structural types\<close>

fun chain_find :: "ty list \<Rightarrow> (ty \<Rightarrow> bool) \<Rightarrow> nat list \<Rightarrow> nat option res" where
  "chain_find tys same [] = Inr None"
| "chain_find tys same (p # ps) =
     res_bind (type_at tys p) (\<lambda>t. if same t then Inr (Some p) else chain_find tys same ps)"

definition find_or_reg :: "u32 \<Rightarrow> (ty \<Rightarrow> bool) \<Rightarrow> ty \<Rightarrow> type_mgr \<Rightarrow> (nat \<times> type_mgr) res" where
  "find_or_reg hash same t m =
     res_bind (u_mod hash (mHashSize m)) (\<lambda>h.
     res_bind (arr_get (mHashTable m) (uint h)) (\<lambda>chain.
     res_bind (chain_find (mTypeList m) same chain) (\<lambda>found.
       (case found of Some p \<Rightarrow> Inr (p, m) | None \<Rightarrow> reg_type t m))))"

definition array_type :: "tptr \<Rightarrow> type_mgr \<Rightarrow> (nat \<times> type_mgr) res" where
  "array_type elem m =
     res_bind (deref elem) (\<lambda>e.
       find_or_reg (hash_array e) (\<lambda>t. (case t of ArrayTy e' \<Rightarrow> e' = e | _ \<Rightarrow> False)) (ArrayTy e) m)"

definition set_type :: "tptr \<Rightarrow> type_mgr \<Rightarrow> (nat \<times> type_mgr) res" where
  "set_type elem m =
     res_bind (deref elem) (\<lambda>e.
       find_or_reg (hash_set e) (\<lambda>t. (case t of SetTy e' \<Rightarrow> e' = e | _ \<Rightarrow> False)) (SetTy e) m)"

definition map_type :: "tptr \<Rightarrow> tptr \<Rightarrow> type_mgr \<Rightarrow> (nat \<times> type_mgr) res" where
  "map_type key elem m =
     res_bind (deref key) (\<lambda>k. res_bind (deref elem) (\<lambda>e.
       find_or_reg (hash_map k e)
         (\<lambda>t. (case t of MapTy k' e' \<Rightarrow> k' = k \<and> e' = e | _ \<Rightarrow> False)) (MapTy k e) m))"

fun deref_all :: "tptr list \<Rightarrow> nat list res" where
  "deref_all [] = Inr []"
| "deref_all (p # ps) = res_bind (deref p) (\<lambda>q. res_bind (deref_all ps) (\<lambda>qs. Inr (q # qs)))"

definition function_type :: "tptr \<Rightarrow> tptr list \<Rightarrow> type_mgr \<Rightarrow> (nat \<times> type_mgr) res" where
  "function_type output inputs m =
     res_bind (deref output) (\<lambda>out. res_bind (deref_all inputs) (\<lambda>ins.
       find_or_reg (hash_func out ins)
         (\<lambda>t. (case t of
            FuncTy out' ins' \<Rightarrow> out' = out \<and> length ins' = length ins \<and>
              list_all (\<lambda>i. ins' ! i = ins ! i) [0..<length ins]
          | _ \<Rightarrow> False)) (FuncTy out ins) m))"

definition enum_type :: "string \<Rightarrow> (string \<times> i32) list \<Rightarrow> type_mgr \<Rightarrow> (nat \<times> type_mgr) res" where
  "enum_type name elems = reg_type (EnumTy name elems)"

section \<open>The invariant\<close>

fun is_enum :: "ty \<Rightarrow> bool" where
  "is_enum (EnumTy _ _) = True"
| "is_enum _ = False"

text \<open>The types that go into the hash table.\<close>

fun hashed :: "ty \<Rightarrow> bool" where
  "hashed (PrimTy _) = False"
| "hashed (EnumTy _ _) = False"
| "hashed _ = True"

fun type_refs :: "ty \<Rightarrow> nat list" where
  "type_refs (ArrayTy e) = [e]"
| "type_refs (SetTy e) = [e]"
| "type_refs (MapTy k e) = [k, e]"
| "type_refs (FuncTy out ins) = out # ins"
| "type_refs _ = []"

text \<open>Every entry of a bucket is a hashed type with the bucket's number as its hash value.\<close>

definition placed :: "ty list \<Rightarrow> u32 \<Rightarrow> nat list list \<Rightarrow> bool" where
  "placed tys sz tbl \<longleftrightarrow>
     (\<forall>h < length tbl. \<forall>p \<in> set (tbl ! h).
        p < length tys \<and> hashed (tys ! p) \<and> hash_type sz (tys ! p) = Inr (of_nat h))"

text \<open>The table holds each hashed type among the first \<open>n\<close> exactly once.\<close>

definition table_ok :: "ty list \<Rightarrow> nat \<Rightarrow> u32 \<Rightarrow> nat list list \<Rightarrow> bool" where
  "table_ok tys n sz tbl \<longleftrightarrow>
     length tbl = unat sz \<and> placed tys sz tbl \<and>
     mset (concat tbl) = mset (filter (\<lambda>p. hashed (tys ! p)) [0..<n])"

definition refs_ok :: "ty list \<Rightarrow> bool" where
  "refs_ok tys \<longleftrightarrow> (\<forall>p < length tys. \<forall>q \<in> set (type_refs (tys ! p)). q < p)"

definition canonical :: "ty list \<Rightarrow> bool" where
  "canonical tys \<longleftrightarrow>
     (\<forall>p < length tys. \<forall>q < length tys. tys ! p = tys ! q \<and> \<not> is_enum (tys ! p) \<longrightarrow> p = q)"

definition tm_core :: "type_mgr \<Rightarrow> bool" where
  "tm_core m \<longleftrightarrow>
     mHashSize m \<noteq> 0 \<and> next_limit (mHashSize m) = Inr (mNextLimit m) \<and>
     table_ok (mTypeList m) (length (mTypeList m)) (mHashSize m) (mHashTable m) \<and>
     unat (mHashNum m) = length (concat (mHashTable m)) \<and>
     refs_ok (mTypeList m) \<and> canonical (mTypeList m)"

definition prim_types :: "ty list" where
  "prim_types = [PrimTy kVoidType, PrimTy kBooleanType, PrimTy kIntType, PrimTy kFloatType,
     PrimTy kStringType]"

definition prims_ok :: "type_mgr \<Rightarrow> bool" where
  "prims_ok m \<longleftrightarrow>
     take 5 (mTypeList m) = prim_types \<and> 5 \<le> length (mTypeList m) \<and>
     mVoidType m = Some 0 \<and> mBooleanType m = Some 1 \<and> mIntType m = Some 2 \<and>
     mFloatType m = Some 3 \<and> mStringType m = Some 4 \<and>
     (\<forall>p < length (mTypeList m). 5 \<le> p \<longrightarrow> (\<forall>t. mTypeList m ! p \<noteq> PrimTy t))"

definition tm_ok :: "type_mgr \<Rightarrow> bool" where
  "tm_ok m \<longleftrightarrow> tm_core m \<and> prims_ok m"

section \<open>Buckets\<close>

lemma push_bucket_ok:
  assumes "unat h < length tbl"
  shows "push_bucket h p tbl = Inr (tbl[unat h := p # tbl ! unat h])"
  using assms by (simp add: push_bucket_def)

lemma hash_type_hashed:
  assumes "hashed t" and "sz \<noteq> 0"
  obtains h where "hash_type sz t = Inr h" and "unat h < unat sz"
proof -
  have "\<exists>h. hash_type sz t = Inr h \<and> unat h < unat sz"
  proof -
    have "\<exists>k. hash_type sz t = u_mod k sz" using assms(1) by (cases t) auto
    moreover have "\<exists>h. u_mod k sz = Inr h \<and> unat h < unat sz" for k
      using assms(2) u_mod_less [of k sz] by (simp add: u_mod_def)
    ultimately show ?thesis by fastforce
  qed
  then show thesis using that by blast
qed

lemma hash_type_unhashed: "\<not> hashed t \<Longrightarrow> hash_type sz t = Inr sz"
  by (cases t) auto

lemma placed_push:
  assumes "placed tys sz tbl" and "p < length tys" and "hashed (tys ! p)"
    and "hash_type sz (tys ! p) = Inr h" and "unat h < length tbl"
  shows "placed tys sz (tbl[unat h := p # tbl ! unat h])"
  using assms unfolding placed_def by (auto simp: nth_list_update)

lemma rehash_ok:
  assumes "\<forall>p \<in> set ps. p < length tys \<and> hashed (tys ! p)" and "sz \<noteq> 0"
    and "length tbl = unat sz" and "placed tys sz tbl"
  shows "\<exists>tbl'. rehash tys sz ps tbl = Inr tbl' \<and> length tbl' = unat sz \<and> placed tys sz tbl' \<and>
    mset (concat tbl') = mset ps + mset (concat tbl)"
  using assms
proof (induction ps arbitrary: tbl)
  case Nil
  then show ?case by simp
next
  case (Cons p ps)
  from Cons.prems have p: "p < length tys" "hashed (tys ! p)" by auto
  obtain h where h: "hash_type sz (tys ! p) = Inr h" "unat h < unat sz"
    using hash_type_hashed [OF p(2) Cons.prems(2)] .
  let ?tbl = "tbl[unat h := p # tbl ! unat h]"
  have h': "unat h < length tbl" using h(2) Cons.prems(3) by simp
  have "\<exists>tbl'. rehash tys sz ps ?tbl = Inr tbl' \<and> length tbl' = unat sz \<and> placed tys sz tbl' \<and>
    mset (concat tbl') = mset ps + mset (concat ?tbl)"
    using Cons.prems placed_push [OF Cons.prems(4) p h(1) h'] by (intro Cons.IH) auto
  then show ?case
    using p h h' by (auto simp: type_at_def push_bucket_ok mset_concat_update)
qed

lemma placed_empty: "placed tys sz (replicate n [])"
  by (simp add: placed_def)

lemma table_ok_mem:
  assumes "table_ok tys n sz tbl"
  shows "p \<in> set (concat tbl) \<longleftrightarrow> p < n \<and> hashed (tys ! p)"
proof -
  have "set (concat tbl) = set (filter (\<lambda>p. hashed (tys ! p)) [0..<n])"
    using assms unfolding table_ok_def by (metis set_mset_mset)
  then show ?thesis by auto
qed

lemma alloc_table_ok:
  assumes "table_ok (mTypeList m) n sz (mHashTable m)" and "n \<le> length (mTypeList m)"
    and "sz' \<noteq> 0" and "next_limit sz' = Inr limit"
  shows "\<exists>tbl. alloc_table sz' m =
      Inr (m\<lparr>mHashSize := sz', mNextLimit := limit, mHashTable := tbl\<rparr>) \<and>
    table_ok (mTypeList m) n sz' tbl"
proof -
  let ?ps = "concat (mHashTable m)" and ?t0 = "replicate (unat sz') []"
  have "\<forall>p \<in> set ?ps. p < length (mTypeList m) \<and> hashed (mTypeList m ! p)"
    using table_ok_mem [OF assms(1)] assms(2) by auto
  from rehash_ok [OF this assms(3), of ?t0] obtain tbl where
    "rehash (mTypeList m) sz' ?ps ?t0 = Inr tbl" "length tbl = unat sz'"
    "placed (mTypeList m) sz' tbl" "mset (concat tbl) = mset ?ps + mset (concat ?t0)"
    by (auto simp: placed_empty)
  moreover have "concat (replicate k []) = []" for k by (induction k) auto
  ultimately show ?thesis
    using assms(1,4) by (auto simp: alloc_table_def table_ok_def)
qed

section \<open>Registration\<close>

lemma table_ok_append_other:
  assumes "table_ok tys (length tys) sz tbl"
  shows "table_ok (tys @ [t]) (length tys) sz tbl"
proof -
  have "placed (tys @ [t]) sz tbl"
    using assms unfolding table_ok_def placed_def by (fastforce simp: nth_append)
  moreover have "filter (\<lambda>p. hashed ((tys @ [t]) ! p)) [0..<length tys]
      = filter (\<lambda>p. hashed (tys ! p)) [0..<length tys]"
    by (rule filter_cong) (auto simp: nth_append)
  ultimately show ?thesis using assms by (simp add: table_ok_def)
qed

lemma table_ok_Suc_unhashed:
  "table_ok tys n sz tbl \<Longrightarrow> \<not> hashed (tys ! n) \<Longrightarrow> table_ok tys (Suc n) sz tbl"
  by (simp add: table_ok_def)

lemma table_ok_Suc_hashed:
  assumes "table_ok tys n sz tbl" and "n < length tys" and "hashed (tys ! n)"
    and "hash_type sz (tys ! n) = Inr h" and "unat h < unat sz"
  shows "table_ok tys (Suc n) sz (tbl[unat h := n # tbl ! unat h])"
  using assms placed_push [of tys sz tbl n h] mset_concat_update [of "unat h" tbl n]
  by (simp add: table_ok_def)

lemma length_concat_table:
  assumes "table_ok tys n sz tbl"
  shows "length (concat tbl) = length (filter (\<lambda>p. hashed (tys ! p)) [0..<n])"
proof -
  have "mset (concat tbl) = mset (filter (\<lambda>p. hashed (tys ! p)) [0..<n])"
    using assms by (simp add: table_ok_def)
  then show ?thesis by (metis size_mset)
qed

lemma length_concat_table_le: "table_ok tys n sz tbl \<Longrightarrow> length (concat tbl) \<le> n"
  using length_filter_le [of _ "[0..<n]"] by (simp add: length_concat_table)

text \<open>Growing the table when the load limit is reached.\<close>

lemma grow_ok:
  assumes "tm_core m" and "length (mTypeList m) < 2 ^ 30"
    and "m1 = m\<lparr>mTypeList := mTypeList m @ [t]\<rparr>"
  shows "\<exists>sz limit tbl.
    (if mHashNum m1 \<ge> mNextLimit m1 then alloc_table (mHashSize m1 * 2) m1 else Inr m1) =
      Inr (m1\<lparr>mHashSize := sz, mNextLimit := limit, mHashTable := tbl\<rparr>) \<and>
    sz \<noteq> 0 \<and> next_limit sz = Inr limit \<and>
    table_ok (mTypeList m @ [t]) (length (mTypeList m)) sz tbl"
proof -
  let ?n = "length (mTypeList m)"
  have core: "mHashSize m \<noteq> 0" "next_limit (mHashSize m) = Inr (mNextLimit m)"
    "table_ok (mTypeList m) ?n (mHashSize m) (mHashTable m)"
    "unat (mHashNum m) = length (concat (mHashTable m))"
    using assms(1) by (auto simp: tm_core_def)
  have t: "table_ok (mTypeList m @ [t]) ?n (mHashSize m) (mHashTable m)"
    by (rule table_ok_append_other [OF core(3)])
  show ?thesis
  proof (cases "mHashNum m \<ge> mNextLimit m")
    case False
    then show ?thesis
      using core t assms(3)
      by (intro exI [of _ "mHashSize m"] exI [of _ "mNextLimit m"] exI [of _ "mHashTable m"]) simp
  next
    case True
    then have "unat (mNextLimit m) \<le> length (concat (mHashTable m))"
      using core(4) by (simp add: word_le_nat_alt)
    also have "\<dots> \<le> ?n" by (rule length_concat_table_le [OF core(3)])
    finally have "unat (mNextLimit m) < 2 ^ 30" using assms(2) by simp
    note dbl = next_limit_double [OF core(2) this core(1)]
    from dbl(2) obtain l where l: "next_limit (mHashSize m * 2) = Inr l" ..
    have "table_ok (mTypeList m1) ?n (mHashSize m) (mHashTable m1)" and "?n \<le> length (mTypeList m1)"
      using t assms(3) by simp_all
    from alloc_table_ok [OF this dbl(3) l] obtain tbl where
      "alloc_table (mHashSize m * 2) m1 =
        Inr (m1\<lparr>mHashSize := mHashSize m * 2, mNextLimit := l, mHashTable := tbl\<rparr>)"
      "table_ok (mTypeList m1) ?n (mHashSize m * 2) tbl"
      by blast
    then show ?thesis using True l dbl(3) assms(3) by auto
  qed
qed

definition fresh_type :: "ty \<Rightarrow> type_mgr \<Rightarrow> bool" where
  "fresh_type t m \<longleftrightarrow>
     (\<forall>q \<in> set (type_refs t). q < length (mTypeList m)) \<and>
     (\<not> is_enum t \<longrightarrow> t \<notin> set (mTypeList m))"

lemma refs_ok_snoc:
  "refs_ok tys \<Longrightarrow> \<forall>q \<in> set (type_refs t). q < length tys \<Longrightarrow> refs_ok (tys @ [t])"
  unfolding refs_ok_def by (auto simp: nth_append less_Suc_eq)

lemma canonical_snoc:
  assumes "canonical tys" and "\<not> is_enum t \<longrightarrow> t \<notin> set tys"
  shows "canonical (tys @ [t])"
  using assms unfolding canonical_def
  by (auto simp: nth_append less_Suc_eq split: if_splits)

text \<open>The parts of the manager that operations after construction leave alone.\<close>

definition same_prims :: "type_mgr \<Rightarrow> type_mgr \<Rightarrow> bool" where
  "same_prims m m' \<longleftrightarrow>
     mVoidType m' = mVoidType m \<and> mBooleanType m' = mBooleanType m \<and>
     mIntType m' = mIntType m \<and> mFloatType m' = mFloatType m \<and> mStringType m' = mStringType m"

lemma reg_type_core:
  assumes "tm_core m" and "length (mTypeList m) < 2 ^ 30" and "fresh_type t m"
  shows "\<exists>m'. reg_type t m = Inr (length (mTypeList m), m') \<and> tm_core m' \<and>
    mTypeList m' = mTypeList m @ [t] \<and> same_prims m m'"
proof -
  let ?n = "length (mTypeList m)" and ?tys = "mTypeList m @ [t]"
  define m1 where "m1 = m\<lparr>mTypeList := ?tys\<rparr>"
  from grow_ok [OF assms(1,2) m1_def] obtain sz limit tbl where g:
    "(if mHashNum m1 \<ge> mNextLimit m1 then alloc_table (mHashSize m1 * 2) m1 else Inr m1) =
      Inr (m1\<lparr>mHashSize := sz, mNextLimit := limit, mHashTable := tbl\<rparr>)"
    "sz \<noteq> 0" "next_limit sz = Inr limit" "table_ok ?tys ?n sz tbl" by blast
  have lists: "refs_ok ?tys" "canonical ?tys"
    using assms(1,3) by (auto simp: tm_core_def fresh_type_def intro: refs_ok_snoc canonical_snoc)
  have num: "unat (mHashNum m) = length (concat tbl)"
    using assms(1) length_concat_table [OF g(4)]
      length_concat_table [OF table_ok_append_other, of "mTypeList m" "mHashSize m" "mHashTable m" t]
    by (simp add: tm_core_def)
  have len: "length tbl = unat sz" using g(4) by (simp add: table_ok_def)
  note reg = reg_type_def [of t m, folded m1_def, unfolded Let_def g(1) res_bind_Inr]
  show ?thesis
  proof (cases "hashed t")
    case False
    then have "reg_type t m = Inr (?n, m1\<lparr>mHashSize := sz, mNextLimit := limit, mHashTable := tbl\<rparr>)"
      unfolding reg by (simp add: hash_type_unhashed)
    moreover have "table_ok ?tys (Suc ?n) sz tbl"
      using g(4) False by (intro table_ok_Suc_unhashed) simp_all
    ultimately show ?thesis
      using g(2,3) lists num by (simp add: tm_core_def m1_def same_prims_def)
  next
    case True
    then obtain h where h: "hash_type sz t = Inr h" "unat h < unat sz"
      using hash_type_hashed g(2) by blast
    let ?tbl = "tbl[unat h := ?n # tbl ! unat h]"
    have "reg_type t m = Inr (?n, m1\<lparr>mHashSize := sz, mNextLimit := limit, mHashTable := ?tbl,
        mHashNum := mHashNum m + 1\<rparr>)"
      unfolding reg using h len
      by (simp add: push_bucket_ok word_less_nat_alt m1_def)
    moreover have "table_ok ?tys (Suc ?n) sz ?tbl"
      using g(4) True h by (intro table_ok_Suc_hashed) simp_all
    moreover have "unat (mHashNum m + 1) = length (concat ?tbl)"
    proof -
      have "unat (mHashNum m) \<le> ?n"
        using num length_concat_table_le [OF g(4)] by simp
      then have "unat (mHashNum m + 1) = Suc (unat (mHashNum m))"
        using assms(2) by (simp add: unat_word_ariths)
      then show ?thesis
        using num mset_concat_update [of "unat h" tbl ?n] h(2) len
        by (metis size_add_mset size_mset)
    qed
    ultimately show ?thesis
      using g(2,3) lists by (simp add: tm_core_def m1_def same_prims_def)
  qed
qed

section \<open>Interning\<close>

lemma chain_find_ok:
  "\<forall>p \<in> set ps. p < length tys \<Longrightarrow>
    chain_find tys same ps = Inr (find (\<lambda>p. same (tys ! p)) ps)"
  by (induction ps) (simp_all add: type_at_def)

lemma table_bucket:
  assumes "table_ok tys (length tys) sz tbl" and "hashed t" and "hash_type sz t = Inr h"
    and "unat h < unat sz"
  shows "p \<in> set (tbl ! unat h) \<and> tys ! p = t \<longleftrightarrow> p < length tys \<and> tys ! p = t"
proof
  assume "p \<in> set (tbl ! unat h) \<and> tys ! p = t"
  then show "p < length tys \<and> tys ! p = t"
    using assms(1,4) by (auto simp: table_ok_def placed_def)
next
  assume p: "p < length tys \<and> tys ! p = t"
  then have "p \<in> set (concat tbl)"
    using table_ok_mem [OF assms(1)] assms(2) by simp
  then obtain i where i: "i < length tbl" "p \<in> set (tbl ! i)"
    by (metis UN_E in_set_conv_nth set_concat)
  have "unat sz < 2 ^ LENGTH(32)" by (rule unsigned_less)
  with i have "hash_type sz t = Inr (of_nat i)" "i < 2 ^ 32"
    using assms(1) p by (auto simp: table_ok_def placed_def)
  then have "i = unat h" using assms(3) by (simp add: unat_of_nat)
  with i p show "p \<in> set (tbl ! unat h) \<and> tys ! p = t" by simp
qed

text \<open>The common lookup, for a type \<open>t\<close> whose test and hash value fit it.\<close>

lemma find_or_reg_lookup:
  assumes "tm_core m" and "hashed t" and "\<And>sz. hash_type sz t = u_mod hash sz"
    and "\<And>u. same u \<longleftrightarrow> u = t"
  shows "p < length (mTypeList m) \<Longrightarrow> mTypeList m ! p = t \<Longrightarrow> find_or_reg hash same t m = Inr (p, m)"
    and "t \<notin> set (mTypeList m) \<Longrightarrow> find_or_reg hash same t m = reg_type t m"
proof -
  let ?tys = "mTypeList m" and ?sz = "mHashSize m" and ?tbl = "mHashTable m"
  have tbl: "table_ok ?tys (length ?tys) ?sz ?tbl" and sz: "?sz \<noteq> 0"
    using assms(1) by (auto simp: tm_core_def)
  obtain h where h: "u_mod hash ?sz = Inr h" "unat h < unat ?sz"
    using hash_type_hashed [OF assms(2) sz] assms(3) by metis
  have hl: "unat h < length ?tbl" and len: "\<forall>p \<in> set (?tbl ! unat h). p < length ?tys"
    using tbl h(2) by (auto simp: table_ok_def placed_def)
  have bucket: "p \<in> set (?tbl ! unat h) \<and> ?tys ! p = t \<longleftrightarrow> p < length ?tys \<and> ?tys ! p = t" for p
    using table_bucket [OF tbl assms(2) _ h(2)] h(1) assms(3) by simp
  have run: "find_or_reg hash same t m =
    (case find (\<lambda>p. ?tys ! p = t) (?tbl ! unat h) of Some p \<Rightarrow> Inr (p, m) | None \<Rightarrow> reg_type t m)"
    using h hl len by (simp add: find_or_reg_def chain_find_ok assms(4))
  show "find_or_reg hash same t m = Inr (p, m)" if p: "p < length ?tys" "?tys ! p = t"
  proof -
    have in_b: "p \<in> set (?tbl ! unat h)" using bucket p by blast
    obtain q where q: "find (\<lambda>p. ?tys ! p = t) (?tbl ! unat h) = Some q"
      using in_b p(2) by (cases "find (\<lambda>p. ?tys ! p = t) (?tbl ! unat h)") (auto simp: find_None_iff)
    then have "q < length ?tys" "?tys ! q = t"
      using len by (auto simp: find_Some_iff)
    moreover have "\<not> is_enum t" using assms(2) by (cases t) auto
    ultimately have "q = p"
      using assms(1) p by (auto simp: tm_core_def canonical_def)
    then show ?thesis using run q by simp
  qed
  show "find_or_reg hash same t m = reg_type t m" if "t \<notin> set ?tys"
  proof -
    have "find (\<lambda>p. ?tys ! p = t) (?tbl ! unat h) = None"
      using that len by (auto simp: find_None_iff)
    then show ?thesis using run by simp
  qed
qed

text \<open>
  What the manager promises for one kind of structural type: \<open>intern k\<close> finds the type \<open>mk k\<close> when it
  is registered and registers it when it is not.
\<close>

locale interner =
  fixes intern :: "'k \<Rightarrow> type_mgr \<Rightarrow> (nat \<times> type_mgr) res" and mk :: "'k \<Rightarrow> ty"
  assumes hit: "tm_core m \<Longrightarrow> p < length (mTypeList m) \<Longrightarrow> mTypeList m ! p = mk k \<Longrightarrow>
      intern k m = Inr (p, m)"
    and miss: "tm_core m \<Longrightarrow> mk k \<notin> set (mTypeList m) \<Longrightarrow> intern k m = reg_type (mk k) m"
    and mk_inj: "mk k = mk k' \<Longrightarrow> k = k'"
    and mk_hashed: "hashed (mk k)"
begin

lemma not_enum: "\<not> is_enum (mk k)"
  using mk_hashed [of k] by (cases "mk k") auto

lemma intern_core:
  assumes "tm_core m" and "length (mTypeList m) < 2 ^ 30"
    and "\<forall>q \<in> set (type_refs (mk k)). q < length (mTypeList m)"
  shows "\<exists>p m' new. intern k m = Inr (p, m') \<and> tm_core m' \<and> mTypeList m' = mTypeList m @ new \<and>
    set new \<subseteq> {mk k} \<and> length new \<le> 1 \<and> p < length (mTypeList m') \<and> mTypeList m' ! p = mk k \<and>
    same_prims m m'"
proof (cases "mk k \<in> set (mTypeList m)")
  case True
  then obtain p where "p < length (mTypeList m)" "mTypeList m ! p = mk k"
    by (auto simp: in_set_conv_nth)
  then show ?thesis
    using hit assms(1) by (intro exI [of _ p] exI [of _ m] exI [of _ "[]"]) (simp add: same_prims_def)
next
  case False
  then have "fresh_type (mk k) m" using assms(3) by (simp add: fresh_type_def)
  from reg_type_core [OF assms(1,2) this] show ?thesis
    using miss [OF assms(1) False] by auto
qed

lemma intern_again:
  assumes "tm_core m" and "mTypeList m = mTypeList m0 @ xs" and "p < length (mTypeList m0)"
    and "mTypeList m0 ! p = mk k"
  shows "intern k m = Inr (p, m)"
  using assms by (intro hit) (simp_all add: nth_append)

lemma intern_distinct:
  assumes "p < length (mTypeList m)" and "mTypeList m ! p = mk k"
    and "p' < length (mTypeList m)" and "mTypeList m ! p' = mk k'" and "tm_core m"
  shows "p = p' \<longleftrightarrow> k = k'"
  using assms mk_inj [of k k'] not_enum by (auto simp: tm_core_def canonical_def)

end

lemma deref_all_Some [simp]: "deref_all (map Some ps) = Inr ps"
  by (induction ps) (simp_all add: deref_def)

lemma same_func_test:
  "(case u of FuncTy out' ins' \<Rightarrow> out' = out \<and> length ins' = length ins \<and>
      list_all (\<lambda>i. ins' ! i = ins ! i) [0..<length ins] | _ \<Rightarrow> False) \<longleftrightarrow> u = FuncTy out ins"
  by (cases u) (auto simp: list_all_iff intro: nth_equalityI)

interpretation arrays: interner "\<lambda>e. array_type (Some e)" ArrayTy
proof unfold_locales
  have same: "(case u of ArrayTy e' \<Rightarrow> e' = e | _ \<Rightarrow> False) \<longleftrightarrow> u = ArrayTy e" for u e
    by (cases u) auto
  note find = find_or_reg_lookup [where hash = "hash_array e" and t = "ArrayTy e" for e, OF _ _ _ same]
  show "array_type (Some k) m = Inr (p, m)"
    if "tm_core m" "p < length (mTypeList m)" "mTypeList m ! p = ArrayTy k" for m p k
    using find(1) [OF that(1) _ _ that(2,3)] by (simp add: array_type_def deref_def)
  show "array_type (Some k) m = reg_type (ArrayTy k) m"
    if "tm_core m" "ArrayTy k \<notin> set (mTypeList m)" for m k
    using find(2) [OF that(1) _ _ that(2)] by (simp add: array_type_def deref_def)
qed simp_all

interpretation sets: interner "\<lambda>e. set_type (Some e)" SetTy
proof unfold_locales
  have same: "(case u of SetTy e' \<Rightarrow> e' = e | _ \<Rightarrow> False) \<longleftrightarrow> u = SetTy e" for u e
    by (cases u) auto
  note find = find_or_reg_lookup [where hash = "hash_set e" and t = "SetTy e" for e, OF _ _ _ same]
  show "set_type (Some k) m = Inr (p, m)"
    if "tm_core m" "p < length (mTypeList m)" "mTypeList m ! p = SetTy k" for m p k
    using find(1) [OF that(1) _ _ that(2,3)] by (simp add: set_type_def deref_def)
  show "set_type (Some k) m = reg_type (SetTy k) m"
    if "tm_core m" "SetTy k \<notin> set (mTypeList m)" for m k
    using find(2) [OF that(1) _ _ that(2)] by (simp add: set_type_def deref_def)
qed simp_all

interpretation maps: interner "\<lambda>(k, e). map_type (Some k) (Some e)" "\<lambda>(k, e). MapTy k e"
proof unfold_locales
  have same: "(case u of MapTy k' e' \<Rightarrow> k' = k \<and> e' = e | _ \<Rightarrow> False) \<longleftrightarrow> u = MapTy k e" for u k e
    by (cases u) auto
  note find = find_or_reg_lookup [where hash = "hash_map k e" and t = "MapTy k e" for k e, OF _ _ _ same]
  show "(case ke of (k, e) \<Rightarrow> map_type (Some k) (Some e)) m = Inr (p, m)"
    if "tm_core m" "p < length (mTypeList m)" "mTypeList m ! p = (case ke of (k, e) \<Rightarrow> MapTy k e)"
    for m p ke
    using find(1) [OF that(1) _ _ that(2)] that(3) by (auto simp: map_type_def deref_def split: prod.splits)
  show "(case ke of (k, e) \<Rightarrow> map_type (Some k) (Some e)) m =
      reg_type (case ke of (k, e) \<Rightarrow> MapTy k e) m"
    if "tm_core m" "(case ke of (k, e) \<Rightarrow> MapTy k e) \<notin> set (mTypeList m)" for m ke
    using find(2) [OF that(1)] that(2) by (auto simp: map_type_def deref_def split: prod.splits)
qed auto

interpretation funcs: interner
  "\<lambda>(out, ins). function_type (Some out) (map Some ins)" "\<lambda>(out, ins). FuncTy out ins"
proof unfold_locales
  note find = find_or_reg_lookup [where hash = "hash_func out ins" and t = "FuncTy out ins" for out ins,
      OF _ _ _ same_func_test]
  show "(case oi of (out, ins) \<Rightarrow> function_type (Some out) (map Some ins)) m = Inr (p, m)"
    if "tm_core m" "p < length (mTypeList m)"
      "mTypeList m ! p = (case oi of (out, ins) \<Rightarrow> FuncTy out ins)" for m p oi
    using find(1) [OF that(1) _ _ that(2)] that(3)
    by (auto simp: function_type_def deref_def split: prod.splits)
  show "(case oi of (out, ins) \<Rightarrow> function_type (Some out) (map Some ins)) m =
      reg_type (case oi of (out, ins) \<Rightarrow> FuncTy out ins) m"
    if "tm_core m" "(case oi of (out, ins) \<Rightarrow> FuncTy out ins) \<notin> set (mTypeList m)" for m oi
    using find(2) [OF that(1)] that(2)
    by (auto simp: function_type_def deref_def split: prod.splits)
qed auto

section \<open>Requests to the manager\<close>

text \<open>The calls of the elaborator, with valid types as arguments.\<close>

datatype tm_req =
    ReqArray nat | ReqSet nat | ReqMap nat nat | ReqFunc nat "nat list"
  | ReqEnum string "(string \<times> i32) list"

fun req_type :: "tm_req \<Rightarrow> ty" where
  "req_type (ReqArray e) = ArrayTy e"
| "req_type (ReqSet e) = SetTy e"
| "req_type (ReqMap k e) = MapTy k e"
| "req_type (ReqFunc out ins) = FuncTy out ins"
| "req_type (ReqEnum name elems) = EnumTy name elems"

fun serve :: "tm_req \<Rightarrow> type_mgr \<Rightarrow> (nat \<times> type_mgr) res" where
  "serve (ReqArray e) m = array_type (Some e) m"
| "serve (ReqSet e) m = set_type (Some e) m"
| "serve (ReqMap k e) m = map_type (Some k) (Some e) m"
| "serve (ReqFunc out ins) m = function_type (Some out) (map Some ins) m"
| "serve (ReqEnum name elems) m = enum_type name elems m"

definition req_ok :: "tm_req \<Rightarrow> type_mgr \<Rightarrow> bool" where
  "req_ok r m \<longleftrightarrow> (\<forall>q \<in> set (type_refs (req_type r)). q < length (mTypeList m))"

lemma same_prims_prims_ok:
  assumes "prims_ok m" and "same_prims m m'" and "mTypeList m' = mTypeList m @ new"
    and "\<forall>t \<in> set new. \<forall>u. t \<noteq> PrimTy u"
  shows "prims_ok m'"
  using assms unfolding prims_ok_def same_prims_def
  by (auto simp: nth_append)

lemma serve_core:
  assumes "tm_core m" and "length (mTypeList m) < 2 ^ 30" and "req_ok r m"
  shows "\<exists>p m' new. serve r m = Inr (p, m') \<and> tm_core m' \<and> mTypeList m' = mTypeList m @ new \<and>
    set new \<subseteq> {req_type r} \<and> length new \<le> 1 \<and> p < length (mTypeList m') \<and>
    mTypeList m' ! p = req_type r \<and> same_prims m m'"
proof (cases r)
  case (ReqEnum name elems)
  then have "fresh_type (req_type r) m" by (simp add: fresh_type_def)
  from reg_type_core [OF assms(1,2) this] obtain m' where m':
    "reg_type (req_type r) m = Inr (length (mTypeList m), m')" "tm_core m'"
    "mTypeList m' = mTypeList m @ [req_type r]" "same_prims m m'" by blast
  then have "serve r m = Inr (length (mTypeList m), m')"
    using ReqEnum by (simp add: enum_type_def)
  with m' show ?thesis
    by (intro exI [of _ "length (mTypeList m)"] exI [of _ m'] exI [of _ "[req_type r]"]) simp
qed (use assms arrays.intern_core [of m] sets.intern_core [of m]
    maps.intern_core [of m "(_, _)"] funcs.intern_core [of m "(_, _)"]
    in \<open>simp_all add: req_ok_def\<close>)

lemma serve_ok:
  assumes "tm_ok m" and "length (mTypeList m) < 2 ^ 30" and "req_ok r m"
  obtains p m' new where "serve r m = Inr (p, m')" "tm_ok m'" "mTypeList m' = mTypeList m @ new"
    "length new \<le> 1" "p < length (mTypeList m')" "mTypeList m' ! p = req_type r"
proof -
  from serve_core [OF _ assms(2,3)] assms(1) obtain p m' new where s:
    "serve r m = Inr (p, m')" "tm_core m'" "mTypeList m' = mTypeList m @ new"
    "set new \<subseteq> {req_type r}" "length new \<le> 1" "p < length (mTypeList m')"
    "mTypeList m' ! p = req_type r" "same_prims m m'"
    unfolding tm_ok_def by blast
  have "\<forall>u. req_type r \<noteq> PrimTy u" by (cases r) simp_all
  then have "\<forall>t \<in> set new. \<forall>u. t \<noteq> PrimTy u"
    using s(4) by (metis (full_types) singletonD subsetD)
  then have "prims_ok m'"
    using assms(1) s(3,8) by (intro same_prims_prims_ok [of m m' new]) (auto simp: tm_ok_def)
  then have "tm_ok m'" using s(2) by (simp add: tm_ok_def)
  from s(1) this s(3,5,6,7) show thesis by (rule that)
qed

lemma serve_hit:
  assumes "tm_core m" and "p < length (mTypeList m)" and "mTypeList m ! p = req_type r"
    and "\<not> is_enum (req_type r)"
  shows "serve r m = Inr (p, m)"
  using assms arrays.hit [of m p] sets.hit [of m p] maps.hit [of m p "(_, _)"]
    funcs.hit [of m p "(_, _)"]
  by (cases r) simp_all

fun serve_all :: "tm_req list \<Rightarrow> type_mgr \<Rightarrow> (nat list \<times> type_mgr) res" where
  "serve_all [] m = Inr ([], m)"
| "serve_all (r # rs) m =
     res_bind (serve r m) (\<lambda>(p, m'). res_bind (serve_all rs m') (\<lambda>(ps, m''). Inr (p # ps, m'')))"

text \<open>A sequence of requests whose arguments exist when they are used.\<close>

fun reqs_ok :: "tm_req list \<Rightarrow> nat \<Rightarrow> bool" where
  "reqs_ok [] n = True"
| "reqs_ok (r # rs) n = ((\<forall>q \<in> set (type_refs (req_type r)). q < n) \<and> reqs_ok rs n)"

lemma reqs_ok_mono: "reqs_ok rs n \<Longrightarrow> n \<le> n' \<Longrightarrow> reqs_ok rs n'"
  by (induction rs) (auto intro: less_le_trans)

lemma serve_all_ok:
  assumes "tm_ok m" and "length (mTypeList m) + length rs < 2 ^ 30"
    and "reqs_ok rs (length (mTypeList m))"
  shows "\<exists>ps m' new. serve_all rs m = Inr (ps, m') \<and> tm_ok m' \<and>
    mTypeList m' = mTypeList m @ new \<and> length new \<le> length rs \<and>
    map (\<lambda>p. mTypeList m' ! p) ps = map req_type rs \<and> (\<forall>p \<in> set ps. p < length (mTypeList m'))"
  using assms
proof (induction rs arbitrary: m)
  case Nil
  then show ?case by simp
next
  case (Cons r rs)
  have "req_ok r m" using Cons.prems(3) by (simp add: req_ok_def)
  then obtain p m1 new where s: "serve r m = Inr (p, m1)" "tm_ok m1"
    "mTypeList m1 = mTypeList m @ new" "length new \<le> 1" "p < length (mTypeList m1)"
    "mTypeList m1 ! p = req_type r"
    using serve_ok Cons.prems(1,2) by (metis add_lessD1)
  have "\<exists>ps m' new. serve_all rs m1 = Inr (ps, m') \<and> tm_ok m' \<and>
    mTypeList m' = mTypeList m1 @ new \<and> length new \<le> length rs \<and>
    map (\<lambda>p. mTypeList m' ! p) ps = map req_type rs \<and> (\<forall>p \<in> set ps. p < length (mTypeList m'))"
    using Cons.prems s reqs_ok_mono [of rs "length (mTypeList m)" "length (mTypeList m1)"]
    by (intro Cons.IH) simp_all
  then obtain ps m' new' where r: "serve_all rs m1 = Inr (ps, m')" "tm_ok m'"
    "mTypeList m' = mTypeList m1 @ new'" "length new' \<le> length rs"
    "map (\<lambda>p. mTypeList m' ! p) ps = map req_type rs" "\<forall>p \<in> set ps. p < length (mTypeList m')"
    by blast
  have "serve_all (r # rs) m = Inr (p # ps, m')" using s(1) r(1) by simp
  moreover have "mTypeList m' ! p = req_type r" "p < length (mTypeList m')"
    using s(5,6) r(3) by (simp_all add: nth_append)
  moreover have "mTypeList m' = mTypeList m @ new @ new'" using s(3) r(3) by simp
  moreover have "length (new @ new') \<le> length (r # rs)" using s(4) r(4) by simp
  ultimately show ?case using r(2,5,6) by fastforce
qed

section \<open>Construction\<close>

lemma tm_core_updates [simp]:
  "tm_core (m\<lparr>mVoidType := a\<rparr>) = tm_core m" "tm_core (m\<lparr>mBooleanType := a\<rparr>) = tm_core m"
  "tm_core (m\<lparr>mIntType := a\<rparr>) = tm_core m" "tm_core (m\<lparr>mFloatType := a\<rparr>) = tm_core m"
  "tm_core (m\<lparr>mStringType := a\<rparr>) = tm_core m"
  by (simp_all add: tm_core_def)

lemma alloc_blank:
  "\<exists>m. alloc_table 1024 blank = Inr m \<and> tm_core m \<and> mTypeList m = []"
proof -
  have "concat (replicate n []) = []" for n by (induction n) auto
  moreover have "next_limit 1024 = Inr 1843"
    by (simp add: next_limit_def)
  ultimately show ?thesis
    by (simp add: alloc_table_def blank_def tm_core_def table_ok_def placed_empty refs_ok_def
        canonical_def)
qed

lemma new_PrimType_ok:
  assumes "tm_core m" and "length (mTypeList m) < 5" and "PrimTy t \<notin> set (mTypeList m)"
  shows "\<exists>m'. new_PrimType t m = Inr (length (mTypeList m), m') \<and> tm_core m' \<and>
    mTypeList m' = mTypeList m @ [PrimTy t] \<and> same_prims m m'"
  using reg_type_core [of m "PrimTy t"] assms by (simp add: new_PrimType_def fresh_type_def)

text \<open>No table is grown for the primitive types.\<close>

definition first_table :: "type_mgr \<Rightarrow> bool" where
  "first_table m \<longleftrightarrow> mHashSize m = 1024 \<and> mHashNum m = 0 \<and> mNextLimit m = 1843"

lemma new_PrimType_table:
  assumes "new_PrimType t m = Inr (p, m')" and "first_table m"
  shows "first_table m'"
  using assms by (auto simp: new_PrimType_def reg_type_def Let_def first_table_def)

lemma first_table_updates [simp]:
  "first_table (m\<lparr>mVoidType := a\<rparr>) = first_table m"
  "first_table (m\<lparr>mBooleanType := a\<rparr>) = first_table m"
  "first_table (m\<lparr>mIntType := a\<rparr>) = first_table m"
  "first_table (m\<lparr>mFloatType := a\<rparr>) = first_table m"
  by (simp_all add: first_table_def)

lemma alloc_blank_table:
  "alloc_table 1024 blank = Inr m \<Longrightarrow> first_table m"
  by (auto simp: alloc_table_def blank_def next_limit_def first_table_def)

lemma init_blank: "blank\<lparr>mHashSize := 0, mHashTable := [], mHashNum := 0\<rparr> = blank"
  by (simp add: blank_def)

lemma TypeMgr_new_table:
  assumes "TypeMgr_new = Inr m"
  shows "mHashSize m = 1024 \<and> mHashNum m = 0"
proof -
  from assms obtain m0 p1 m1 p2 m2 p3 m3 p4 m4 p5 m5 where r:
    "alloc_table 1024 blank = Inr m0"
    "new_PrimType kVoidType m0 = Inr (p1, m1)"
    "new_PrimType kBooleanType (m1\<lparr>mVoidType := Some p1\<rparr>) = Inr (p2, m2)"
    "new_PrimType kIntType (m2\<lparr>mBooleanType := Some p2\<rparr>) = Inr (p3, m3)"
    "new_PrimType kFloatType (m3\<lparr>mIntType := Some p3\<rparr>) = Inr (p4, m4)"
    "new_PrimType kStringType (m4\<lparr>mFloatType := Some p4\<rparr>) = Inr (p5, m5)"
    "m = m5\<lparr>mStringType := Some p5\<rparr>"
    by (auto simp: TypeMgr_new_def init_def init_blank Let_def)
  have "first_table m1"
    using new_PrimType_table [OF r(2)] alloc_blank_table [OF r(1)] by simp
  then have "first_table m5"
    using new_PrimType_table [OF r(3)] new_PrimType_table [OF r(4)] new_PrimType_table [OF r(5)]
      new_PrimType_table [OF r(6)] by simp
  then show ?thesis by (simp add: r(7) first_table_def)
qed

lemma TypeMgr_new_inv: "\<exists>m. TypeMgr_new = Inr m \<and> tm_ok m \<and> mTypeList m = prim_types"
proof -
  obtain m0 where m0: "alloc_table 1024 blank = Inr m0" "tm_core m0" "mTypeList m0 = []"
    using alloc_blank by blast
  obtain m1 where m1: "new_PrimType kVoidType m0 = Inr (0, m1)" "tm_core m1"
    "mTypeList m1 = [PrimTy kVoidType]"
    using new_PrimType_ok [OF m0(2), of kVoidType] m0(3) by auto
  let ?m1 = "m1\<lparr>mVoidType := Some 0\<rparr>"
  obtain m2 where m2: "new_PrimType kBooleanType ?m1 = Inr (1, m2)" "tm_core m2"
    "mTypeList m2 = [PrimTy kVoidType, PrimTy kBooleanType]" "mVoidType m2 = Some 0"
    using new_PrimType_ok [of ?m1 kBooleanType] m1(2,3) by (auto simp: same_prims_def)
  let ?m2 = "m2\<lparr>mBooleanType := Some 1\<rparr>"
  obtain m3 where m3: "new_PrimType kIntType ?m2 = Inr (2, m3)" "tm_core m3"
    "mTypeList m3 = [PrimTy kVoidType, PrimTy kBooleanType, PrimTy kIntType]"
    "mVoidType m3 = Some 0" "mBooleanType m3 = Some 1"
    using new_PrimType_ok [of ?m2 kIntType] m2(2-4) by (auto simp: same_prims_def)
  let ?m3 = "m3\<lparr>mIntType := Some 2\<rparr>"
  obtain m4 where m4: "new_PrimType kFloatType ?m3 = Inr (3, m4)" "tm_core m4"
    "mTypeList m4 = [PrimTy kVoidType, PrimTy kBooleanType, PrimTy kIntType, PrimTy kFloatType]"
    "mVoidType m4 = Some 0" "mBooleanType m4 = Some 1" "mIntType m4 = Some 2"
    using new_PrimType_ok [of ?m3 kFloatType] m3(2-5) by (auto simp: same_prims_def)
  let ?m4 = "m4\<lparr>mFloatType := Some 3\<rparr>"
  obtain m5 where m5: "new_PrimType kStringType ?m4 = Inr (4, m5)" "tm_core m5"
    "mTypeList m5 = prim_types" "mVoidType m5 = Some 0" "mBooleanType m5 = Some 1"
    "mIntType m5 = Some 2" "mFloatType m5 = Some 3"
    using new_PrimType_ok [of ?m4 kStringType] m4(2-6)
    by (auto simp: same_prims_def prim_types_def)
  have blank: "blank\<lparr>mHashSize := 0, mHashTable := [], mHashNum := 0\<rparr> = blank"
    by (simp add: blank_def)
  have "TypeMgr_new = Inr (m5\<lparr>mStringType := Some 4\<rparr>)"
    by (simp add: TypeMgr_new_def init_def blank m0(1) m1(1) m2(1) m3(1) m4(1) m5(1)
        del: One_nat_def)
  moreover have "tm_ok (m5\<lparr>mStringType := Some 4\<rparr>)"
    using m5 by (simp add: tm_ok_def prims_ok_def prim_types_def)
  ultimately show ?thesis using m5(3)
    by (intro exI [of _ "m5\<lparr>mStringType := Some 4\<rparr>"]) simp
qed

text \<open>
  The constructor of the type manager succeeds and establishes its invariant: the five
  primitive types are registered and reachable through their members, and the hash table is empty
  and of the right size.
\<close>

theorem TypeMgr_new_ok:
  "\<exists>m. TypeMgr_new = Inr m \<and> tm_ok m \<and> mTypeList m = prim_types \<and>
    mHashSize m = 1024 \<and> mHashNum m = 0"
proof -
  obtain m where m: "TypeMgr_new = Inr m" "tm_ok m" "mTypeList m = prim_types"
    using TypeMgr_new_inv by blast
  have "mHashSize m = 1024 \<and> mHashNum m = 0"
    using m(1) by (rule TypeMgr_new_table)
  with m show ?thesis by blast
qed

text \<open>
  C2: Every sequence of type requests with existing arguments, up to the size the counters hold, is
  served without a fault from any well-formed manager. The invariant is kept, every pointer
  returned has the requested structure, and types already handed out keep their number and their
  structure, through every growth and rehash of the table.
\<close>

theorem serve_all_total:
  assumes "tm_ok m" and "length (mTypeList m) + length rs < 2 ^ 30"
    and "reqs_ok rs (length (mTypeList m))"
  shows "\<exists>ps m'. serve_all rs m = Inr (ps, m') \<and> tm_ok m' \<and>
    take (length (mTypeList m)) (mTypeList m') = mTypeList m \<and>
    map (\<lambda>p. mTypeList m' ! p) ps = map req_type rs"
  using serve_all_ok [OF assms] by fastforce

text \<open>
  Types are unique: a request repeated after any other requests returns the same pointer and
  registers nothing, except for enumerations.
\<close>

theorem repeated_request_same_type:
  assumes "tm_ok m" and "length (mTypeList m) + Suc (length rs) < 2 ^ 30"
    and "reqs_ok (r # rs) (length (mTypeList m))" and "\<not> is_enum (req_type r)"
    and "serve r m = Inr (p, m1)" and "serve_all rs m1 = Inr (ps, m2)"
  shows "serve r m2 = Inr (p, m2)"
proof -
  have "req_ok r m" using assms(3) by (simp add: req_ok_def)
  then obtain new where s: "tm_ok m1" "mTypeList m1 = mTypeList m @ new" "length new \<le> 1"
    "p < length (mTypeList m1)" "mTypeList m1 ! p = req_type r"
    using serve_ok [OF assms(1), of r] assms(2,5) by auto
  have "reqs_ok rs (length (mTypeList m1))"
    using assms(3) s(2) reqs_ok_mono [of rs "length (mTypeList m)"] by simp
  moreover have "length (mTypeList m1) + length rs < 2 ^ 30" using s(2,3) assms(2) by simp
  ultimately obtain new' where "tm_ok m2" "mTypeList m2 = mTypeList m1 @ new'"
    using serve_all_ok [OF s(1)] assms(6) by fastforce
  then show ?thesis
    using s(4,5) assms(4) by (intro serve_hit) (simp_all add: nth_append tm_ok_def)
qed

text \<open>
  C3: Pointer equality decides type equality: two structural requests get the same pointer if and
  only if they ask for the same kind with the same component pointers.
\<close>

theorem pointer_equality_is_type_equality:
  assumes "tm_ok m" and "length (mTypeList m) + 2 < 2 ^ 30" and "req_ok r m" and "req_ok r' m"
    and "\<not> is_enum (req_type r)"
    and "serve r m = Inr (p, m1)" and "serve r' m1 = Inr (p', m2)"
  shows "p = p' \<longleftrightarrow> r = r'"
proof -
  obtain new where s: "tm_ok m1" "mTypeList m1 = mTypeList m @ new" "length new \<le> 1"
    "p < length (mTypeList m1)" "mTypeList m1 ! p = req_type r"
    using serve_ok [OF assms(1) _ assms(3)] assms(2,6) by auto
  have "req_ok r' m1" using assms(4) s(2) by (auto simp: req_ok_def)
  then obtain new' where s': "tm_ok m2" "mTypeList m2 = mTypeList m1 @ new'"
    "p' < length (mTypeList m2)" "mTypeList m2 ! p' = req_type r'"
    using serve_ok [OF s(1), of r'] assms(2,7) s(2,3) by auto
  have p: "p < length (mTypeList m2)" "mTypeList m2 ! p = req_type r"
    using s(4,5) s'(2) by (simp_all add: nth_append)
  have "p = p' \<longleftrightarrow> req_type r = req_type r'"
    using s'(1,3,4) p assms(5) by (auto simp: tm_ok_def tm_core_def canonical_def)
  moreover have "req_type r = req_type r' \<longleftrightarrow> r = r'"
    by (cases r; cases r') auto
  ultimately show ?thesis by simp
qed

text \<open>
  A cleared manager is unusable: \<open>clear\<close> leaves a hash table of size 0, so the next request for a
  structural type divides by zero.
\<close>

theorem clear_then_structural_faults:
  "array_type (Some e) (clear m) = Inl DivByZero \<and>
   set_type (Some e) (clear m) = Inl DivByZero \<and>
   map_type (Some k) (Some e) (clear m) = Inl DivByZero \<and>
   function_type (Some e) (map Some ins) (clear m) = Inl DivByZero"
  by (simp add: array_type_def set_type_def map_type_def function_type_def deref_def
      find_or_reg_def u_mod_def clear_def)

section \<open>The properties at concrete inputs\<close>

definition demo_tm :: type_mgr where
  "demo_tm = (case TypeMgr_new of Inl _ \<Rightarrow> blank | Inr m \<Rightarrow> m)"

lemma length_prim_types [simp]: "length prim_types = 5"
  by (simp add: prim_types_def)

lemma demo_tm_ok: "tm_ok demo_tm" "mTypeList demo_tm = prim_types"
proof -
  obtain m where m: "TypeMgr_new = Inr m" "tm_ok m" "mTypeList m = prim_types"
    using TypeMgr_new_inv by blast
  have "demo_tm = m" unfolding demo_tm_def m(1) by (rule sum.case(2))
  with m show "tm_ok demo_tm" "mTypeList demo_tm = prim_types" by simp_all
qed

lemma serve_all_total_witness:
  "\<exists>ps m'. serve_all [ReqArray 2, ReqMap 4 2, ReqEnum ''e'' [(''a'', 0)]] demo_tm = Inr (ps, m') \<and>
    tm_ok m' \<and> take (length (mTypeList demo_tm)) (mTypeList m') = mTypeList demo_tm \<and>
    map (\<lambda>p. mTypeList m' ! p) ps =
      map req_type [ReqArray 2, ReqMap 4 2, ReqEnum ''e'' [(''a'', 0)]]"
  by (rule serve_all_total) (simp_all add: demo_tm_ok)

lemma demo_serve:
  "reqs_ok rs 5 \<Longrightarrow> length rs < 100 \<Longrightarrow> \<exists>ps m'. serve_all rs demo_tm = Inr (ps, m')"
  using serve_all_ok [OF demo_tm_ok(1), of rs] by (auto simp: demo_tm_ok)

lemma repeated_request_same_type_witness:
  "\<exists>p m1 ps m2. serve (ReqArray 2) demo_tm = Inr (p, m1) \<and>
    serve_all [ReqSet 3, ReqArray 4] m1 = Inr (ps, m2) \<and> serve (ReqArray 2) m2 = Inr (p, m2)"
proof -
  obtain p m1 where r1: "serve (ReqArray 2) demo_tm = Inr (p, m1)"
    using demo_serve [of "[ReqArray 2]"] by auto
  obtain ps m2 where r: "serve_all [ReqSet 3, ReqArray 4] m1 = Inr (ps, m2)"
    using demo_serve [of "[ReqArray 2, ReqSet 3, ReqArray 4]"] r1
    by (auto simp del: serve.simps) 
  have "serve (ReqArray 2) m2 = Inr (p, m2)"
    by (rule repeated_request_same_type [OF demo_tm_ok(1) _ _ _ r1 r]) (simp_all add: demo_tm_ok)
  with r1 r show ?thesis by blast
qed

lemma pointer_equality_is_type_equality_witness:
  "\<exists>p m1 p' m2. serve (ReqMap 4 2) demo_tm = Inr (p, m1) \<and> serve (ReqMap 2 4) m1 = Inr (p', m2) \<and>
    p \<noteq> p'"
proof -
  obtain ps m where "serve_all [ReqMap 4 2, ReqMap 2 4] demo_tm = Inr (ps, m)"
    using demo_serve [of "[ReqMap 4 2, ReqMap 2 4]"] by auto
  then obtain p m1 p' m2 where r: "serve (ReqMap 4 2) demo_tm = Inr (p, m1)"
    "serve (ReqMap 2 4) m1 = Inr (p', m2)"
    by (subst (asm) serve_all.simps(2)) (auto simp del: serve.simps)
  have "p = p' \<longleftrightarrow> ReqMap 4 2 = ReqMap 2 4"
    by (rule pointer_equality_is_type_equality [OF demo_tm_ok(1) _ _ _ _ r])
      (simp_all add: demo_tm_ok req_ok_def)
  with r show ?thesis by auto
qed

end
