(* ===== verification/Type_Calc.thy ===== *)
theory Type_Calc
  imports Type_Mgr
begin

text \<open>
  Casts and the typing rules of the operators: \<^verbatim>\<open>castable_to\<close> of the type classes and
  \<^verbatim>\<open>TypeMgr::calc_type1\<close>, \<^verbatim>\<open>calc_type2\<close>, \<^verbatim>\<open>calc_type3\<close> (\<^verbatim>\<open>src/compiler/TypeMgr.cc\<close>,
  \<^verbatim>\<open>include/OpCode.h\<close>).
\<close>

section \<open>Operators\<close>

datatype op_code =
    kOpCastBoolean | kOpCastInt | kOpCastFloat | kOpBitNeg | kOpLogNot | kOpUniMinus
  | kOpInc | kOpDec
  | kOpBitAnd | kOpBitOr | kOpBitXor | kOpLogAnd | kOpLogOr | kOpAdd | kOpSub | kOpMul | kOpDiv
  | kOpMod | kOpLshift | kOpRshift | kOpEqual | kOpNotEq | kOpLt | kOpLe
  | kOpIte

section \<open>Casts\<close>

fun prim_castable :: "type_id \<Rightarrow> type_id \<Rightarrow> bool" where
  "prim_castable from kBooleanType = (from \<in> {kBooleanType, kIntType, kFloatType})"
| "prim_castable from kIntType = (from \<in> {kBooleanType, kIntType})"
| "prim_castable from kFloatType = (from \<in> {kIntType, kFloatType})"
| "prim_castable from kStringType = (from = kStringType)"
| "prim_castable from _ = False"

definition castable_to :: "type_mgr \<Rightarrow> tptr \<Rightarrow> tptr \<Rightarrow> bool res" where
  "castable_to m this type =
     res_bind (deref this) (\<lambda>p. res_bind (type_at (mTypeList m) p) (\<lambda>t.
       (case t of
          PrimTy tid \<Rightarrow>
            res_bind (deref type) (\<lambda>q. res_bind (type_at (mTypeList m) q)
              (\<lambda>u. Inr (prim_castable tid (ty_id u))))
        | _ \<Rightarrow> Inr (type = this))))"

definition type_id_of :: "type_mgr \<Rightarrow> tptr \<Rightarrow> type_id res" where
  "type_id_of m this =
     res_bind (deref this) (\<lambda>p. res_bind (type_at (mTypeList m) p) (\<lambda>t. Inr (ty_id t)))"

text \<open>The short-circuit conjunction of two casts.\<close>

definition both :: "bool res \<Rightarrow> bool res \<Rightarrow> bool res" where
  "both a b = res_bind a (\<lambda>x. if x then b else Inr False)"

section \<open>Operator rules\<close>

text \<open>The result type and the types required of the operands.\<close>

definition calc_type1 :: "op_code \<Rightarrow> tptr \<Rightarrow> type_mgr \<Rightarrow> (tptr \<times> tptr) res" where
  "calc_type1 opcode op1 m = (case opcode of
     kOpCastBoolean \<Rightarrow> Inr (None, op1)
   | kOpCastInt \<Rightarrow> Inr (None, op1)
   | kOpCastFloat \<Rightarrow> Inr (None, op1)
   | kOpBitNeg \<Rightarrow> Inr (if op1 = mIntType m then (mIntType m, op1) else (None, op1))
   | kOpLogNot \<Rightarrow>
       res_bind (castable_to m op1 (mBooleanType m))
         (\<lambda>c. Inr (if c then (mBooleanType m, mBooleanType m) else (None, op1)))
   | kOpUniMinus \<Rightarrow>
       Inr (if op1 = mIntType m \<or> op1 = mFloatType m then (op1, op1) else (None, op1))
   | _ \<Rightarrow> Inl AssertFail)"

definition same_scalars :: "tptr \<Rightarrow> tptr \<Rightarrow> type_mgr \<Rightarrow> bool" where
  "same_scalars op1 op2 m \<longleftrightarrow>
     (op1 = mIntType m \<and> op2 = mIntType m) \<or> (op1 = mFloatType m \<and> op2 = mFloatType m) \<or>
     (op1 = mStringType m \<and> op2 = mStringType m)"

definition calc_type2 ::
  "op_code \<Rightarrow> tptr \<Rightarrow> tptr \<Rightarrow> type_mgr \<Rightarrow> (tptr \<times> tptr \<times> tptr) res" where
  "calc_type2 opcode op1 op2 m =
     (let int_t = mIntType m; float_t = mFloatType m; bool_t = mBooleanType m in
      if opcode \<in> {kOpBitAnd, kOpBitOr, kOpBitXor, kOpMod, kOpLshift, kOpRshift} then
        Inr (if op1 = int_t \<and> op2 = int_t then (int_t, op1, op2) else (None, op1, op2))
      else if opcode \<in> {kOpLogAnd, kOpLogOr} then
        res_bind (both (castable_to m op1 bool_t) (castable_to m op2 bool_t))
          (\<lambda>c. Inr (if c then (bool_t, bool_t, bool_t) else (None, op1, op2)))
      else if opcode \<in> {kOpAdd, kOpSub, kOpMul, kOpDiv} then
        Inr (if op1 = int_t \<and> op2 = int_t then (int_t, op1, op2)
             else if (op1 = int_t \<or> op2 = float_t) \<and> (op2 = int_t \<or> op2 = float_t)
             then (float_t, float_t, float_t)
             else (None, op1, op2))
      else if opcode \<in> {kOpEqual, kOpNotEq} then
        (if op1 = int_t \<and> op2 = float_t then Inr (bool_t, float_t, op2)
         else if op2 = int_t \<and> op1 = float_t then Inr (bool_t, op1, float_t)
         else if same_scalars op1 op2 m then Inr (bool_t, op1, op2)
         else if op1 = op2 then
           res_bind (type_id_of m op1)
             (\<lambda>tid. Inr (if tid = kEnumType then (bool_t, op1, op2) else (None, op1, op2)))
         else Inr (None, op1, op2))
      else if opcode \<in> {kOpLt, kOpLe} then
        Inr (if op1 = int_t \<and> op2 = float_t then (bool_t, float_t, op2)
             else if op2 = int_t \<and> op1 = float_t then (bool_t, op1, float_t)
             else if same_scalars op1 op2 m then (bool_t, op1, op2)
             else (None, op1, op2))
      else Inl AssertFail)"

definition calc_type3 ::
  "op_code \<Rightarrow> tptr \<Rightarrow> tptr \<Rightarrow> tptr \<Rightarrow> type_mgr \<Rightarrow> (tptr \<times> tptr \<times> tptr \<times> tptr) res" where
  "calc_type3 opcode op1 op2 op3 m =
     (if opcode = kOpIte then
        res_bind (both (castable_to m op1 (mBooleanType m)) (Inr (op2 = op3)))
          (\<lambda>c. Inr (if c then (op2, mBooleanType m, op2, op3) else (None, op1, op2, op3)))
      else Inl AssertFail)"

section \<open>Kinds of types\<close>

text \<open>What a type is, for a manager in its invariant.\<close>

definition valid_ptr :: "type_mgr \<Rightarrow> nat \<Rightarrow> bool" where
  "valid_ptr m p \<longleftrightarrow> p < length (mTypeList m)"

lemma prims_members:
  assumes "tm_ok m"
  shows "mVoidType m = Some 0" "mBooleanType m = Some 1" "mIntType m = Some 2"
    "mFloatType m = Some 3" "mStringType m = Some 4"
  using assms by (auto simp: tm_ok_def prims_ok_def)

lemma prims_at:
  assumes "tm_ok m"
  shows "mTypeList m ! 0 = PrimTy kVoidType" "mTypeList m ! 1 = PrimTy kBooleanType"
    "mTypeList m ! 2 = PrimTy kIntType" "mTypeList m ! 3 = PrimTy kFloatType"
    "mTypeList m ! 4 = PrimTy kStringType" "5 \<le> length (mTypeList m)"
proof -
  have t: "take 5 (mTypeList m) = prim_types" "5 \<le> length (mTypeList m)"
    using assms by (auto simp: tm_ok_def prims_ok_def)
  have "mTypeList m ! i = prim_types ! i" if "i < 5" for i
    using t that by (metis nth_take)
  from this [of 0] this [of 1] this [of 2] this [of 3] this [of 4] t(2)
  show "mTypeList m ! 0 = PrimTy kVoidType" "mTypeList m ! 1 = PrimTy kBooleanType"
    "mTypeList m ! 2 = PrimTy kIntType" "mTypeList m ! 3 = PrimTy kFloatType"
    "mTypeList m ! 4 = PrimTy kStringType" "5 \<le> length (mTypeList m)"
    by (simp_all add: prim_types_def)
qed

lemmas prim_facts = prims_members prims_at

text \<open>The specification of a cast: between kinds, or from a type to itself.\<close>

definition cast_spec :: "type_mgr \<Rightarrow> nat \<Rightarrow> nat \<Rightarrow> bool" where
  "cast_spec m p q =
     (case mTypeList m ! p of
        PrimTy tid \<Rightarrow> prim_castable tid (ty_id (mTypeList m ! q))
      | _ \<Rightarrow> q = p)"

lemma castable_to_ok:
  "valid_ptr m p \<Longrightarrow> valid_ptr m q \<Longrightarrow> castable_to m (Some p) (Some q) = Inr (cast_spec m p q)"
  by (cases "mTypeList m ! p")
    (simp_all add: castable_to_def deref_def type_at_def valid_ptr_def cast_spec_def)

lemma valid_prims: "tm_ok m \<Longrightarrow> p < 5 \<Longrightarrow> valid_ptr m p"
  using prims_at(6) [of m] by (simp add: valid_ptr_def)

lemma castable_boolean:
  assumes "tm_ok m" and "valid_ptr m p"
  shows "castable_to m (Some p) (mBooleanType m) = Inr (p \<in> {1, 2, 3})"
proof -
  have "cast_spec m p 1 \<longleftrightarrow> p \<in> {1, 2, 3}"
  proof (cases "p < 5")
    case True
    then consider "p = 0" | "p = 1" | "p = 2" | "p = 3" | "p = 4" by linarith
    then show ?thesis
      using prims_at [OF assms(1)] by cases (simp_all add: cast_spec_def)
  next
    case False
    then have "\<forall>t. mTypeList m ! p \<noteq> PrimTy t"
      using assms by (auto simp: tm_ok_def prims_ok_def valid_ptr_def)
    then show ?thesis
      using False by (cases "mTypeList m ! p") (auto simp: cast_spec_def)
  qed
  then show ?thesis
    using castable_to_ok [OF assms(2) valid_prims [OF assms(1), of 1]]
    by (simp add: prims_members [OF assms(1)])
qed

section \<open>Properties\<close>

lemma type_id_of_ok: "valid_ptr m p \<Longrightarrow> type_id_of m (Some p) = Inr (ty_id (mTypeList m ! p))"
  by (simp add: type_id_of_def deref_def type_at_def valid_ptr_def)

definition arith_ops :: "op_code set" where
  "arith_ops = {kOpAdd, kOpSub, kOpMul, kOpDiv}"

definition binary_ops :: "op_code set" where
  "binary_ops = {kOpBitAnd, kOpBitOr, kOpBitXor, kOpLogAnd, kOpLogOr, kOpAdd, kOpSub, kOpMul,
     kOpDiv, kOpMod, kOpLshift, kOpRshift, kOpEqual, kOpNotEq, kOpLt, kOpLe}"

text \<open>The elaborator can use an operand where a type is required: same type, or a cast exists.\<close>

definition req_met :: "type_mgr \<Rightarrow> tptr \<Rightarrow> tptr \<Rightarrow> bool" where
  "req_met m op1 req \<longleftrightarrow> req = op1 \<or> castable_to m op1 req = Inr True"

lemma castable_float:
  assumes "tm_ok m" and "valid_ptr m p"
  shows "castable_to m (Some p) (Some 3) = Inr (p \<in> {2, 3})"
proof -
  have "cast_spec m p 3 \<longleftrightarrow> p \<in> {2, 3}"
  proof (cases "p < 5")
    case True
    then consider "p = 0" | "p = 1" | "p = 2" | "p = 3" | "p = 4" by linarith
    then show ?thesis
      using prims_at [OF assms(1)] by cases (simp_all add: cast_spec_def)
  next
    case False
    then have "\<forall>t. mTypeList m ! p \<noteq> PrimTy t"
      using assms by (auto simp: tm_ok_def prims_ok_def valid_ptr_def)
    then show ?thesis
      using False by (cases "mTypeList m ! p") (auto simp: cast_spec_def)
  qed
  then show ?thesis
    using castable_to_ok [OF assms(2) valid_prims [OF assms(1), of 3]] by simp
qed

text \<open>The rules over valid pointers, with the members and the casts evaluated.\<close>

definition truthy :: "nat \<Rightarrow> bool" where
  "truthy p \<longleftrightarrow> p \<in> {1, 2, 3}"

definition type2_rule :: "type_mgr \<Rightarrow> op_code \<Rightarrow> nat \<Rightarrow> nat \<Rightarrow> (nat \<times> nat \<times> nat) option" where
  "type2_rule m opcode p q =
     (if opcode \<in> {kOpLogAnd, kOpLogOr} then
        (if truthy p \<and> truthy q then Some (1, 1, 1) else None)
      else if opcode \<in> arith_ops then
        (if p = 2 \<and> q = 2 then Some (2, 2, 2) else if q = 3 then Some (3, 3, 3) else None)
      else if opcode \<in> {kOpEqual, kOpNotEq, kOpLt, kOpLe} then
        (if {p, q} = {2, 3} then Some (1, 3, 3)
         else if p = q \<and> (p \<in> {2, 3, 4} \<or>
           opcode \<in> {kOpEqual, kOpNotEq} \<and> ty_id (mTypeList m ! p) = kEnumType)
         then Some (1, p, q) else None)
      else if p = 2 \<and> q = 2 then Some (2, 2, 2) else None)"

definition rule_result :: "nat \<Rightarrow> nat \<Rightarrow> (nat \<times> nat \<times> nat) option \<Rightarrow> tptr \<times> tptr \<times> tptr" where
  "rule_result p q r =
     (case r of None \<Rightarrow> (None, Some p, Some q) | Some (t, a, b) \<Rightarrow> (Some t, Some a, Some b))"

lemma castable_truthy:
  "tm_ok m \<Longrightarrow> valid_ptr m p \<Longrightarrow> castable_to m (Some p) (mBooleanType m) = Inr (truthy p)"
  by (simp add: castable_boolean truthy_def)

lemma calc_type2_logical:
  assumes "tm_ok m" and "valid_ptr m p" and "valid_ptr m q" and "opcode \<in> {kOpLogAnd, kOpLogOr}"
  shows "calc_type2 opcode (Some p) (Some q) m = Inr (rule_result p q (type2_rule m opcode p q))"
proof -
  note cast = castable_truthy [OF assms(1,2), unfolded prims_members(2) [OF assms(1)]]
    castable_truthy [OF assms(1,3), unfolded prims_members(2) [OF assms(1)]]
  have "calc_type2 opcode (Some p) (Some q) m =
    res_bind (both (castable_to m (Some p) (Some 1)) (castable_to m (Some q) (Some 1)))
      (\<lambda>c. Inr (if c then (Some 1, Some 1, Some 1) else (None, Some p, Some q)))"
    using assms(4)
    by (elim insertE emptyE) (simp_all add: calc_type2_def Let_def prims_members [OF assms(1)]
        del: One_nat_def)
  moreover have "type2_rule m opcode p q = (if truthy p \<and> truthy q then Some (1, 1, 1) else None)"
    using assms(4) by (simp add: type2_rule_def)
  ultimately show ?thesis
    using cast by (simp add: both_def rule_result_def)
qed

lemma calc_type2_numeric:
  assumes "tm_ok m"
    and "opcode \<in> arith_ops \<union> {kOpBitAnd, kOpBitOr, kOpBitXor, kOpMod, kOpLshift, kOpRshift}"
  shows "calc_type2 opcode (Some p) (Some q) m = Inr (rule_result p q (type2_rule m opcode p q))"
  using assms(2) unfolding arith_ops_def Un_iff
  by (elim disjE insertE emptyE)
    (simp_all add: calc_type2_def Let_def type2_rule_def rule_result_def arith_ops_def
      prims_members [OF assms(1)])

lemma calc_type2_compare:
  assumes "tm_ok m" and "valid_ptr m p" and "opcode \<in> {kOpEqual, kOpNotEq, kOpLt, kOpLe}"
  shows "calc_type2 opcode (Some p) (Some q) m = Inr (rule_result p q (type2_rule m opcode p q))"
proof (cases "p = q")
  case True
  have "ty_id (mTypeList m ! p) = kEnumType \<Longrightarrow> p \<notin> {2, 3, 4}"
    using prims_at [OF assms(1)] by auto
  then show ?thesis
    using assms(3) True
    by (elim insertE emptyE)
      (simp_all add: calc_type2_def Let_def rule_result_def same_scalars_def type2_rule_def arith_ops_def
        type_id_of_ok [OF assms(2) [unfolded True]] prims_members [OF assms(1)])
next
  case False
  then show ?thesis
    using assms(3)
    by (elim insertE emptyE)
      (simp_all add: calc_type2_def Let_def rule_result_def same_scalars_def type2_rule_def arith_ops_def
        prims_members [OF assms(1)] doubleton_eq_iff)
qed

lemma calc_type2_rule:
  assumes "tm_ok m" and "valid_ptr m p" and "valid_ptr m q" and "opcode \<in> binary_ops"
  shows "calc_type2 opcode (Some p) (Some q) m = Inr (rule_result p q (type2_rule m opcode p q))"
proof -
  consider "opcode \<in> {kOpLogAnd, kOpLogOr}"
    | "opcode \<in> arith_ops \<union> {kOpBitAnd, kOpBitOr, kOpBitXor, kOpMod, kOpLshift, kOpRshift}"
    | "opcode \<in> {kOpEqual, kOpNotEq, kOpLt, kOpLe}"
    using assms(4) by (auto simp: binary_ops_def arith_ops_def)
  then show ?thesis
    using calc_type2_logical [OF assms(1-3)] calc_type2_numeric [OF assms(1)]
      calc_type2_compare [OF assms(1,2)]
    by cases blast+
qed

text \<open>
  C32: The typing rules of the binary operators never fault on valid types of a well-formed manager
  and never require the impossible, with one exception: whenever they give a result type, each
  operand has the required type or can be cast to it, unless the operator is arithmetic, the
  second operand is \<^verbatim>\<open>float\<close> and the first is neither \<^verbatim>\<open>int\<close> nor \<^verbatim>\<open>float\<close>.
\<close>

theorem calc_type2_requirements:
  assumes "tm_ok m" and "valid_ptr m p" and "valid_ptr m q" and "opcode \<in> binary_ops"
  shows "\<exists>t a b. calc_type2 opcode (Some p) (Some q) m = Inr (t, a, b) \<and>
    (t \<noteq> None \<longrightarrow>
      (req_met m (Some p) a \<and> req_met m (Some q) b \<longleftrightarrow>
        \<not> (opcode \<in> arith_ops \<and> q = 3 \<and> p \<notin> {2, 3})))"
proof -
  note cast = castable_truthy [OF assms(1,2)] castable_truthy [OF assms(1,3)]
    castable_float [OF assms(1,2)] castable_float [OF assms(1,3)]
  have met: "req_met m (Some p) (Some 1) \<longleftrightarrow> truthy p" "req_met m (Some q) (Some 1) \<longleftrightarrow> truthy q"
    "req_met m (Some p) (Some 3) \<longleftrightarrow> p \<in> {2, 3}" "req_met m (Some q) (Some 3) \<longleftrightarrow> q \<in> {2, 3}"
    using cast by (auto simp: req_met_def prims_members [OF assms(1)] truthy_def)
  have same: "req_met m x x" for x by (simp add: req_met_def)
  show ?thesis
    using met same
    by (auto simp: calc_type2_rule [OF assms] rule_result_def type2_rule_def doubleton_eq_iff
        arith_ops_def simp del: One_nat_def)
qed

text \<open>
  The rule for \<^verbatim>\<open>+\<close>, \<^verbatim>\<open>-\<close>, \<^verbatim>\<open>*\<close> and \<^verbatim>\<open>/\<close> is not the one its comment states (operands \<^verbatim>\<open>int\<close> or
  \<^verbatim>\<open>float\<close>, result \<^verbatim>\<open>float\<close> when one is): a second operand of type \<^verbatim>\<open>float\<close> makes every first operand
  acceptable, strings and containers included, and a first operand of type \<^verbatim>\<open>float\<close> is refused with
  an \<^verbatim>\<open>int\<close>.
\<close>

theorem arithmetic_rule:
  assumes "tm_ok m" and "valid_ptr m p" and "valid_ptr m q" and "opcode \<in> arith_ops"
  shows "calc_type2 opcode (Some p) (Some q) m = Inr
    (if Some p = mIntType m \<and> Some q = mIntType m then (mIntType m, Some p, Some q)
     else if Some q = mFloatType m then (mFloatType m, mFloatType m, mFloatType m)
     else (None, Some p, Some q))"
proof -
  have "opcode \<in> binary_ops" using assms(4) by (auto simp: arith_ops_def binary_ops_def)
  from calc_type2_rule [OF assms(1-3) this] show ?thesis
    using assms(4)
    by (auto simp: rule_result_def type2_rule_def prims_members [OF assms(1)] arith_ops_def)
qed

text \<open>
  The rules of the comparisons and of the logical and bitwise operators are symmetric:
  exchanging the operands exchanges the required types and leaves the result type.
\<close>

theorem calc_type2_symmetric:
  assumes "tm_ok m" and "valid_ptr m p" and "valid_ptr m q" and "opcode \<in> binary_ops - arith_ops"
    and "calc_type2 opcode (Some p) (Some q) m = Inr (t, a, b)"
  shows "calc_type2 opcode (Some q) (Some p) m = Inr (t, b, a)"
proof -
  have op: "opcode \<in> binary_ops" and na: "opcode \<notin> arith_ops" using assms(4) by simp_all
  have sym: "type2_rule m opcode q p = map_option (\<lambda>(t, a, b). (t, b, a)) (type2_rule m opcode p q)"
    using na by (cases "p = q") (simp_all add: type2_rule_def insert_commute conj_commute)
  have "rule_result p q (type2_rule m opcode p q) = (t, a, b)"
    using assms(5) calc_type2_rule [OF assms(1-3) op] by simp
  then have "rule_result q p (type2_rule m opcode q p) = (t, b, a)"
    unfolding sym by (cases "type2_rule m opcode p q") (auto simp: rule_result_def)
  then show ?thesis using calc_type2_rule [OF assms(1,3,2) op] by simp
qed

text \<open>
  The conditional expression is typed by equality of its branches: it has the type of the
  branches when they are the same pointer and the condition is \<^verbatim>\<open>boolean\<close>, \<^verbatim>\<open>int\<close> or \<^verbatim>\<open>float\<close>, and no
  type otherwise; every other operator fails the assertion.
\<close>

theorem calc_type3_rule:
  assumes "tm_ok m" and "valid_ptr m p"
  shows "calc_type3 kOpIte (Some p) op2 op3 m = Inr
      (if Some p \<in> {mBooleanType m, mIntType m, mFloatType m} \<and> op2 = op3
       then (op2, mBooleanType m, op2, op3) else (None, Some p, op2, op3)) \<and>
    (\<forall>opcode. opcode = kOpIte \<or> calc_type3 opcode (Some p) op2 op3 m = Inl AssertFail)"
  using castable_boolean [OF assms]
  by (auto simp: calc_type3_def both_def prims_members [OF assms(1)])

section \<open>The properties at concrete inputs\<close>

lemma demo_valid: "p < 5 \<Longrightarrow> valid_ptr demo_tm p"
  by (rule valid_prims [OF demo_tm_ok(1)])

lemma calc_type2_requirements_witness:
  "\<exists>t a b. calc_type2 kOpAdd (Some 4) (Some 3) demo_tm = Inr (t, a, b) \<and>
    (t \<noteq> None \<longrightarrow> \<not> (req_met demo_tm (Some 4) a \<and> req_met demo_tm (Some 3) b))"
  using calc_type2_requirements [OF demo_tm_ok(1), of 4 3 kOpAdd]
  by (auto simp: demo_valid binary_ops_def arith_ops_def)

lemma arithmetic_rule_witness:
  "calc_type2 kOpSub (Some 3) (Some 2) demo_tm = Inr (None, Some 3, Some 2) \<and>
   calc_type2 kOpSub (Some 4) (Some 3) demo_tm = Inr (Some 3, Some 3, Some 3)"
  using arithmetic_rule [OF demo_tm_ok(1), of 3 2 kOpSub]
    arithmetic_rule [OF demo_tm_ok(1), of 4 3 kOpSub]
  by (simp add: demo_valid arith_ops_def prims_members [OF demo_tm_ok(1)])

lemma calc_type2_symmetric_witness:
  "calc_type2 kOpLt (Some 3) (Some 2) demo_tm = Inr (Some 1, Some 3, Some 3)"
  by (rule calc_type2_symmetric [OF demo_tm_ok(1)])
    (simp_all add: demo_valid binary_ops_def arith_ops_def calc_type2_def Let_def
      prims_members [OF demo_tm_ok(1)])

lemma calc_type3_rule_witness:
  "calc_type3 kOpIte (Some 2) (Some 4) (Some 4) demo_tm = Inr (Some 4, Some 1, Some 4, Some 4)"
  using calc_type3_rule [OF demo_tm_ok(1), of 2 "Some 4" "Some 4"]
  by (simp add: demo_valid prims_members [OF demo_tm_ok(1)])

end
