(* ===== verification/Ir_Data.thy ===== *)
theory Ir_Data
  imports Type_Calc Ymsl_Double
begin

text \<open>
  The intermediate representation: nodes and handles (\<^verbatim>\<open>include/IrNode.h\<close>, \<^verbatim>\<open>include/IrHandle.h\<close>,
  \<^verbatim>\<open>src/ir/node\<close>, \<^verbatim>\<open>src/ir/handle\<close>), the constructors of \<^verbatim>\<open>IrMgr\<close> with their assertions
  (\<^verbatim>\<open>src/ir/IrMgr_node.cc\<close>, \<^verbatim>\<open>src/ir/IrMgr_handle.cc\<close>). Nodes that other nodes refer to by
  identity, labels and function calls, carry a number; a value that may be \<^verbatim>\<open>NULL\<close> is an option.
\<close>

section \<open>Nodes and handles\<close>

text \<open>
  The type of a handle of a named type is immutable, so the name it answers is kept with it. The
  member of a member reference is never initialised in the source, so there is nothing to keep.
\<close>

datatype ir_node =
    UniOp op_code tptr ir_node
  | BinOp op_code tptr ir_node ir_node
  | TriOp op_code tptr ir_node ir_node ir_node
  | Load tptr ir_handle
  | Store ir_handle ir_node
  | InplaceUniOp op_code ir_handle
  | InplaceBinOp op_code ir_handle ir_node
  | FuncCall nat "ir_node list"
  | Return "ir_node option"
  | Jump nat
  | BranchTrue nat ir_node
  | BranchFalse nat ir_node
  | Label nat
  | Halt
and ir_handle =
    ScopeHandle string nat
  | GlobalVarHandle string tptr nat nat
  | LocalVarHandle string tptr nat nat
  | FuncHandle string tptr nat nat
  | BooleanConst string bool
  | IntConst string i32
  | FloatConst string f64
  | StringConst string string
  | LabelHandle string nat
  | TypeHandle string tptr nat
  | ArrayRef ir_node ir_node
  | MemberRef ir_node

datatype ir_type =
    kUniOp | kBinOp | kTriOp | kLoad | kStore | kInplaceUniOp | kInplaceBinOp | kFuncCall
  | kReturn | kJump | kBranchTrue | kBranchFalse | kLabel | kHalt

datatype handle_type =
    hScope | hGlobalVar | hLocalVar | hFunction | hBooleanConst | hIntConst | hFloatConst
  | hStringConst | hLabel | hNamedType | hArrayRef | hMemberRef | hMethodRef

section \<open>Accessors of handles\<close>

fun handle_type_of :: "ir_handle \<Rightarrow> handle_type" where
  "handle_type_of (ScopeHandle _ _) = hScope"
| "handle_type_of (GlobalVarHandle _ _ _ _) = hGlobalVar"
| "handle_type_of (LocalVarHandle _ _ _ _) = hLocalVar"
| "handle_type_of (FuncHandle _ _ _ _) = hFunction"
| "handle_type_of (BooleanConst _ _) = hBooleanConst"
| "handle_type_of (IntConst _ _) = hIntConst"
| "handle_type_of (FloatConst _ _) = hFloatConst"
| "handle_type_of (StringConst _ _) = hStringConst"
| "handle_type_of (LabelHandle _ _) = hLabel"
| "handle_type_of (TypeHandle _ _ _) = hNamedType"
| "handle_type_of (ArrayRef _ _) = hArrayRef"
| "handle_type_of (MemberRef _) = hMemberRef"

fun handle_name :: "ir_handle \<Rightarrow> string" where
  "handle_name (ScopeHandle name _) = name"
| "handle_name (GlobalVarHandle name _ _ _) = name"
| "handle_name (LocalVarHandle name _ _ _) = name"
| "handle_name (FuncHandle name _ _ _) = name"
| "handle_name (BooleanConst name _) = name"
| "handle_name (IntConst name _) = name"
| "handle_name (FloatConst name _) = name"
| "handle_name (StringConst name _) = name"
| "handle_name (LabelHandle name _) = name"
| "handle_name (TypeHandle name _ _) = name"
| "handle_name (ArrayRef _ _) = ''''"
| "handle_name (MemberRef _) = ''''"

fun handle_is_static :: "ir_handle \<Rightarrow> bool" where
  "handle_is_static (BooleanConst _ _) = True"
| "handle_is_static (IntConst _ _) = True"
| "handle_is_static (FloatConst _ _) = True"
| "handle_is_static (StringConst _ _) = True"
| "handle_is_static _ = False"

fun handle_scope :: "ir_handle \<Rightarrow> nat res" where
  "handle_scope (ScopeHandle _ scope) = Inr scope"
| "handle_scope (TypeHandle _ _ scope) = Inr scope"
| "handle_scope _ = Inl AssertFail"

fun handle_value_type :: "ir_handle \<Rightarrow> tptr res" where
  "handle_value_type (GlobalVarHandle _ type _ _) = Inr type"
| "handle_value_type (LocalVarHandle _ type _ _) = Inr type"
| "handle_value_type (FuncHandle _ type _ _) = Inr type"
| "handle_value_type _ = Inl AssertFail"

fun handle_local_index :: "ir_handle \<Rightarrow> nat res" where
  "handle_local_index (GlobalVarHandle _ _ _ local_index) = Inr local_index"
| "handle_local_index (LocalVarHandle _ _ _ local_index) = Inr local_index"
| "handle_local_index (FuncHandle _ _ _ local_index) = Inr local_index"
| "handle_local_index _ = Inl AssertFail"

fun handle_named_type :: "ir_handle \<Rightarrow> tptr" where
  "handle_named_type (TypeHandle _ type _) = type"
| "handle_named_type _ = None"

section \<open>Accessors of nodes\<close>

fun node_type :: "ir_node \<Rightarrow> ir_type" where
  "node_type (UniOp _ _ _) = kUniOp"
| "node_type (BinOp _ _ _ _) = kBinOp"
| "node_type (TriOp _ _ _ _ _) = kTriOp"
| "node_type (Load _ _) = kLoad"
| "node_type (Store _ _) = kStore"
| "node_type (InplaceUniOp _ _) = kInplaceUniOp"
| "node_type (InplaceBinOp _ _ _) = kInplaceBinOp"
| "node_type (FuncCall _ _) = kFuncCall"
| "node_type (Return _) = kReturn"
| "node_type (Jump _) = kJump"
| "node_type (BranchTrue _ _) = kBranchTrue"
| "node_type (BranchFalse _ _) = kBranchFalse"
| "node_type (Label _) = kLabel"
| "node_type Halt = kHalt"

text \<open>The type given to the base class; only expressions other than calls have one.\<close>

fun value_type :: "ir_node \<Rightarrow> tptr" where
  "value_type (UniOp _ type _) = type"
| "value_type (BinOp _ type _ _) = type"
| "value_type (TriOp _ type _ _ _) = type"
| "value_type (Load type _) = type"
| "value_type _ = None"

fun is_static :: "ir_node \<Rightarrow> bool" where
  "is_static (UniOp _ _ a) = is_static a"
| "is_static (BinOp _ _ a b) = (is_static a \<and> is_static b)"
| "is_static (TriOp _ _ a b c) = (is_static a \<and> is_static b \<and> is_static c)"
| "is_static (Load _ h) = handle_is_static h"
| "is_static (Store _ _) = False"
| "is_static (InplaceUniOp _ _) = False"
| "is_static (InplaceBinOp _ _ _) = False"
| "is_static (FuncCall _ _) = False"
| "is_static (Return None) = True"
| "is_static (Return (Some a)) = is_static a"
| "is_static (Jump _) = True"
| "is_static (BranchTrue _ _) = True"
| "is_static (BranchFalse _ _) = True"
| "is_static (Label _) = True"
| "is_static Halt = True"

section \<open>Construction\<close>

text \<open>A type pointer that is dereferenced.\<close>

definition ptr_type_id :: "ty list \<Rightarrow> tptr \<Rightarrow> type_id res" where
  "ptr_type_id tys p = res_bind (deref p) (\<lambda>q. res_bind (type_at tys q) (\<lambda>t. Inr (ty_id t)))"

definition not_null :: "'a option \<Rightarrow> 'a res" where
  "not_null p = (case p of None \<Rightarrow> Inl AssertFail | Some x \<Rightarrow> Inr x)"

definition new_UniOp :: "op_code \<Rightarrow> tptr \<Rightarrow> ir_node option \<Rightarrow> ir_node res" where
  "new_UniOp opcode type opr1 =
     res_bind (assert_cond (type \<noteq> None)) (\<lambda>_.
     res_bind (not_null opr1) (\<lambda>a. Inr (UniOp opcode type a)))"

definition new_BinOp :: "op_code \<Rightarrow> tptr \<Rightarrow> ir_node option \<Rightarrow> ir_node option \<Rightarrow> ir_node res" where
  "new_BinOp opcode type opr1 opr2 =
     res_bind (assert_cond (type \<noteq> None)) (\<lambda>_.
     res_bind (not_null opr1) (\<lambda>a. res_bind (not_null opr2) (\<lambda>b. Inr (BinOp opcode type a b))))"

definition new_TriOp ::
  "op_code \<Rightarrow> tptr \<Rightarrow> ir_node option \<Rightarrow> ir_node option \<Rightarrow> ir_node option \<Rightarrow> ir_node res" where
  "new_TriOp opcode type opr1 opr2 opr3 =
     res_bind (assert_cond (type \<noteq> None)) (\<lambda>_.
     res_bind (not_null opr1) (\<lambda>a. res_bind (not_null opr2) (\<lambda>b. res_bind (not_null opr3)
       (\<lambda>c. Inr (TriOp opcode type a b c)))))"

definition load_value_type :: "type_mgr \<Rightarrow> ir_handle \<Rightarrow> tptr res" where
  "load_value_type m addr = (case addr of
     LocalVarHandle _ _ _ _ \<Rightarrow> handle_value_type addr
   | GlobalVarHandle _ _ _ _ \<Rightarrow> handle_value_type addr
   | MemberRef _ \<Rightarrow> handle_value_type addr
   | FuncHandle _ _ _ _ \<Rightarrow> handle_value_type addr
   | BooleanConst _ _ \<Rightarrow> Inr (mBooleanType m)
   | IntConst _ _ \<Rightarrow> Inr (mIntType m)
   | FloatConst _ _ \<Rightarrow> Inr (mFloatType m)
   | StringConst _ _ \<Rightarrow> Inr (mStringType m)
   | ArrayRef base _ \<Rightarrow>
       res_bind (deref (value_type base)) (\<lambda>p. res_bind (type_at (mTypeList m) p)
         (\<lambda>t. res_bind (elem_type t) (\<lambda>e. Inr (Some e))))
   | _ \<Rightarrow> Inl AssertFail)"

definition new_Load :: "type_mgr \<Rightarrow> ir_handle option \<Rightarrow> ir_node res" where
  "new_Load m addr =
     res_bind (not_null addr) (\<lambda>h. res_bind (load_value_type m h) (\<lambda>type.
       res_bind (assert_cond (type \<noteq> None)) (\<lambda>_. Inr (Load type h))))"

definition new_Store :: "ir_handle option \<Rightarrow> ir_node option \<Rightarrow> ir_node res" where
  "new_Store addr val =
     res_bind (not_null addr) (\<lambda>h. res_bind (not_null val) (\<lambda>a. Inr (Store h a)))"

definition new_InplaceUniOp :: "op_code \<Rightarrow> ir_handle option \<Rightarrow> ir_node res" where
  "new_InplaceUniOp opcode lhs_addr =
     res_bind (not_null lhs_addr) (\<lambda>h. Inr (InplaceUniOp opcode h))"

definition new_InplaceBinOp ::
  "op_code \<Rightarrow> ir_handle option \<Rightarrow> ir_node option \<Rightarrow> ir_node res" where
  "new_InplaceBinOp opcode lhs_addr opr =
     res_bind (not_null lhs_addr) (\<lambda>h. res_bind (not_null opr)
       (\<lambda>a. Inr (InplaceBinOp opcode h a)))"

definition new_BranchTrue :: "nat \<Rightarrow> ir_node option \<Rightarrow> ir_node res" where
  "new_BranchTrue label cond = res_bind (not_null cond) (\<lambda>c. Inr (BranchTrue label c))"

definition new_BranchFalse :: "nat \<Rightarrow> ir_node option \<Rightarrow> ir_node res" where
  "new_BranchFalse label cond = res_bind (not_null cond) (\<lambda>c. Inr (BranchFalse label c))"

definition new_TypeHandle :: "ty list \<Rightarrow> nat \<Rightarrow> nat \<Rightarrow> ir_handle res" where
  "new_TypeHandle tys type scope =
     res_bind (type_at tys type) (\<lambda>t. res_bind (type_name t)
       (\<lambda>name. Inr (TypeHandle name (Some type) scope)))"

end
