(* ===== verification/Ast.thy ===== *)
theory Ast
  imports Ir_Data
begin

text \<open>
  The syntax tree (\<^verbatim>\<open>include/AstExpr.h\<close>, \<^verbatim>\<open>include/AstType.h\<close>, \<^verbatim>\<open>include/AstStatement.h\<close> and the classes
  under \<^verbatim>\<open>src/ast\<close>), as the parser hands it to the elaborator. A symbol is its string, file
  positions are left out; a child that the grammar may leave \<^verbatim>\<open>NULL\<close> is an option.
\<close>

section \<open>Expressions\<close>

datatype ast_expr =
    TrueE
  | FalseE
  | IntConstE i32
  | FloatConstE f64
  | StringConstE string
  | SymbolE string
  | ArrayRefE ast_expr ast_expr
  | MemberRefE ast_expr string
  | UniOpE op_code ast_expr
  | BinOpE op_code ast_expr ast_expr
  | IteOpE ast_expr ast_expr ast_expr
  | FuncCallE ast_expr "ast_expr list"

section \<open>Types\<close>

datatype ast_type =
    PrimT type_id
  | NamedT ast_expr
  | ArrayT ast_type
  | SetT ast_type
  | MapT ast_type ast_type

section \<open>Statements\<close>

text \<open>
  Parameters are name, type and default value; an enumerator is a name and a value; a case has no
  label when it is the default.
\<close>

datatype ast_stmt =
    BlockStmt "ast_stmt list"
  | Break
  | ConstDecl string ast_type ast_expr
  | Continue
  | Decr ast_expr
  | DoWhile ast_stmt ast_expr
  | EnumDecl string "(string \<times> ast_expr option) list"
  | Assignment ast_expr ast_expr
  | InplaceOp op_code ast_expr ast_expr
  | ExprStmt ast_expr
  | For ast_stmt ast_expr ast_stmt ast_stmt
  | FuncDecl string ast_type "(string \<times> ast_type \<times> ast_expr option) list" ast_stmt
  | Goto string
  | If ast_expr ast_stmt "ast_stmt option"
  | Import string "string option"
  | Incr ast_expr
  | LabelStmt string
  | NullStmt
  | ReturnStmt "ast_expr option"
  | Switch ast_expr "(ast_expr option \<times> ast_stmt) list"
  | Toplevel "ast_stmt list" "ast_stmt list"
  | VarDecl string ast_type "ast_expr option"
  | While ast_expr ast_stmt

end
