(* ===== verification/Ir_Interp.thy ===== *)
theory Ir_Interp
  imports Ir_Data
begin

text \<open>
  Evaluation of constant expressions, \<^verbatim>\<open>IrInterp\<close> (\<^verbatim>\<open>include/IrInterp.h\<close>,
  \<^verbatim>\<open>src/ir/IrInterp.cc\<close>): three functions, one per type, that call each other. The specification
  is one evaluator of dynamically typed values; the functions implement it on well-typed nodes.
\<close>

section \<open>The three evaluators\<close>

definition res_map :: "('a \<Rightarrow> 'b) \<Rightarrow> 'a res \<Rightarrow> 'b res" where
  "res_map f r = res_bind r (\<lambda>x. Inr (f x))"

definition res_map2 :: "('a \<Rightarrow> 'b \<Rightarrow> 'c res) \<Rightarrow> 'a res \<Rightarrow> 'b res \<Rightarrow> 'c res" where
  "res_map2 f r1 r2 = res_bind r1 (\<lambda>x. res_bind r2 (\<lambda>y. f x y))"

fun load_boolean :: "ir_handle \<Rightarrow> bool res" where
  "load_boolean (BooleanConst _ v) = Inr v"
| "load_boolean _ = Inl AssertFail"

fun load_int :: "ir_handle \<Rightarrow> i32 res" where
  "load_int (IntConst _ v) = Inr v"
| "load_int _ = Inl AssertFail"

fun load_float :: "ir_handle \<Rightarrow> f64 res" where
  "load_float (FloatConst _ v) = Inr v"
| "load_float _ = Inl AssertFail"

text \<open>The operators of C++ on the operands' values; \<open>None\<close> is a case that asserts.\<close>

definition int_binop :: "op_code \<Rightarrow> (i32 \<Rightarrow> i32 \<Rightarrow> i32 res) option" where
  "int_binop op = (case op of
     kOpBitAnd \<Rightarrow> Some (\<lambda>a b. Inr (a AND b))
   | kOpBitOr \<Rightarrow> Some (\<lambda>a b. Inr (a OR b))
   | kOpBitXor \<Rightarrow> Some (\<lambda>a b. Inr (a XOR b))
   | kOpAdd \<Rightarrow> Some c_add
   | kOpSub \<Rightarrow> Some c_sub
   | kOpMul \<Rightarrow> Some c_mul
   | kOpDiv \<Rightarrow> Some c_div
   | kOpMod \<Rightarrow> Some c_mod
   | kOpLshift \<Rightarrow> Some c_shl
   | kOpRshift \<Rightarrow> Some c_shr
   | _ \<Rightarrow> None)"

definition float_binop :: "op_code \<Rightarrow> (f64 \<Rightarrow> f64 \<Rightarrow> f64) option" where
  "float_binop op = (case op of
     kOpAdd \<Rightarrow> Some f_add
   | kOpSub \<Rightarrow> Some f_sub
   | kOpMul \<Rightarrow> Some f_mul
   | kOpDiv \<Rightarrow> Some f_div
   | _ \<Rightarrow> None)"

text \<open>Comparisons of two values of one type.\<close>

definition boolean_cmp :: "op_code \<Rightarrow> (bool \<Rightarrow> bool \<Rightarrow> bool) option" where
  "boolean_cmp op = (case op of
     kOpEqual \<Rightarrow> Some (\<lambda>a b. a = b)
   | kOpNotEq \<Rightarrow> Some (\<lambda>a b. a \<noteq> b)
   | _ \<Rightarrow> None)"

definition int_cmp :: "op_code \<Rightarrow> (i32 \<Rightarrow> i32 \<Rightarrow> bool) option" where
  "int_cmp op = (case op of
     kOpEqual \<Rightarrow> Some (\<lambda>a b. a = b)
   | kOpNotEq \<Rightarrow> Some (\<lambda>a b. a \<noteq> b)
   | kOpLt \<Rightarrow> Some (\<lambda>a b. sint a < sint b)
   | kOpLe \<Rightarrow> Some (\<lambda>a b. sint a \<le> sint b)
   | _ \<Rightarrow> None)"

definition float_cmp :: "op_code \<Rightarrow> (f64 \<Rightarrow> f64 \<Rightarrow> bool) option" where
  "float_cmp op = (case op of
     kOpEqual \<Rightarrow> Some f_eq
   | kOpNotEq \<Rightarrow> Some (\<lambda>a b. \<not> f_eq a b)
   | kOpLt \<Rightarrow> Some f_lt
   | kOpLe \<Rightarrow> Some f_le
   | _ \<Rightarrow> None)"

definition cmp_op :: "op_code \<Rightarrow> bool" where
  "cmp_op op \<longleftrightarrow> op \<in> {kOpEqual, kOpNotEq, kOpLt, kOpLe}"

definition apply_cmp :: "('a \<Rightarrow> 'a \<Rightarrow> bool) option \<Rightarrow> 'a res \<Rightarrow> 'a res \<Rightarrow> bool res" where
  "apply_cmp f r1 r2 =
     (case f of
        None \<Rightarrow> Inl AssertFail
      | Some p \<Rightarrow> res_map2 (\<lambda>x y. Inr (p x y)) r1 r2)"

fun eval_boolean :: "ty list \<Rightarrow> ir_node \<Rightarrow> bool res"
  and eval_int :: "ty list \<Rightarrow> ir_node \<Rightarrow> i32 res"
  and eval_float :: "ty list \<Rightarrow> ir_node \<Rightarrow> f64 res" where
  "eval_boolean tys (UniOp op ty a) =
     (if op = kOpCastBoolean then
        res_bind (ptr_type_id tys (value_type a)) (\<lambda>tid.
          if tid = kBooleanType then eval_boolean tys a
          else if tid = kIntType then res_map (\<lambda>v. v \<noteq> 0) (eval_int tys a)
          else if tid = kFloatType then res_map (\<lambda>v. \<not> f_eq v f_zero) (eval_float tys a)
          else Inl AssertFail)
      else if op = kOpLogNot then res_map Not (eval_boolean tys a)
      else Inl AssertFail)"
| "eval_boolean tys (BinOp op ty a b) =
     (if op = kOpLogAnd then
        res_bind (eval_boolean tys a) (\<lambda>x. if x then eval_boolean tys b else Inr False)
      else if op = kOpLogOr then
        res_bind (eval_boolean tys a) (\<lambda>x. if x then Inr True else eval_boolean tys b)
      else if cmp_op op then
        res_bind (ptr_type_id tys (value_type a)) (\<lambda>tid.
          if tid = kBooleanType then
            apply_cmp (boolean_cmp op) (eval_boolean tys a) (eval_boolean tys b)
          else if tid = kIntType then apply_cmp (int_cmp op) (eval_int tys a) (eval_int tys b)
          else if tid = kFloatType then
            apply_cmp (float_cmp op) (eval_float tys a) (eval_float tys b)
          else Inl AssertFail)
      else Inl AssertFail)"
| "eval_boolean tys (TriOp op ty a b c) =
     (if op = kOpIte then
        res_bind (eval_boolean tys a) (\<lambda>x. if x then eval_boolean tys b else eval_boolean tys c)
      else Inl AssertFail)"
| "eval_boolean tys (Load ty h) = load_boolean h"
| "eval_boolean tys _ = Inl AssertFail"
| "eval_int tys (UniOp op ty a) =
     (if op = kOpCastInt then
        res_bind (ptr_type_id tys (value_type a)) (\<lambda>tid.
          if tid = kBooleanType then res_map i32_of_bool (eval_boolean tys a)
          else if tid = kIntType then eval_int tys a
          else Inl AssertFail)
      else if op = kOpBitNeg then res_map NOT (eval_int tys a)
      else if op = kOpUniMinus then res_bind (eval_int tys a) c_neg
      else Inl AssertFail)"
| "eval_int tys (BinOp op ty a b) =
     (case int_binop op of
        None \<Rightarrow> Inl AssertFail
      | Some f \<Rightarrow> res_map2 f (eval_int tys a) (eval_int tys b))"
| "eval_int tys (TriOp op ty a b c) =
     (if op = kOpIte then
        res_bind (eval_boolean tys a) (\<lambda>x. if x then eval_int tys b else eval_int tys c)
      else Inl AssertFail)"
| "eval_int tys (Load ty h) = load_int h"
| "eval_int tys _ = Inl AssertFail"
| "eval_float tys (UniOp op ty a) =
     (if op = kOpCastFloat then
        res_bind (ptr_type_id tys (value_type a)) (\<lambda>tid.
          if tid = kBooleanType then
            res_map (\<lambda>v. if v then f_one else f_zero) (eval_boolean tys a)
          else if tid = kIntType then res_map f_of_i32 (eval_int tys a)
          else if tid = kFloatType then eval_float tys a
          else Inl AssertFail)
      else if op = kOpUniMinus then res_map f_neg (eval_float tys a)
      else Inl AssertFail)"
| "eval_float tys (BinOp op ty a b) =
     (case float_binop op of
        None \<Rightarrow> Inl AssertFail
      | Some f \<Rightarrow> res_map2 (\<lambda>x y. Inr (f x y)) (eval_float tys a) (eval_float tys b))"
| "eval_float tys (TriOp op ty a b c) =
     (if op = kOpIte then
        res_bind (eval_boolean tys a) (\<lambda>x. if x then eval_float tys b else eval_float tys c)
      else Inl AssertFail)"
| "eval_float tys (Load ty h) = load_float h"
| "eval_float tys _ = Inl AssertFail"

section \<open>The specification\<close>

text \<open>
  One evaluator of dynamically typed values. A strict operator looks at the values it gets; the
  logical connectives and the conditional evaluate what they need.
\<close>

datatype const_val = BoolV bool | IntV i32 | FloatV f64

fun apply_uni :: "op_code \<Rightarrow> const_val \<Rightarrow> const_val res" where
  "apply_uni kOpCastBoolean (BoolV b) = Inr (BoolV b)"
| "apply_uni kOpCastBoolean (IntV i) = Inr (BoolV (i \<noteq> 0))"
| "apply_uni kOpCastBoolean (FloatV x) = Inr (BoolV (\<not> f_eq x f_zero))"
| "apply_uni kOpCastInt (BoolV b) = Inr (IntV (i32_of_bool b))"
| "apply_uni kOpCastInt (IntV i) = Inr (IntV i)"
| "apply_uni kOpCastFloat (BoolV b) = Inr (FloatV (if b then f_one else f_zero))"
| "apply_uni kOpCastFloat (IntV i) = Inr (FloatV (f_of_i32 i))"
| "apply_uni kOpCastFloat (FloatV x) = Inr (FloatV x)"
| "apply_uni kOpLogNot (BoolV b) = Inr (BoolV (\<not> b))"
| "apply_uni kOpBitNeg (IntV i) = Inr (IntV (NOT i))"
| "apply_uni kOpUniMinus (IntV i) = res_map IntV (c_neg i)"
| "apply_uni kOpUniMinus (FloatV x) = Inr (FloatV (f_neg x))"
| "apply_uni _ _ = Inl AssertFail"

definition or_assert :: "('a \<Rightarrow> const_val res) \<Rightarrow> 'a option \<Rightarrow> const_val res" where
  "or_assert g f = (case f of None \<Rightarrow> Inl AssertFail | Some x \<Rightarrow> g x)"

fun apply_bin :: "op_code \<Rightarrow> const_val \<Rightarrow> const_val \<Rightarrow> const_val res" where
  "apply_bin op (BoolV x) (BoolV y) = or_assert (\<lambda>f. Inr (BoolV (f x y))) (boolean_cmp op)"
| "apply_bin op (IntV x) (IntV y) =
     (if cmp_op op then or_assert (\<lambda>f. Inr (BoolV (f x y))) (int_cmp op)
      else or_assert (\<lambda>f. res_map IntV (f x y)) (int_binop op))"
| "apply_bin op (FloatV x) (FloatV y) =
     (if cmp_op op then or_assert (\<lambda>f. Inr (BoolV (f x y))) (float_cmp op)
      else or_assert (\<lambda>f. Inr (FloatV (f x y))) (float_binop op))"
| "apply_bin _ _ _ = Inl AssertFail"

fun load_const :: "ir_handle \<Rightarrow> const_val res" where
  "load_const (BooleanConst _ v) = Inr (BoolV v)"
| "load_const (IntConst _ v) = Inr (IntV v)"
| "load_const (FloatConst _ v) = Inr (FloatV v)"
| "load_const _ = Inl AssertFail"

definition if_val :: "const_val \<Rightarrow> const_val res \<Rightarrow> const_val res \<Rightarrow> const_val res" where
  "if_val c r s = (case c of BoolV b \<Rightarrow> if b then r else s | _ \<Rightarrow> Inl AssertFail)"

fun eval_ref :: "ir_node \<Rightarrow> const_val res" where
  "eval_ref (Load _ h) = load_const h"
| "eval_ref (UniOp op _ a) = res_bind (eval_ref a) (apply_uni op)"
| "eval_ref (BinOp op _ a b) =
     res_bind (eval_ref a) (\<lambda>x.
       if op = kOpLogAnd then if_val x (eval_ref b) (Inr (BoolV False))
       else if op = kOpLogOr then if_val x (Inr (BoolV True)) (eval_ref b)
       else res_bind (eval_ref b) (apply_bin op x))"
| "eval_ref (TriOp _ _ a b c) = res_bind (eval_ref a) (\<lambda>x. if_val x (eval_ref b) (eval_ref c))"
| "eval_ref _ = Inl AssertFail"

section \<open>Well-typed constant expressions\<close>

inductive wt :: "ty list \<Rightarrow> ir_node \<Rightarrow> type_id \<Rightarrow> bool" for tys where
  wt_boolean: "ptr_type_id tys ty = Inr kBooleanType \<Longrightarrow>
    wt tys (Load ty (BooleanConst name v)) kBooleanType"
| wt_int: "ptr_type_id tys ty = Inr kIntType \<Longrightarrow> wt tys (Load ty (IntConst name i)) kIntType"
| wt_float: "ptr_type_id tys ty = Inr kFloatType \<Longrightarrow>
    wt tys (Load ty (FloatConst name x)) kFloatType"
| wt_cast_boolean: "wt tys a k \<Longrightarrow> ptr_type_id tys ty = Inr kBooleanType \<Longrightarrow>
    wt tys (UniOp kOpCastBoolean ty a) kBooleanType"
| wt_cast_int: "wt tys a k \<Longrightarrow> k \<noteq> kFloatType \<Longrightarrow> ptr_type_id tys ty = Inr kIntType \<Longrightarrow>
    wt tys (UniOp kOpCastInt ty a) kIntType"
| wt_cast_float: "wt tys a k \<Longrightarrow> ptr_type_id tys ty = Inr kFloatType \<Longrightarrow>
    wt tys (UniOp kOpCastFloat ty a) kFloatType"
| wt_not: "wt tys a kBooleanType \<Longrightarrow> ptr_type_id tys ty = Inr kBooleanType \<Longrightarrow>
    wt tys (UniOp kOpLogNot ty a) kBooleanType"
| wt_neg: "wt tys a kIntType \<Longrightarrow> ptr_type_id tys ty = Inr kIntType \<Longrightarrow>
    wt tys (UniOp kOpBitNeg ty a) kIntType"
| wt_minus: "wt tys a k \<Longrightarrow> k \<noteq> kBooleanType \<Longrightarrow> ptr_type_id tys ty = Inr k \<Longrightarrow>
    wt tys (UniOp kOpUniMinus ty a) k"
| wt_log: "op \<in> {kOpLogAnd, kOpLogOr} \<Longrightarrow> wt tys a kBooleanType \<Longrightarrow> wt tys b kBooleanType \<Longrightarrow>
    ptr_type_id tys ty = Inr kBooleanType \<Longrightarrow> wt tys (BinOp op ty a b) kBooleanType"
| wt_eq: "op \<in> {kOpEqual, kOpNotEq} \<Longrightarrow> wt tys a k \<Longrightarrow> wt tys b k \<Longrightarrow>
    ptr_type_id tys ty = Inr kBooleanType \<Longrightarrow> wt tys (BinOp op ty a b) kBooleanType"
| wt_less: "op \<in> {kOpLt, kOpLe} \<Longrightarrow> k \<noteq> kBooleanType \<Longrightarrow> wt tys a k \<Longrightarrow> wt tys b k \<Longrightarrow>
    ptr_type_id tys ty = Inr kBooleanType \<Longrightarrow> wt tys (BinOp op ty a b) kBooleanType"
| wt_int_arith: "int_binop op \<noteq> None \<Longrightarrow> wt tys a kIntType \<Longrightarrow> wt tys b kIntType \<Longrightarrow>
    ptr_type_id tys ty = Inr kIntType \<Longrightarrow> wt tys (BinOp op ty a b) kIntType"
| wt_float_arith: "float_binop op \<noteq> None \<Longrightarrow> wt tys a kFloatType \<Longrightarrow> wt tys b kFloatType \<Longrightarrow>
    ptr_type_id tys ty = Inr kFloatType \<Longrightarrow> wt tys (BinOp op ty a b) kFloatType"
| wt_ite: "wt tys c kBooleanType \<Longrightarrow> wt tys a k \<Longrightarrow> wt tys b k \<Longrightarrow>
    ptr_type_id tys ty = Inr k \<Longrightarrow> wt tys (TriOp kOpIte ty c a b) k"

inductive_simps wt_simps [simp]:
  "wt tys (Load ty h) k" "wt tys (UniOp op ty a) k" "wt tys (BinOp op ty a b) k"
  "wt tys (TriOp op ty c a b) k"

definition typed_eval :: "ty list \<Rightarrow> type_id \<Rightarrow> ir_node \<Rightarrow> const_val res" where
  "typed_eval tys k n =
     (if k = kBooleanType then res_map BoolV (eval_boolean tys n)
      else if k = kIntType then res_map IntV (eval_int tys n)
      else if k = kFloatType then res_map FloatV (eval_float tys n)
      else Inl AssertFail)"

fun val_kind :: "const_val \<Rightarrow> type_id" where
  "val_kind (BoolV _) = kBooleanType"
| "val_kind (IntV _) = kIntType"
| "val_kind (FloatV _) = kFloatType"

lemma wt_kind: "wt tys n k \<Longrightarrow> k \<in> {kBooleanType, kIntType, kFloatType}"
  by (induction rule: wt.induct) auto

lemma wt_value_type: "wt tys n k \<Longrightarrow> ptr_type_id tys (value_type n) = Inr k"
  by (induction rule: wt.induct) auto

section \<open>The implementation of the specification\<close>

lemma typed_eval_simps [simp]:
  "typed_eval tys kBooleanType n = res_map BoolV (eval_boolean tys n)"
  "typed_eval tys kIntType n = res_map IntV (eval_int tys n)"
  "typed_eval tys kFloatType n = res_map FloatV (eval_float tys n)"
  by (simp_all add: typed_eval_def)

lemma res_map_simps [simp]: "res_map f (Inl e) = Inl e" "res_map f (Inr x) = Inr (f x)"
  by (simp_all add: res_map_def)

lemma res_map2_simps [simp]:
  "res_map2 f (Inl e) r = Inl e" "res_map2 f (Inr x) (Inl e) = Inl e"
  "res_map2 f (Inr x) (Inr y) = f x y"
  by (simp_all add: res_map2_def)

definition arith_faults :: "fault set" where
  "arith_faults = {SignedOverflow, DivByZero, BadShift}"

text \<open>A result of a kind: a value of it, or a fault of the arithmetic.\<close>

definition kinded :: "type_id \<Rightarrow> const_val res \<Rightarrow> bool" where
  "kinded k r = (case r of Inl e \<Rightarrow> e \<in> arith_faults | Inr v \<Rightarrow> val_kind v = k)"

lemma kinded_cases [consumes 1, case_names fault boolean int float]:
  assumes "kinded k r"
    and "\<And>e. r = Inl e \<Longrightarrow> e \<in> arith_faults \<Longrightarrow> P"
    and "\<And>b. r = Inr (BoolV b) \<Longrightarrow> k = kBooleanType \<Longrightarrow> P"
    and "\<And>i. r = Inr (IntV i) \<Longrightarrow> k = kIntType \<Longrightarrow> P"
    and "\<And>x. r = Inr (FloatV x) \<Longrightarrow> k = kFloatType \<Longrightarrow> P"
  shows P
proof (cases r)
  case (Inl e)
  then show ?thesis using assms(1,2) by (simp add: kinded_def)
next
  case (Inr v)
  then show ?thesis
    using assms(1,3-5) by (cases v) (simp_all add: kinded_def)
qed

lemma kinded_simps [simp]:
  "kinded k (Inr v) \<longleftrightarrow> val_kind v = k" "kinded k (Inl e) \<longleftrightarrow> e \<in> arith_faults"
  by (simp_all add: kinded_def)

lemma i32_of_int_kinded [simp]: "kinded kIntType (res_map IntV (i32_of_int k))"
  by (simp add: i32_of_int_def arith_faults_def)

lemma int_binop_kinded:
  assumes "int_binop op = Some f"
  shows "kinded kIntType (res_map IntV (f a b)) \<and> \<not> cmp_op op \<and> op \<notin> {kOpLogAnd, kOpLogOr}"
  using assms
  by (auto simp: int_binop_def cmp_op_def c_add_def c_sub_def c_mul_def c_div_def c_mod_def
      c_shl_def c_shr_def i32_of_int_def arith_faults_def split: op_code.splits)

lemma float_binop_ops:
  "float_binop op = Some f \<Longrightarrow> \<not> cmp_op op \<and> op \<notin> {kOpLogAnd, kOpLogOr}"
  by (auto simp: float_binop_def cmp_op_def split: op_code.splits)

lemma cmp_defined:
  "op \<in> {kOpEqual, kOpNotEq} \<Longrightarrow> \<exists>f. boolean_cmp op = Some f"
  "cmp_op op \<Longrightarrow> \<exists>f. int_cmp op = Some f"
  "cmp_op op \<Longrightarrow> \<exists>f. float_cmp op = Some f"
  by (auto simp: cmp_op_def boolean_cmp_def int_cmp_def float_cmp_def)

lemma res_map_inject:
  assumes "\<And>x y. f x = f y \<longleftrightarrow> x = y"
  shows "res_map f r = Inr (f x) \<longleftrightarrow> r = Inr x" "res_map f r = Inl e \<longleftrightarrow> r = Inl e"
  using assms by (cases r; simp)+

text \<open>What a typed evaluator answers, read off the reference.\<close>

lemma typed_eval_read [simp]:
  "res_map BoolV r = Inr (BoolV b) \<longleftrightarrow> r = Inr b" "res_map BoolV r = Inl e \<longleftrightarrow> r = Inl e"
  "res_map IntV s = Inr (IntV i) \<longleftrightarrow> s = Inr i" "res_map IntV s = Inl e \<longleftrightarrow> s = Inl e"
  "res_map FloatV t = Inr (FloatV x) \<longleftrightarrow> t = Inr x" "res_map FloatV t = Inl e \<longleftrightarrow> t = Inl e"
  by (cases r; cases s; cases t; simp)+

lemma eval_cmp:
  assumes "cmp_op op" and "k = kBooleanType \<longrightarrow> op \<in> {kOpEqual, kOpNotEq}"
    and "ptr_type_id tys (value_type a) = Inr k"
    and "typed_eval tys k a = eval_ref a" "kinded k (eval_ref a)"
    and "typed_eval tys k b = eval_ref b" "kinded k (eval_ref b)"
  shows "res_map BoolV (eval_boolean tys (BinOp op ty a b)) = eval_ref (BinOp op ty a b) \<and>
    kinded kBooleanType (eval_ref (BinOp op ty a b))"
proof -
  have op: "op \<noteq> kOpLogAnd" "op \<noteq> kOpLogOr" using assms(1) by (auto simp: cmp_op_def)
  obtain f g where fg: "int_cmp op = Some f" "float_cmp op = Some g"
    using cmp_defined(2,3) [OF assms(1)] by blast
  show ?thesis
    using assms(5)
  proof (cases rule: kinded_cases)
    case (fault e)
    then have "k \<in> {kBooleanType, kIntType, kFloatType}"
      using assms(4) by (auto simp: typed_eval_def arith_faults_def split: if_splits)
    moreover have "\<exists>h. boolean_cmp op = Some h" if "k = kBooleanType"
      using that assms(2) cmp_defined(1) by blast
    ultimately show ?thesis
      using fault assms(1,3,4) op fg by (auto simp: apply_cmp_def)
  next
    case (boolean x)
    then obtain h where h: "boolean_cmp op = Some h" using assms(2) cmp_defined(1) by blast
    from assms(7) show ?thesis
      using boolean assms(1,3,4,6) op h
      by (cases rule: kinded_cases) (auto simp: apply_cmp_def or_assert_def)
  next
    case (int x)
    from assms(7) show ?thesis
      using int assms(1,3,4,6) op fg
      by (cases rule: kinded_cases) (auto simp: apply_cmp_def or_assert_def)
  next
    case (float x)
    from assms(7) show ?thesis
      using float assms(1,3,4,6) op fg
      by (cases rule: kinded_cases) (auto simp: apply_cmp_def or_assert_def)
  qed
qed

lemma c_neg_kinded [simp]: "kinded kIntType (res_map IntV (c_neg i))"
  by (simp add: c_neg_def)

lemma eval_log:
  assumes "op \<in> {kOpLogAnd, kOpLogOr}"
    and "res_map BoolV (eval_boolean tys a) = eval_ref a" "kinded kBooleanType (eval_ref a)"
    and "res_map BoolV (eval_boolean tys b) = eval_ref b" "kinded kBooleanType (eval_ref b)"
  shows "res_map BoolV (eval_boolean tys (BinOp op ty a b)) = eval_ref (BinOp op ty a b) \<and>
    kinded kBooleanType (eval_ref (BinOp op ty a b))"
  using assms(3)
proof (cases rule: kinded_cases)
  case (boolean x)
  then show ?thesis using assms(1,2,4,5) by (cases x) (auto simp: if_val_def)
qed (use assms(1,2) in auto)

lemma eval_int_arith:
  assumes "int_binop op = Some f"
    and "res_map IntV (eval_int tys a) = eval_ref a" "kinded kIntType (eval_ref a)"
    and "res_map IntV (eval_int tys b) = eval_ref b" "kinded kIntType (eval_ref b)"
  shows "res_map IntV (eval_int tys (BinOp op ty a b)) = eval_ref (BinOp op ty a b) \<and>
    kinded kIntType (eval_ref (BinOp op ty a b))"
  using assms(3)
proof (cases rule: kinded_cases)
  case (int x)
  from assms(5) show ?thesis
    using int assms(1,2,4) int_binop_kinded [OF assms(1)]
    by (cases rule: kinded_cases) (auto simp: or_assert_def)
qed (use assms(1,2) int_binop_kinded [OF assms(1)] in auto)

lemma eval_float_arith:
  assumes "float_binop op = Some f"
    and "res_map FloatV (eval_float tys a) = eval_ref a" "kinded kFloatType (eval_ref a)"
    and "res_map FloatV (eval_float tys b) = eval_ref b" "kinded kFloatType (eval_ref b)"
  shows "res_map FloatV (eval_float tys (BinOp op ty a b)) = eval_ref (BinOp op ty a b) \<and>
    kinded kFloatType (eval_ref (BinOp op ty a b))"
  using assms(3)
proof (cases rule: kinded_cases)
  case (float x)
  from assms(5) show ?thesis
    using float assms(1,2,4) float_binop_ops [OF assms(1)]
    by (cases rule: kinded_cases) (auto simp: or_assert_def)
qed (use assms(1,2) float_binop_ops [OF assms(1)] in auto)

lemma eval_ite:
  assumes "k \<in> {kBooleanType, kIntType, kFloatType}"
    and "res_map BoolV (eval_boolean tys c) = eval_ref c" "kinded kBooleanType (eval_ref c)"
    and "typed_eval tys k a = eval_ref a" "kinded k (eval_ref a)"
    and "typed_eval tys k b = eval_ref b" "kinded k (eval_ref b)"
  shows "typed_eval tys k (TriOp kOpIte ty c a b) = eval_ref (TriOp kOpIte ty c a b) \<and>
    kinded k (eval_ref (TriOp kOpIte ty c a b))"
  using assms(3)
proof (cases rule: kinded_cases)
  case (boolean x)
  then show ?thesis
    using assms(1,2,4-7) by (cases x) (auto simp: if_val_def)
qed (use assms(1,2) in auto)

lemma eval_cast_minus:
  assumes "ptr_type_id tys (value_type a) = Inr k"
    and "typed_eval tys k a = eval_ref a" "kinded k (eval_ref a)"
    and "k \<in> {kBooleanType, kIntType, kFloatType}"
  shows "res_map BoolV (eval_boolean tys (UniOp kOpCastBoolean ty a)) =
      eval_ref (UniOp kOpCastBoolean ty a) \<and>
      kinded kBooleanType (eval_ref (UniOp kOpCastBoolean ty a))"
    and "k \<noteq> kFloatType \<Longrightarrow> res_map IntV (eval_int tys (UniOp kOpCastInt ty a)) =
      eval_ref (UniOp kOpCastInt ty a) \<and> kinded kIntType (eval_ref (UniOp kOpCastInt ty a))"
    and "res_map FloatV (eval_float tys (UniOp kOpCastFloat ty a)) =
      eval_ref (UniOp kOpCastFloat ty a) \<and> kinded kFloatType (eval_ref (UniOp kOpCastFloat ty a))"
    and "k \<noteq> kBooleanType \<Longrightarrow> typed_eval tys k (UniOp kOpUniMinus ty a) =
      eval_ref (UniOp kOpUniMinus ty a) \<and> kinded k (eval_ref (UniOp kOpUniMinus ty a))"
  using assms(3,1,2,4) by (cases rule: kinded_cases; auto)+

lemma eval_implements:
  "wt tys n k \<Longrightarrow> typed_eval tys k n = eval_ref n \<and> kinded k (eval_ref n)"
proof (induction rule: wt.induct)
  case (wt_cast_boolean a k ty)
  then show ?case
    using eval_cast_minus(1) [OF wt_value_type, of tys a k ty] wt_kind [of tys a k] by simp
next
  case (wt_cast_int a k ty)
  then show ?case
    using eval_cast_minus(2) [OF wt_value_type, of tys a k ty] wt_kind [of tys a k] by simp
next
  case (wt_cast_float a k ty)
  then show ?case
    using eval_cast_minus(3) [OF wt_value_type, of tys a k ty] wt_kind [of tys a k] by simp
next
  case (wt_minus a k ty)
  then show ?case
    using eval_cast_minus(4) [OF wt_value_type, of tys a k ty] wt_kind [of tys a k] by simp
next
  case (wt_not a ty)
  then have "kinded kBooleanType (eval_ref a)" by simp
  then show ?case using wt_not by (cases rule: kinded_cases) auto
next
  case (wt_neg a ty)
  then have "kinded kIntType (eval_ref a)" by simp
  then show ?case using wt_neg by (cases rule: kinded_cases) auto
next
  case (wt_log op a b ty)
  then show ?case using eval_log [of op tys a b ty] by simp
next
  case (wt_eq op a k b ty)
  then show ?case
    unfolding typed_eval_simps
    by (intro eval_cmp [of op k]) (auto simp: cmp_op_def dest: wt_value_type)
next
  case (wt_less op k a b ty)
  then show ?case
    unfolding typed_eval_simps
    by (intro eval_cmp [of op k]) (auto simp: cmp_op_def dest: wt_value_type)
next
  case (wt_int_arith op a b ty)
  then show ?case using eval_int_arith [of op _ tys a b ty] by auto
next
  case (wt_float_arith op a b ty)
  then show ?case using eval_float_arith [of op _ tys a b ty] by auto
next
  case (wt_ite c a k b ty)
  then show ?case using eval_ite [of k tys c a b ty] wt_kind [of tys a k] by simp
qed simp_all

section \<open>An evaluator of another type\<close>

definition faulty :: "'a res \<Rightarrow> bool" where
  "faulty r = (case r of Inl _ \<Rightarrow> True | Inr _ \<Rightarrow> False)"

lemma faulty_simps [simp]: "faulty (Inl e)" "\<not> faulty (Inr x)"
  by (simp_all add: faulty_def)

lemma faulty_res_map [simp]: "faulty (res_map f r) = faulty r"
  by (cases r) simp_all

lemma faulty_bind [simp]: "faulty r \<Longrightarrow> faulty (res_bind r f)"
  by (cases r) simp_all

lemma faulty_bind_if: "faulty s \<Longrightarrow> faulty t \<Longrightarrow> faulty (res_bind r (\<lambda>x. if x then s else t))"
  by (cases r) simp_all

lemma faulty_res_map2 [simp]: "faulty r \<Longrightarrow> faulty (res_map2 f r s)"
  by (simp add: res_map2_def)

lemma int_binop_log_cmp: "op \<in> {kOpLogAnd, kOpLogOr} \<or> cmp_op op \<Longrightarrow> int_binop op = None"
  by (auto simp: int_binop_def cmp_op_def)

lemma float_binop_log_cmp: "op \<in> {kOpLogAnd, kOpLogOr} \<or> cmp_op op \<Longrightarrow> float_binop op = None"
  by (auto simp: float_binop_def cmp_op_def)

lemma other_evaluator_faults:
  "wt tys n k \<Longrightarrow>
    (k \<noteq> kBooleanType \<longrightarrow> faulty (eval_boolean tys n)) \<and>
    (k \<noteq> kIntType \<longrightarrow> faulty (eval_int tys n)) \<and>
    (k \<noteq> kFloatType \<longrightarrow> faulty (eval_float tys n))"
proof (induction rule: wt.induct)
  case (wt_log op a b ty)
  then show ?case by (auto simp: int_binop_log_cmp float_binop_log_cmp)
next
  case (wt_eq op a k b ty)
  then show ?case by (auto simp: int_binop_log_cmp float_binop_log_cmp cmp_op_def)
next
  case (wt_less op k a b ty)
  then show ?case by (auto simp: int_binop_log_cmp float_binop_log_cmp cmp_op_def)
next
  case (wt_int_arith op a b ty)
  then show ?case
    using int_binop_kinded [of op] by (auto split: option.split)
next
  case (wt_float_arith op a b ty)
  then show ?case
    using float_binop_ops [of op] by (auto split: option.split)
next
  case (wt_ite c a k b ty)
  then show ?case by (auto intro: faulty_bind_if)
qed auto

section \<open>Properties\<close>

text \<open>
  C8: on a well-typed constant expression the evaluator of its type, the three functions calling
  each other through the operands' types, answers what the one-pass evaluator of dynamically typed
  values answers: a value of the type, or a fault of the arithmetic. No \<^verbatim>\<open>ASSERT_NOT_REACHED\<close> is
  reached and no type pointer is read that does not exist.
\<close>

theorem evaluators_implement_reference:
  assumes "wt tys n k"
  shows "typed_eval tys k n = eval_ref n \<and>
    (case eval_ref n of Inr v \<Rightarrow> val_kind v = k | Inl e \<Rightarrow> e \<in> {SignedOverflow, DivByZero, BadShift})"
  using eval_implements [OF assms] by (cases "eval_ref n") (auto simp: arith_faults_def)

text \<open>
  The evaluators do not convert. A well-typed expression gives a value only under the
  evaluator of its own type, under the two others it fails.
\<close>

theorem evaluators_are_strict:
  assumes "wt tys n k" and "k' \<noteq> k"
  shows "\<exists>e. typed_eval tys k' n = Inl e"
proof -
  have "faulty (typed_eval tys k' n)"
    using other_evaluator_faults [OF assms(1)] assms(2) by (auto simp: typed_eval_def)
  then show ?thesis by (cases "typed_eval tys k' n") auto
qed

text \<open>
  The typing rules let an integer stand beside a float in \<open>+ - * /\<close>, but a constant
  expression of that form is never folded: the node of float type has an operand that is
  evaluated as a float and is none, so the evaluator fails whatever the values.
\<close>

theorem mixed_arithmetic_not_folded:
  assumes "wt tys a kIntType" and "wt tys b kFloatType"
  shows "\<exists>e. eval_float tys (BinOp op ty a b) = Inl e"
proof -
  have "faulty (eval_float tys a)" using other_evaluator_faults [OF assms(1)] by simp
  then have "faulty (eval_float tys (BinOp op ty a b))" by (simp split: option.split)
  then show ?thesis by (cases "eval_float tys (BinOp op ty a b)") auto
qed

section \<open>Witnesses\<close>

definition int_const :: "i32 \<Rightarrow> ir_node" where
  "int_const i = Load (Some 2) (IntConst '''' i)"

definition float_const :: "f64 \<Rightarrow> ir_node" where
  "float_const x = Load (Some 3) (FloatConst '''' x)"

lemma consts_wt [simp]:
  "wt prim_types (int_const i) kIntType" "wt prim_types (float_const x) kFloatType"
  by (simp_all add: int_const_def float_const_def prim_types_def ptr_type_id_def deref_def
      type_at_def)

lemma prim_kinds [simp]:
  "ptr_type_id prim_types (Some (Suc 0)) = Inr kBooleanType"
  "ptr_type_id prim_types (Some 2) = Inr kIntType"
  "ptr_type_id prim_types (Some 3) = Inr kFloatType"
  by (simp_all add: prim_types_def ptr_type_id_def deref_def type_at_def)

definition demo_cond :: ir_node where
  "demo_cond = BinOp kOpLt (Some 1) (int_const 2) (BinOp kOpMul (Some 2) (int_const 3) (int_const 4))"

lemma demo_cond_wt: "wt prim_types demo_cond kBooleanType"
proof -
  have "wt prim_types (BinOp kOpMul (Some 2) (int_const 3) (int_const 4)) kIntType"
    by (intro wt_int_arith) (simp_all add: int_binop_def)
  then show ?thesis
    unfolding demo_cond_def by (intro wt_less [where k = kIntType]) simp_all
qed

lemma evaluators_implement_reference_witness:
  "res_map BoolV (eval_boolean prim_types demo_cond) = eval_ref demo_cond \<and>
    eval_ref demo_cond = Inr (BoolV True)"
proof -
  have "eval_ref demo_cond = Inr (BoolV True)"
    by (simp add: demo_cond_def int_const_def cmp_op_def int_binop_def int_cmp_def or_assert_def
        c_mul_def i32_of_int_def)
  then show ?thesis
    using evaluators_implement_reference [OF demo_cond_wt] by simp
qed

lemma evaluators_are_strict_witness: "\<exists>e. typed_eval prim_types kFloatType demo_cond = Inl e"
  by (rule evaluators_are_strict [OF demo_cond_wt]) simp

lemma mixed_arithmetic_not_folded_witness:
  "\<exists>e. eval_float prim_types (BinOp kOpAdd (Some 3) (int_const 1) (float_const f_one)) = Inl e"
  by (rule mixed_arithmetic_not_folded) simp_all

end
