(* ===== verification/Scope_Table.thy ===== *)
theory Scope_Table
  imports Ymsl_Hash
begin

text \<open>
  Scopes: the hash table of one scope and the lookup through the enclosing scopes
  (\<^verbatim>\<open>include/Scope.h\<close>, \<^verbatim>\<open>src/compiler/Scope.cc\<close>, \<^verbatim>\<open>IrMgr::new_scope\<close>). A handle is any value with a
  name; \<open>nm\<close> reads the name and \<open>hash\<close> is \<^verbatim>\<open>ShString::hash\<close> of the utility library, of which
  nothing is assumed. A \<^verbatim>\<open>Scope*\<close> is the position in \<^verbatim>\<open>IrMgr::mScopeList\<close>. The chain of a bucket
  is the list of its handles along \<^verbatim>\<open>mLink\<close>; the callers create the handle they add, so a handle is
  in one chain only.
\<close>

section \<open>One scope\<close>

record 'h scope =
  mParentScope :: "nat option"
  mGlobalScope :: "nat option"
  mName :: string
  sHashSize :: u32
  sNextLimit :: u32
  sHashTable :: "'h list list"
  sHashNum :: u32

definition scope_put :: "(string \<Rightarrow> u32) \<Rightarrow> ('h \<Rightarrow> string) \<Rightarrow> 'h \<Rightarrow> 'h scope \<Rightarrow> 'h scope res" where
  "scope_put hash nm handle s =
     res_bind (u_mod (hash (nm handle)) (sHashSize s)) (\<lambda>pos.
     res_bind (arr_get (sHashTable s) (uint pos)) (\<lambda>chain.
     res_bind (arr_set (sHashTable s) (uint pos) (handle # chain)) (\<lambda>tbl.
       Inr (s\<lparr>sHashTable := tbl, sHashNum := sHashNum s + 1\<rparr>))))"

fun scope_put_all ::
  "(string \<Rightarrow> u32) \<Rightarrow> ('h \<Rightarrow> string) \<Rightarrow> 'h list \<Rightarrow> 'h scope \<Rightarrow> 'h scope res" where
  "scope_put_all hash nm [] s = Inr s"
| "scope_put_all hash nm (h # hs) s =
     res_bind (scope_put hash nm h s) (scope_put_all hash nm hs)"

text \<open>The handles of the old table are put again in the order of its buckets and chains; the count
  goes on from its old value.\<close>

definition scope_alloc_table ::
  "(string \<Rightarrow> u32) \<Rightarrow> ('h \<Rightarrow> string) \<Rightarrow> u32 \<Rightarrow> 'h scope \<Rightarrow> 'h scope res" where
  "scope_alloc_table hash nm req_size s =
     res_bind (next_limit req_size) (\<lambda>limit.
       scope_put_all hash nm (concat (sHashTable s))
         (s\<lparr>sHashSize := req_size, sNextLimit := limit,
            sHashTable := replicate (unat req_size) []\<rparr>))"

definition Scope_new ::
  "(string \<Rightarrow> u32) \<Rightarrow> ('h \<Rightarrow> string) \<Rightarrow> nat option \<Rightarrow> nat option \<Rightarrow> string \<Rightarrow> 'h scope res" where
  "Scope_new hash nm parent_scope global_scope name =
     scope_alloc_table hash nm 16
       \<lparr>mParentScope = parent_scope, mGlobalScope = global_scope, mName = name, sHashSize = 0,
        sNextLimit = 0, sHashTable = [], sHashNum = 0\<rparr>"

definition scope_add ::
  "(string \<Rightarrow> u32) \<Rightarrow> ('h \<Rightarrow> string) \<Rightarrow> 'h \<Rightarrow> 'h scope \<Rightarrow> 'h scope res" where
  "scope_add hash nm item s =
     res_bind
       (if sHashNum s \<ge> sNextLimit s then scope_alloc_table hash nm (push_bit 1 (sHashSize s)) s else Inr s)
       (scope_put hash nm item)"

definition scope_find_local ::
  "(string \<Rightarrow> u32) \<Rightarrow> ('h \<Rightarrow> string) \<Rightarrow> string \<Rightarrow> 'h scope \<Rightarrow> 'h option res" where
  "scope_find_local hash nm name s =
     res_bind (u_mod (hash name) (sHashSize s)) (\<lambda>pos.
     res_bind (arr_get (sHashTable s) (uint pos)) (\<lambda>chain.
       Inr (List.find (\<lambda>handle. nm handle = name) chain)))"

section \<open>The scopes of the manager\<close>

text \<open>\<open>None\<close> is out of fuel; the pointers of a scope lead to scopes created before it.\<close>

fun scope_find ::
  "(string \<Rightarrow> u32) \<Rightarrow> ('h \<Rightarrow> string) \<Rightarrow> nat \<Rightarrow> 'h scope list \<Rightarrow> nat \<Rightarrow> string \<Rightarrow>
    'h option res option" where
  "scope_find hash nm 0 scopes this name = None"
| "scope_find hash nm (Suc fuel) scopes this name =
     (if \<not> this < length scopes then Some (Inl OutOfBounds)
      else let s = scopes ! this in
        (case scope_find_local hash nm name s of
           Inl e \<Rightarrow> Some (Inl e)
         | Inr (Some h) \<Rightarrow> Some (Inr (Some h))
         | Inr None \<Rightarrow>
             (let global =
                (case mGlobalScope s of
                   None \<Rightarrow> Some (Inr None)
                 | Some g \<Rightarrow> scope_find hash nm fuel scopes g name)
              in (case mParentScope s of
                    None \<Rightarrow> global
                  | Some p \<Rightarrow>
                      (case scope_find hash nm fuel scopes p name of
                         None \<Rightarrow> None
                       | Some (Inl e) \<Rightarrow> Some (Inl e)
                       | Some (Inr (Some h)) \<Rightarrow> Some (Inr (Some h))
                       | Some (Inr None) \<Rightarrow> global)))))"

definition new_scope ::
  "(string \<Rightarrow> u32) \<Rightarrow> ('h \<Rightarrow> string) \<Rightarrow> nat option \<Rightarrow> string \<Rightarrow> 'h scope list \<Rightarrow>
    (nat \<times> 'h scope list) res" where
  "new_scope hash nm parent_scope name scopes =
     res_bind
       (case parent_scope of
          None \<Rightarrow> Inr (None, None)
        | Some p \<Rightarrow>
            (if p < length scopes
             then (case mGlobalScope (scopes ! p) of
                     None \<Rightarrow> Inr (None, Some p)
                   | Some g \<Rightarrow> Inr (Some p, Some g))
             else Inl OutOfBounds))
       (\<lambda>(parent, global).
         res_bind (Scope_new hash nm parent global name)
           (\<lambda>s. Inr (length scopes, scopes @ [s])))"

section \<open>The table of a scope\<close>

definition bucket_of :: "(string \<Rightarrow> u32) \<Rightarrow> u32 \<Rightarrow> string \<Rightarrow> nat" where
  "bucket_of hash sz name = unat (hash name mod sz)"

definition scope_placed :: "(string \<Rightarrow> u32) \<Rightarrow> ('h \<Rightarrow> string) \<Rightarrow> u32 \<Rightarrow> 'h list list \<Rightarrow> bool" where
  "scope_placed hash nm sz tbl \<longleftrightarrow>
     length tbl = unat sz \<and>
     (\<forall>i < length tbl. \<forall>h \<in> set (tbl ! i). bucket_of hash sz (nm h) = i)"

lemma bucket_of_less: "sz \<noteq> 0 \<Longrightarrow> bucket_of hash sz name < unat sz"
  by (simp add: bucket_of_def unat_mod unat_gt_0)

lemma scope_put_ok:
  assumes "sHashSize s \<noteq> 0" and "scope_placed hash nm (sHashSize s) (sHashTable s)"
    and i_def: "i = bucket_of hash (sHashSize s) (nm h)"
  shows "scope_put hash nm h s =
    Inr (s\<lparr>sHashTable := (sHashTable s)[i := h # sHashTable s ! i], sHashNum := sHashNum s + 1\<rparr>)"
    and "i < length (sHashTable s)"
    and "scope_placed hash nm (sHashSize s) ((sHashTable s)[i := h # sHashTable s ! i])"
proof -
  show i: "i < length (sHashTable s)"
    using assms bucket_of_less [OF assms(1), of hash "nm h"] by (simp add: scope_placed_def)
  then show "scope_put hash nm h s =
    Inr (s\<lparr>sHashTable := (sHashTable s)[i := h # sHashTable s ! i], sHashNum := sHashNum s + 1\<rparr>)"
    using assms(1) by (simp add: scope_put_def u_mod_def i_def bucket_of_def)
  show "scope_placed hash nm (sHashSize s) ((sHashTable s)[i := h # sHashTable s ! i])"
    using assms(2) i by (auto simp: scope_placed_def nth_list_update i_def)
qed

lemma scope_put_all_ok:
  assumes "sHashSize s \<noteq> 0" and "scope_placed hash nm (sHashSize s) (sHashTable s)"
  shows "\<exists>tbl. scope_put_all hash nm hs s =
      Inr (s\<lparr>sHashTable := tbl, sHashNum := sHashNum s + of_nat (length hs)\<rparr>) \<and>
    scope_placed hash nm (sHashSize s) tbl \<and>
    mset (concat tbl) = mset hs + mset (concat (sHashTable s))"
  using assms
proof (induction hs arbitrary: s)
  case Nil
  then show ?case by (intro exI [of _ "sHashTable s"]) simp
next
  case (Cons h hs)
  let ?i = "bucket_of hash (sHashSize s) (nm h)"
  let ?t = "(sHashTable s)[?i := h # sHashTable s ! ?i]"
  let ?s = "s\<lparr>sHashTable := ?t, sHashNum := sHashNum s + 1\<rparr>"
  note put = scope_put_ok [OF Cons.prems refl, of h]
  have "\<exists>tbl. scope_put_all hash nm hs ?s =
      Inr (?s\<lparr>sHashTable := tbl, sHashNum := sHashNum ?s + of_nat (length hs)\<rparr>) \<and>
    scope_placed hash nm (sHashSize ?s) tbl \<and>
    mset (concat tbl) = mset hs + mset (concat (sHashTable ?s))"
    using Cons.prems(1) put(3) by (intro Cons.IH) simp_all
  then show ?case
    using put(1,2) by (auto simp: mset_concat_update add.assoc)
qed

lemma scope_alloc_table_ok:
  assumes "sz \<noteq> 0" and "next_limit sz = Inr limit"
  shows "\<exists>tbl. scope_alloc_table hash nm sz s =
      Inr (s\<lparr>sHashSize := sz, sNextLimit := limit, sHashTable := tbl,
        sHashNum := sHashNum s + of_nat (length (concat (sHashTable s)))\<rparr>) \<and>
    scope_placed hash nm sz tbl \<and> mset (concat tbl) = mset (concat (sHashTable s))"
proof -
  let ?s = "s\<lparr>sHashSize := sz, sNextLimit := limit, sHashTable := replicate (unat sz) []\<rparr>"
  have "scope_placed hash nm (sHashSize ?s) (sHashTable ?s)"
    by (simp add: scope_placed_def)
  with scope_put_all_ok [of ?s hash nm "concat (sHashTable s)"] assms
  show ?thesis by (auto simp: scope_alloc_table_def)
qed

section \<open>The invariant of a scope\<close>

definition scope_items :: "'h scope \<Rightarrow> 'h list" where
  "scope_items s = concat (sHashTable s)"

text \<open>
  The count exceeds the number of entries, because a rehash counts them again, but not by so much
  that it grows the table out of proportion.
\<close>

definition scope_ok :: "(string \<Rightarrow> u32) \<Rightarrow> ('h \<Rightarrow> string) \<Rightarrow> 'h scope \<Rightarrow> bool" where
  "scope_ok hash nm s \<longleftrightarrow>
     sHashSize s \<noteq> 0 \<and> 16 \<le> unat (sHashSize s) \<and> next_limit (sHashSize s) = Inr (sNextLimit s) \<and>
     scope_placed hash nm (sHashSize s) (sHashTable s) \<and>
     (let e = length (scope_items s); c = unat (sHashNum s); l = unat (sNextLimit s)
      in e \<le> c \<and> (c \<le> l \<or> c = l + 1 \<and> e + 2 \<le> c) \<and>
         c \<le> e + unat (sHashSize s) * 9 div 10 + 1)"

lemma unat_limit: "next_limit sz = Inr l \<Longrightarrow> unat l = unat sz * 9 div 5 \<and> unat l < 2 ^ 32"
  by (auto simp: next_limit_def unat_of_nat split: if_splits)

lemma unat_add_small: "unat a + n < 2 ^ 32 \<Longrightarrow> unat (a + of_nat n :: u32) = unat a + n"
  by (simp add: unat_word_ariths unat_of_nat)

lemma Scope_new_ok:
  "\<exists>s. Scope_new hash nm parent global name = Inr s \<and> scope_ok hash nm s \<and> scope_items s = [] \<and>
    mParentScope s = parent \<and> mGlobalScope s = global \<and> mName s = name"
proof -
  have l: "next_limit 16 = Inr 28" by (simp add: next_limit_def)
  from scope_alloc_table_ok [OF _ l, where hash = hash and nm = nm and
      s = "\<lparr>mParentScope = parent, mGlobalScope = global, mName = name, sHashSize = 0,
        sNextLimit = 0, sHashTable = [], sHashNum = 0\<rparr>"]
  show ?thesis by (auto simp: Scope_new_def scope_ok_def scope_items_def l)
qed

lemma scope_put_counted:
  assumes "sHashSize s \<noteq> 0" and "scope_placed hash nm (sHashSize s) (sHashTable s)"
    and "unat (sHashNum s) < 2 ^ 32 - 1"
  shows "\<exists>t. scope_put hash nm h s = Inr t \<and> sHashSize t = sHashSize s \<and>
    sNextLimit t = sNextLimit s \<and> scope_placed hash nm (sHashSize t) (sHashTable t) \<and>
    mset (scope_items t) = add_mset h (mset (scope_items s)) \<and>
    unat (sHashNum t) = unat (sHashNum s) + 1 \<and> mParentScope t = mParentScope s \<and>
    mGlobalScope t = mGlobalScope s \<and> mName t = mName s"
proof -
  let ?i = "bucket_of hash (sHashSize s) (nm h)"
  let ?t = "s\<lparr>sHashTable := (sHashTable s)[?i := h # sHashTable s ! ?i], sHashNum := sHashNum s + 1\<rparr>"
  have "unat (sHashNum s + 1) = unat (sHashNum s) + 1"
    using assms(3) unat_add_small [of "sHashNum s" 1] by simp
  then show ?thesis
    using scope_put_ok [OF assms(1,2) refl, of h]
    by (intro exI [of _ ?t]) (simp add: mset_concat_update scope_items_def)
qed

lemma push_bit_1_mult: "push_bit 1 a = a * (2 :: u32)"
  by (simp add: push_bit_eq_mult)

lemma scope_full_limit:
  assumes "scope_ok hash nm s" and "length (scope_items s) < 2 ^ 28"
    and "sHashNum s \<ge> sNextLimit s"
  shows "unat (sNextLimit s) < 2 ^ 30"
proof -
  let ?sz = "unat (sHashSize s)"
  have "unat (sNextLimit s) \<le> unat (sHashNum s)"
    using assms(3) by (simp add: word_le_nat_alt)
  moreover have "unat (sHashNum s) \<le> length (scope_items s) + ?sz * 9 div 10 + 1"
    and "unat (sNextLimit s) = ?sz * 9 div 5"
    using assms(1) unat_limit by (auto simp: scope_ok_def Let_def)
  moreover have "2 * (?sz * 9 div 10) \<le> ?sz * 9 div 5" by linarith
  ultimately have "unat (sNextLimit s) \<le> 2 * length (scope_items s) + 2" by linarith
  then show ?thesis using assms(2) by simp
qed

lemma scope_add_ok:
  assumes "scope_ok hash nm s" and "length (scope_items s) < 2 ^ 28"
  shows "\<exists>t. scope_add hash nm h s = Inr t \<and> scope_ok hash nm t \<and>
    mset (scope_items t) = add_mset h (mset (scope_items s)) \<and> mParentScope t = mParentScope s \<and>
    mGlobalScope t = mGlobalScope s \<and> mName t = mName s"
proof -
  let ?e = "length (scope_items s)" and ?c = "unat (sHashNum s)" and ?sz = "unat (sHashSize s)"
    and ?l = "unat (sNextLimit s)"
  have ok: "sHashSize s \<noteq> 0" "next_limit (sHashSize s) = Inr (sNextLimit s)"
    "scope_placed hash nm (sHashSize s) (sHashTable s)" "?e \<le> ?c"
    "?c \<le> ?l \<or> ?c = ?l + 1 \<and> ?e + 2 \<le> ?c" "?c \<le> ?e + ?sz * 9 div 10 + 1"
    and sz16: "16 \<le> ?sz"
    using assms(1) by (auto simp: scope_ok_def Let_def)
  have l: "?l = ?sz * 9 div 5" "?l < 2 ^ 32"
    using unat_limit [OF ok(2)] by simp_all
  show ?thesis
  proof (cases "sHashNum s \<ge> sNextLimit s")
    case False
    then have lt: "?c < ?l" by (simp add: word_le_nat_alt)
    then have "?c < 2 ^ 32 - 1" using l(2) by simp
    from scope_put_counted [OF ok(1,3) this, of h] obtain t where t:
      "scope_put hash nm h s = Inr t" "sHashSize t = sHashSize s" "sNextLimit t = sNextLimit s"
      "scope_placed hash nm (sHashSize t) (sHashTable t)"
      "mset (scope_items t) = add_mset h (mset (scope_items s))" "unat (sHashNum t) = ?c + 1"
      "mParentScope t = mParentScope s" "mGlobalScope t = mGlobalScope s" "mName t = mName s"
      by blast
    have len: "length (scope_items t) = Suc ?e" using t(5) by (metis size_add_mset size_mset)
    have "scope_ok hash nm t"
      using ok sz16 t(2-4,6) len lt by (simp add: scope_ok_def Let_def)
    then show ?thesis using t False by (simp add: scope_add_def)
  next
    case True
    then have ge: "?l \<le> ?c" by (simp add: word_le_nat_alt)
    have small: "?l < 2 ^ 30" by (rule scope_full_limit [OF assms True])
    note dbl = next_limit_double [OF ok(2) small ok(1)]
    from dbl(2) obtain l' where l': "next_limit (sHashSize s * 2) = Inr l'" ..
    have l'_val: "unat l' = ?sz * 2 * 9 div 5"
      using unat_limit [OF l'] dbl(1) by simp
    from scope_alloc_table_ok [OF dbl(3) l', of hash nm s] obtain tbl where a:
      "scope_alloc_table hash nm (sHashSize s * 2) s =
        Inr (s\<lparr>sHashSize := sHashSize s * 2, sNextLimit := l', sHashTable := tbl,
          sHashNum := sHashNum s + of_nat ?e\<rparr>)"
      "scope_placed hash nm (sHashSize s * 2) tbl" "mset (concat tbl) = mset (scope_items s)"
      by (auto simp: scope_items_def)
    let ?u = "s\<lparr>sHashSize := sHashSize s * 2, sNextLimit := l', sHashTable := tbl,
          sHashNum := sHashNum s + of_nat ?e\<rparr>"
    have c_small: "?c < 2 ^ 31" using ok(5) small by auto
    have num: "unat (sHashNum s + of_nat ?e) = ?c + ?e"
      using c_small assms(2) by (intro unat_add_small) simp
    then have "unat (sHashNum ?u) < 2 ^ 32 - 1" using c_small assms(2) by simp
    with scope_put_counted [of ?u hash nm h] dbl(3) a(2) obtain t where t:
      "scope_put hash nm h ?u = Inr t" "sHashSize t = sHashSize s * 2" "sNextLimit t = l'"
      "scope_placed hash nm (sHashSize t) (sHashTable t)"
      "mset (scope_items t) = add_mset h (mset (scope_items ?u))" "unat (sHashNum t) = ?c + ?e + 1"
      "mParentScope t = mParentScope s" "mGlobalScope t = mGlobalScope s" "mName t = mName s"
      using num by auto
    have items: "mset (scope_items t) = add_mset h (mset (scope_items s))"
      using t(5) a(3) by (simp add: scope_items_def)
    then have len: "length (scope_items t) = Suc ?e" by (metis size_add_mset size_mset)
    have "?c + ?e \<le> 2 * ?l" using ok(4,5) by linarith
    also have "\<dots> \<le> unat l'" unfolding l(1) l'_val by linarith
    finally have c1: "?c + ?e \<le> unat l'" .
    have "?sz * 2 * 9 div 10 = ?l" using l(1) by linarith
    then have c2: "?c + ?e + 1 \<le> Suc ?e + unat (sHashSize t) * 9 div 10 + 1"
      using ok(5) t(2) dbl(1) by auto
    have "2 \<le> ?l" using l(1) sz16 by linarith
    then have c3: "?c + ?e + 1 \<le> unat l' \<or> ?c + ?e + 1 = unat l' + 1 \<and> Suc ?e + 2 \<le> ?c + ?e + 1"
      using c1 ge ok(4) by linarith
    have "scope_ok hash nm t"
      unfolding scope_ok_def Let_def len t(3,6)
      using l' t(2,4) dbl(1,3) sz16 c2 c3 by simp
    then show ?thesis
      using True a(1) t items by (simp add: scope_add_def push_bit_1_mult)
  qed
qed

section \<open>A scope as a symbol table\<close>

lemma scope_find_local_ok:
  assumes "scope_ok hash nm s"
  shows "\<exists>r. scope_find_local hash nm name s = Inr r \<and>
    (case r of None \<Rightarrow> \<forall>h \<in> set (scope_items s). nm h \<noteq> name
     | Some h \<Rightarrow> h \<in> set (scope_items s) \<and> nm h = name)"
proof -
  let ?i = "bucket_of hash (sHashSize s) name" and ?tbl = "sHashTable s"
  let ?r = "List.find (\<lambda>h. nm h = name) (?tbl ! ?i)"
  have sz: "sHashSize s \<noteq> 0" and pl: "scope_placed hash nm (sHashSize s) ?tbl"
    using assms by (auto simp: scope_ok_def)
  have i: "?i < length ?tbl"
    using pl bucket_of_less [OF sz, of hash name] by (simp add: scope_placed_def)
  have run: "scope_find_local hash nm name s = Inr ?r"
    using sz i by (simp add: scope_find_local_def u_mod_def bucket_of_def)
  have here: "h \<in> set (?tbl ! ?i)" if h: "h \<in> set (scope_items s)" "nm h = name" for h
  proof -
    obtain c where "c \<in> set ?tbl" "h \<in> set c" using h(1) by (auto simp: scope_items_def)
    then obtain j where "j < length ?tbl" "h \<in> set (?tbl ! j)" by (metis in_set_conv_nth)
    then show ?thesis using pl h(2) by (auto simp: scope_placed_def)
  qed
  show ?thesis
  proof (cases ?r)
    case None
    then have "\<forall>h \<in> set (scope_items s). nm h \<noteq> name"
      using here by (auto simp: find_None_iff)
    then show ?thesis using run None by simp
  next
    case (Some h)
    then have "h \<in> set (?tbl ! ?i)" "nm h = name" by (auto simp: find_Some_iff)
    then have "h \<in> set (scope_items s)" using i by (auto simp: scope_items_def)
    then show ?thesis using run Some \<open>nm h = name\<close> by simp
  qed
qed

text \<open>
  The contract of a symbol table towards its clients: adding keeps the content, and a lookup finds
  some entry of the name, if there is one.
\<close>

locale symbol_table =
  fixes ok :: "'s \<Rightarrow> bool" and content :: "'s \<Rightarrow> 'h multiset" and nm :: "'h \<Rightarrow> string"
    and add :: "'h \<Rightarrow> 's \<Rightarrow> 's res" and lookup :: "string \<Rightarrow> 's \<Rightarrow> 'h option res"
    and cap :: nat
  assumes add_law: "ok s \<Longrightarrow> size (content s) < cap \<Longrightarrow>
      \<exists>t. add h s = Inr t \<and> ok t \<and> content t = add_mset h (content s)"
    and lookup_law: "ok s \<Longrightarrow> \<exists>r. lookup name s = Inr r \<and>
      (case r of None \<Rightarrow> \<forall>h \<in># content s. nm h \<noteq> name
       | Some h \<Rightarrow> h \<in># content s \<and> nm h = name)"
begin

fun add_all :: "'h list \<Rightarrow> 's \<Rightarrow> 's res" where
  "add_all [] s = Inr s"
| "add_all (h # hs) s = res_bind (add h s) (add_all hs)"

lemma add_all_ok:
  assumes "ok s" and "size (content s) + length hs \<le> cap"
  shows "\<exists>t. add_all hs s = Inr t \<and> ok t \<and> content t = mset hs + content s"
  using assms
proof (induction hs arbitrary: s)
  case Nil
  then show ?case by simp
next
  case (Cons h hs)
  then obtain t where t: "add h s = Inr t" "ok t" "content t = add_mset h (content s)"
    using add_law [of s h] by auto
  then show ?case using Cons.IH [of t] Cons.prems by auto
qed

lemma lookup_map_of:
  assumes "ok s" and "content s = mset hs" and "distinct (map nm hs)"
  shows "lookup name s = Inr (map_of (map (\<lambda>h. (nm h, h)) hs) name)"
proof -
  obtain r where r: "lookup name s = Inr r"
    "case r of None \<Rightarrow> \<forall>h \<in># content s. nm h \<noteq> name | Some h \<Rightarrow> h \<in># content s \<and> nm h = name"
    using lookup_law [OF assms(1)] by blast
  have "r = map_of (map (\<lambda>h. (nm h, h)) hs) name"
  proof (cases r)
    case None
    then have "name \<notin> nm ` set hs" using r(2) assms(2) by auto
    then have "map_of (map (\<lambda>h. (nm h, h)) hs) name = None"
      by (auto simp: map_of_eq_None_iff image_image)
    then show ?thesis using None by simp
  next
    case (Some h)
    then have "h \<in> set hs" "nm h = name" using r(2) assms(2) by auto
    moreover have "distinct (map fst (map (\<lambda>h. (nm h, h)) hs))"
      using assms(3) by (simp add: comp_def)
    ultimately have "map_of (map (\<lambda>h. (nm h, h)) hs) name = Some h"
      by (intro map_of_is_SomeI) auto
    then show ?thesis using Some by simp
  qed
  then show ?thesis using r(1) by simp
qed

lemma add_all_lookup:
  assumes "ok s" and "content s = {#}" and "length hs \<le> cap" and "distinct (map nm hs)"
  shows "\<exists>t. add_all hs s = Inr t \<and> ok t \<and>
    (\<forall>name. lookup name t = Inr (map_of (map (\<lambda>h. (nm h, h)) hs) name))"
  using add_all_ok [of s hs] lookup_map_of [of _ hs] assms by fastforce

end

interpretation scopes: symbol_table "scope_ok hash nm" "\<lambda>s. mset (scope_items s)" nm
  "scope_add hash nm" "scope_find_local hash nm" "2 ^ 28"
  for hash :: "string \<Rightarrow> u32" and nm :: "'h \<Rightarrow> string"
proof unfold_locales
  show "\<exists>t. scope_add hash nm h s = Inr t \<and> scope_ok hash nm t \<and>
      mset (scope_items t) = add_mset h (mset (scope_items s))"
    if "scope_ok hash nm s" "size (mset (scope_items s)) < 2 ^ 28" for s h
    using scope_add_ok [of hash nm s h] that by auto
  show "\<exists>r. scope_find_local hash nm name s = Inr r \<and>
      (case r of None \<Rightarrow> \<forall>h \<in># mset (scope_items s). nm h \<noteq> name
       | Some h \<Rightarrow> h \<in># mset (scope_items s) \<and> nm h = name)"
    if "scope_ok hash nm s" for s name
    using scope_find_local_ok [OF that] by (simp cong: option.case_cong)
qed

text \<open>The handles added one after the other.\<close>

fun scope_add_all ::
  "(string \<Rightarrow> u32) \<Rightarrow> ('h \<Rightarrow> string) \<Rightarrow> 'h list \<Rightarrow> 'h scope \<Rightarrow> 'h scope res" where
  "scope_add_all hash nm [] s = Inr s"
| "scope_add_all hash nm (h # hs) s = res_bind (scope_add hash nm h s) (scope_add_all hash nm hs)"

lemma scope_add_all_eq: "scope_add_all hash nm hs s = scopes.add_all hash nm hs s"
  by (induction hs arbitrary: s) (auto simp: scopes.add_all.simps intro: res_bind_cong)

text \<open>
  C4: A scope is a finite map: however the hash function spreads the names, adding up to
  \<open>2 ^ 28\<close> handles of different names to a new scope succeeds through all growths of the table, and
  then every lookup returns exactly the handle of that name, or nothing.
\<close>

theorem scope_implements_map:
  assumes "length hs \<le> 2 ^ 28" and "distinct (map nm hs)"
  shows "\<exists>s t. Scope_new hash nm parent global name = Inr s \<and> scope_add_all hash nm hs s = Inr t \<and>
    (\<forall>x. scope_find_local hash nm x t = Inr (map_of (map (\<lambda>h. (nm h, h)) hs) x))"
proof -
  obtain s where s: "Scope_new hash nm parent global name = Inr s" "scope_ok hash nm s"
    "scope_items s = []"
    using Scope_new_ok by blast
  then show ?thesis
    using scopes.add_all_lookup [of hash nm s hs] assms by (simp add: scope_add_all_eq) blast
qed

lemma scope_implements_map_witness:
  "\<exists>s t. Scope_new (\<lambda>n. of_nat (length n)) fst None None '''' = Inr s \<and>
    scope_add_all (\<lambda>n. of_nat (length n)) fst [(''a'', 1), (''b'', 2 :: nat)] s = Inr t \<and>
    (\<forall>x. scope_find_local (\<lambda>n. of_nat (length n)) fst x t =
      Inr (map_of (map (\<lambda>h. (fst h, h)) [(''a'', 1), (''b'', 2)]) x))"
  by (rule scope_implements_map) simp_all

section \<open>Handles of one name\<close>

text \<open>The handles of a name, in the order a lookup meets them.\<close>

definition named :: "(string \<Rightarrow> u32) \<Rightarrow> ('h \<Rightarrow> string) \<Rightarrow> string \<Rightarrow> 'h scope \<Rightarrow> 'h list" where
  "named hash nm x s =
     filter (\<lambda>h. nm h = x) (sHashTable s ! bucket_of hash (sHashSize s) x)"

lemma filter_concat_bucket:
  "i < length tbl \<Longrightarrow> (\<And>j. j < length tbl \<Longrightarrow> j \<noteq> i \<Longrightarrow> filter P (tbl ! j) = []) \<Longrightarrow>
    filter P (concat tbl) = filter P (tbl ! i)"
proof (induction tbl arbitrary: i)
  case Nil
  then show ?case by simp
next
  case (Cons c cs)
  show ?case
  proof (cases i)
    case 0
    have "filter P (concat cs) = []"
      unfolding filter_empty_conv
    proof
      fix h
      assume "h \<in> set (concat cs)"
      then obtain j where j: "j < length cs" "h \<in> set (cs ! j)"
        by (metis UN_E in_set_conv_nth set_concat)
      then show "\<not> P h" using Cons.prems(2) [of "Suc j"] 0 by (simp add: filter_empty_conv)
    qed
    then show ?thesis using 0 by simp
  next
    case (Suc k)
    have "filter P (concat cs) = filter P (cs ! k)"
      using Cons.prems Suc by (intro Cons.IH) fastforce+
    moreover have "filter P c = []" using Cons.prems(2) [of 0] Suc by simp
    ultimately show ?thesis using Suc by simp
  qed
qed

lemma named_items:
  assumes "sHashSize s \<noteq> 0" and "scope_placed hash nm (sHashSize s) (sHashTable s)"
  shows "filter (\<lambda>h. nm h = x) (scope_items s) = named hash nm x s"
  unfolding scope_items_def named_def
proof (rule filter_concat_bucket)
  show "bucket_of hash (sHashSize s) x < length (sHashTable s)"
    using assms bucket_of_less [OF assms(1), of hash x] by (simp add: scope_placed_def)
  show "filter (\<lambda>h. nm h = x) (sHashTable s ! j) = []"
    if "j < length (sHashTable s)" "j \<noteq> bucket_of hash (sHashSize s) x" for j
    using assms(2) that by (auto simp: scope_placed_def filter_empty_conv)
qed

lemma named_put:
  assumes "sHashSize s \<noteq> 0" and "scope_placed hash nm (sHashSize s) (sHashTable s)"
    and "scope_put hash nm h s = Inr t"
  shows "named hash nm x t = (if nm h = x then h # named hash nm x s else named hash nm x s)"
    and "sHashSize t = sHashSize s" and "scope_placed hash nm (sHashSize s) (sHashTable t)"
  using scope_put_ok [OF assms(1,2) refl, of h] assms(3)
  by (auto simp: named_def nth_list_update)

lemma named_put_all:
  assumes "sHashSize s \<noteq> 0" and "scope_placed hash nm (sHashSize s) (sHashTable s)"
    and "scope_put_all hash nm hs s = Inr t"
  shows "named hash nm x t = rev (filter (\<lambda>h. nm h = x) hs) @ named hash nm x s"
  using assms
proof (induction hs arbitrary: s)
  case Nil
  then show ?case by simp
next
  case (Cons h hs)
  from Cons.prems(3) obtain u where u: "scope_put hash nm h s = Inr u"
    "scope_put_all hash nm hs u = Inr t" by auto
  note put = named_put [OF Cons.prems(1,2) u(1)]
  show ?case
    using Cons.IH [OF _ _ u(2)] put Cons.prems(1) by simp
qed

lemma named_alloc:
  assumes "scope_ok hash nm s" and "sz \<noteq> 0" and "scope_alloc_table hash nm sz s = Inr t"
  shows "named hash nm x t = rev (named hash nm x s)"
proof -
  have ok: "sHashSize s \<noteq> 0" "scope_placed hash nm (sHashSize s) (sHashTable s)"
    using assms(1) by (auto simp: scope_ok_def)
  obtain limit where l: "scope_put_all hash nm (concat (sHashTable s))
      (s\<lparr>sHashSize := sz, sNextLimit := limit, sHashTable := replicate (unat sz) []\<rparr>) = Inr t"
    using assms(3) by (auto simp: scope_alloc_table_def)
  have "bucket_of hash sz x < unat sz" by (rule bucket_of_less [OF assms(2)])
  then have "named hash nm x (s\<lparr>sHashSize := sz, sNextLimit := limit,
      sHashTable := replicate (unat sz) []\<rparr>) = []"
    by (simp add: named_def)
  with named_put_all [OF _ _ l, of x] assms(2) named_items [OF ok, of x]
  show ?thesis by (simp add: scope_placed_def scope_items_def)
qed

lemma find_local_named:
  assumes "scope_ok hash nm s"
  shows "scope_find_local hash nm x s =
    Inr (case named hash nm x s of [] \<Rightarrow> None | h # _ \<Rightarrow> Some h)"
proof -
  have "bucket_of hash (sHashSize s) x < length (sHashTable s)" "sHashSize s \<noteq> 0"
    using assms bucket_of_less [of "sHashSize s" hash x]
    by (auto simp: scope_ok_def scope_placed_def)
  moreover have "List.find P xs = (case filter P xs of [] \<Rightarrow> None | h # _ \<Rightarrow> Some h)"
    for P and xs :: "'a list"
    by (induction xs) auto
  ultimately show ?thesis
    by (simp add: scope_find_local_def u_mod_def bucket_of_def named_def)
qed

text \<open>What adding a handle does to the chain of a name.\<close>

lemma named_add:
  assumes "scope_ok hash nm s" and "length (scope_items s) < 2 ^ 28" and "scope_add hash nm h s = Inr t"
  shows "named hash nm x t = (if nm h = x then [h] else []) @
    (if sHashNum s \<ge> sNextLimit s then rev (named hash nm x s) else named hash nm x s)"
proof -
  have ok: "sHashSize s \<noteq> 0" "scope_placed hash nm (sHashSize s) (sHashTable s)"
    using assms(1) by (auto simp: scope_ok_def)
  show ?thesis
  proof (cases "sHashNum s \<ge> sNextLimit s")
    case False
    then show ?thesis
      using assms(3) named_put(1) [OF ok, of h t x] by (simp add: scope_add_def)
  next
    case True
    then obtain u where u: "scope_alloc_table hash nm (push_bit 1 (sHashSize s)) s = Inr u"
      "scope_put hash nm h u = Inr t"
      using assms(3) by (auto simp: scope_add_def)
    obtain l where l: "next_limit (push_bit 1 (sHashSize s)) = Inr l"
      using u(1) by (auto simp: scope_alloc_table_def)
    have "next_limit (sHashSize s) = Inr (sNextLimit s)"
      using assms(1) by (simp add: scope_ok_def)
    from next_limit_double(3) [OF this scope_full_limit [OF assms(1,2) True] ok(1)]
    have sz: "push_bit 1 (sHashSize s) \<noteq> 0" by (simp add: push_bit_1_mult)
    have "sHashSize u = push_bit 1 (sHashSize s)"
      "scope_placed hash nm (sHashSize u) (sHashTable u)"
      using scope_alloc_table_ok [OF sz l, of hash nm s] u(1) by auto
    then show ?thesis
      using named_put(1) [OF _ _ u(2), of x] named_alloc [OF assms(1) sz u(1), of x] sz True by simp
  qed
qed

text \<open>The handles of a name in a scope, in the order of the table.\<close>

definition handles_of :: "('h \<Rightarrow> string) \<Rightarrow> string \<Rightarrow> 'h scope \<Rightarrow> 'h list" where
  "handles_of nm x s = filter (\<lambda>h. nm h = x) (scope_items s)"

lemma handles_of_named: "scope_ok hash nm s \<Longrightarrow> handles_of nm x s = named hash nm x s"
  unfolding handles_of_def scope_ok_def by (blast intro: named_items)

text \<open>
  C33: Which of several handles of one name a lookup finds. It finds the first in the order of the
  table, and adding a handle puts it before all others of its name, so that a lookup right after
  finds it. Adding a handle keeps the order of the older ones unless it makes the table grow; then
  the older handles of every name come in reverse order, and for a name other than that of the
  added handle the lookup finds the one that was last: what shadowed is shadowed.
\<close>

theorem growth_reverses_shadowing:
  assumes "scope_ok hash nm s" and "length (scope_items s) < 2 ^ 28"
  shows "\<exists>t. scope_add hash nm h s = Inr t \<and>
    handles_of nm x t = (if nm h = x then [h] else []) @
      (if sHashNum s \<ge> sNextLimit s then rev (handles_of nm x s) else handles_of nm x s) \<and>
    scope_find_local hash nm x s =
      Inr (if handles_of nm x s = [] then None else Some (hd (handles_of nm x s))) \<and>
    scope_find_local hash nm x t =
      Inr (if nm h = x then Some h
           else if handles_of nm x s = [] then None
           else if sHashNum s \<ge> sNextLimit s then Some (last (handles_of nm x s))
           else Some (hd (handles_of nm x s)))"
proof -
  obtain t where t: "scope_add hash nm h s = Inr t" "scope_ok hash nm t"
    using scope_add_ok [OF assms] by blast
  note named = named_add [OF assms t(1), of x]
    handles_of_named [OF assms(1), of x] handles_of_named [OF t(2), of x]
  show ?thesis
    using t(1) named find_local_named [OF assms(1), of x] find_local_named [OF t(2), of x]
    by (auto simp: hd_rev [symmetric] neq_Nil_conv split: list.splits)
qed

definition crowded :: "(nat \<times> string) scope" where
  "crowded = \<lparr>mParentScope = None, mGlobalScope = None, mName = [], sHashSize = 16, sNextLimit = 28,
     sHashTable = ((1, ''x'') # (0, ''x'') # replicate 26 (2, ''y'')) # replicate 15 [],
     sHashNum = 28\<rparr>"

lemma crowded_ok: "scope_ok (\<lambda>_. 0) snd crowded" "length (scope_items crowded) = 28"
proof -
  have "next_limit 16 = Inr 28" by (simp add: next_limit_def)
  then show "scope_ok (\<lambda>_. 0) snd crowded"
    by (auto simp: scope_ok_def crowded_def scope_placed_def bucket_of_def scope_items_def
        nth_Cons split: nat.splits)
  show "length (scope_items crowded) = 28"
    by (simp add: crowded_def scope_items_def)
qed

lemma growth_reverses_shadowing_witness:
  "scope_find_local (\<lambda>_. 0) snd ''x'' crowded = Inr (Some (1, ''x'')) \<and>
   (\<exists>t. scope_add (\<lambda>_. 0) snd (3, ''z'') crowded = Inr t \<and>
     scope_find_local (\<lambda>_. 0) snd ''x'' t = Inr (Some (0, ''x''))) \<and>
   (\<exists>t. scope_add (\<lambda>_. 0) snd (3, ''x'') crowded = Inr t \<and>
     scope_find_local (\<lambda>_. 0) snd ''x'' t = Inr (Some (3, ''x'')))"
proof -
  have "handles_of snd ''x'' crowded = [(1, ''x''), (0, ''x'')]" "sHashNum crowded \<ge> sNextLimit crowded"
    by (simp_all add: handles_of_def scope_items_def crowded_def)
  with growth_reverses_shadowing [OF crowded_ok(1), of "(3, ''z'')" "''x''"]
    growth_reverses_shadowing [OF crowded_ok(1), of "(3, ''x'')" "''x''"] crowded_ok(2)
  show ?thesis by auto
qed

section \<open>Lexical lookup\<close>

text \<open>The scopes a lookup visits: the enclosing scopes inside out, then the global scope.\<close>

function scope_chain :: "'h scope list \<Rightarrow> nat \<Rightarrow> nat list" where
  "scope_chain scopes this =
     this #
     (case mParentScope (scopes ! this) of
        Some p \<Rightarrow> if p < this then scope_chain scopes p else []
      | None \<Rightarrow> (case mGlobalScope (scopes ! this) of Some g \<Rightarrow> [g] | None \<Rightarrow> []))"
  by pat_completeness auto
termination
  by (relation "measure snd") auto

declare scope_chain.simps [simp del]

text \<open>The pointers of scope number \<open>i\<close> lead to older scopes, and all of one unit share the global.\<close>

definition ptrs_ok :: "'h scope list \<Rightarrow> nat \<Rightarrow> 'h scope \<Rightarrow> bool" where
  "ptrs_ok scopes i s \<longleftrightarrow>
     (case mGlobalScope s of
        None \<Rightarrow> mParentScope s = None
      | Some g \<Rightarrow> g < i \<and> mGlobalScope (scopes ! g) = None \<and>
          (case mParentScope s of
             None \<Rightarrow> True
           | Some p \<Rightarrow> p < i \<and> mGlobalScope (scopes ! p) = Some g))"

definition scopes_ok :: "(string \<Rightarrow> u32) \<Rightarrow> ('h \<Rightarrow> string) \<Rightarrow> 'h scope list \<Rightarrow> bool" where
  "scopes_ok hash nm scopes \<longleftrightarrow>
     (\<forall>i < length scopes. scope_ok hash nm (scopes ! i) \<and> ptrs_ok scopes i (scopes ! i))"

lemma ptrs_ok_append:
  assumes "ptrs_ok scopes i s" and "i \<le> length scopes"
  shows "ptrs_ok (scopes @ [x]) i s"
proof (cases "mGlobalScope s")
  case None
  then show ?thesis using assms by (simp add: ptrs_ok_def)
next
  case (Some g)
  then show ?thesis
    using assms by (cases "mParentScope s") (simp_all add: ptrs_ok_def nth_append)
qed

lemma scopes_okD:
  assumes "scopes_ok hash nm scopes" and "i < length scopes"
  shows "scope_ok hash nm (scopes ! i)"
    and "mGlobalScope (scopes ! i) = None \<Longrightarrow> mParentScope (scopes ! i) = None"
    and "mGlobalScope (scopes ! i) = Some g \<Longrightarrow> g < i \<and> mGlobalScope (scopes ! g) = None"
    and "mParentScope (scopes ! i) = Some p \<Longrightarrow>
      p < i \<and> mGlobalScope (scopes ! p) = mGlobalScope (scopes ! i)"
proof -
  have ok: "scope_ok hash nm (scopes ! i)" "ptrs_ok scopes i (scopes ! i)"
    using assms by (simp_all add: scopes_ok_def)
  from ok show "scope_ok hash nm (scopes ! i)"
    and "mGlobalScope (scopes ! i) = None \<Longrightarrow> mParentScope (scopes ! i) = None"
    and "mGlobalScope (scopes ! i) = Some g \<Longrightarrow> g < i \<and> mGlobalScope (scopes ! g) = None"
    and "mParentScope (scopes ! i) = Some p \<Longrightarrow>
      p < i \<and> mGlobalScope (scopes ! p) = mGlobalScope (scopes ! i)"
    by (auto simp: ptrs_ok_def split: option.splits)
qed

definition hit :: "(string \<Rightarrow> u32) \<Rightarrow> ('h \<Rightarrow> string) \<Rightarrow> string \<Rightarrow> 'h scope \<Rightarrow> 'h option" where
  "hit hash nm name s =
     (case scope_find_local hash nm name s of Inr r \<Rightarrow> r | Inl _ \<Rightarrow> None)"

fun first_hit :: "('a \<Rightarrow> 'b option) \<Rightarrow> 'a list \<Rightarrow> 'b option" where
  "first_hit f [] = None"
| "first_hit f (x # xs) = (case f x of Some y \<Rightarrow> Some y | None \<Rightarrow> first_hit f xs)"

lemma find_local_hit:
  "scope_ok hash nm s \<Longrightarrow> scope_find_local hash nm name s = Inr (hit hash nm name s)"
  using scope_find_local_ok [of hash nm s name] by (auto simp: hit_def)

lemma global_in_chain:
  assumes "scopes_ok hash nm scopes" and "this < length scopes"
    and "mGlobalScope (scopes ! this) = Some g"
  shows "g \<in> set (scope_chain scopes this)"
  using assms(2,3)
proof (induction this rule: less_induct)
  case (less i)
  note ok = scopes_okD [OF assms(1) less.prems(1)]
  show ?case
  proof (cases "mParentScope (scopes ! i)")
    case None
    then show ?thesis using less.prems by (subst scope_chain.simps) simp
  next
    case (Some p)
    then have "p < i" "mGlobalScope (scopes ! p) = Some g"
      using ok(4) less.prems(2) by simp_all
    then have "g \<in> set (scope_chain scopes p)"
      using less.IH less.prems(1) by simp
    then show ?thesis using Some \<open>p < i\<close> by (subst scope_chain.simps) simp
  qed
qed

lemma first_hit_None: "first_hit f xs = None \<longleftrightarrow> (\<forall>x \<in> set xs. f x = None)"
  by (induction xs) (auto split: option.splits)

lemma scope_find_lexical:
  assumes "scopes_ok hash nm scopes"
  shows "this < length scopes \<Longrightarrow> this < fuel \<Longrightarrow>
    scope_find hash nm fuel scopes this name =
      Some (Inr (first_hit (\<lambda>i. hit hash nm name (scopes ! i)) (scope_chain scopes this)))"
proof (induction this arbitrary: fuel rule: less_induct)
  case (less i)
  let ?f = "\<lambda>i. hit hash nm name (scopes ! i)" and ?s = "scopes ! i"
  obtain n where n: "fuel = Suc n" using less.prems(2) by (cases fuel) auto
  note ok = scopes_okD [OF assms less.prems(1)]
  note loc = find_local_hit [OF ok(1), of name]
  show ?case
  proof (cases "?f i")
    case (Some h)
    then show ?thesis
      using n less.prems(1) loc by (subst scope_chain.simps) simp
  next
    case None
    show ?thesis
    proof (cases "mGlobalScope ?s")
      case no_global: None
      then show ?thesis
        using n less.prems(1) loc None ok(2) by (subst scope_chain.simps) simp
    next
      case (Some g)
      then have g: "g < i" "mGlobalScope (scopes ! g) = None" using ok(3) by auto
      then have "mParentScope (scopes ! g) = None"
        using scopes_okD(2) [OF assms] less.prems(1) by simp
      then have chain_g: "scope_chain scopes g = [g]"
        using g(2) by (subst scope_chain.simps) simp
      have run_g: "scope_find hash nm n scopes g name = Some (Inr (first_hit ?f [g]))"
        using less.IH [OF g(1), of n] g(1) less.prems n chain_g by simp
      show ?thesis
      proof (cases "mParentScope ?s")
        case no_parent: None
        then show ?thesis
          using n less.prems(1) loc None Some run_g
          by (subst scope_chain.simps) (simp split: option.split)
      next
        case parent: (Some p)
        then have p: "p < i" "mGlobalScope (scopes ! p) = Some g" using ok(4) Some by auto
        have run_p: "scope_find hash nm n scopes p name =
            Some (Inr (first_hit ?f (scope_chain scopes p)))"
          using less.IH [OF p(1), of n] p(1) less.prems n by simp
        have "g \<in> set (scope_chain scopes p)"
          using global_in_chain [OF assms _ p(2)] p(1) less.prems(1) by simp
        then have "first_hit ?f (scope_chain scopes p) = None \<Longrightarrow> first_hit ?f [g] = None"
          by (simp only: first_hit_None) auto
        then show ?thesis
          using n less.prems(1) loc None Some parent p(1) run_g run_p
          by (subst scope_chain.simps) (simp split: option.split)
      qed
    qed
  qed
qed

text \<open>
  C5: \<^verbatim>\<open>Scope::find\<close> is lexical scoping: over scopes built by \<^verbatim>\<open>new_scope\<close> it returns, with fuel for
  the number of the scope, the hit of the innermost enclosing scope that has one, the global
  scope last. It never fails, and searching the global scope again for each level adds nothing.
\<close>

theorem scope_find_is_lexical:
  assumes "scopes_ok hash nm scopes" and "this < length scopes" and "this < fuel"
  shows "scope_find hash nm fuel scopes this name =
      Some (Inr (first_hit (\<lambda>i. hit hash nm name (scopes ! i)) (scope_chain scopes this)))"
  using assms by (rule scope_find_lexical)

lemma new_scope_inv:
  assumes "scopes_ok hash nm scopes" and "\<forall>p. parent = Some p \<longrightarrow> p < length scopes"
  shows "\<exists>scopes'. new_scope hash nm parent name scopes = Inr (length scopes, scopes') \<and>
    scopes_ok hash nm scopes' \<and> take (length scopes) scopes' = scopes \<and>
    scope_items (scopes' ! length scopes) = [] \<and> length scopes' = Suc (length scopes) \<and>
    scope_chain scopes' (length scopes) =
      length scopes # (case parent of None \<Rightarrow> [] | Some p \<Rightarrow> scope_chain scopes' p)"
proof -
  let ?n = "length scopes"
  define ptrs where "ptrs = (case parent of None \<Rightarrow> (None, None)
    | Some p \<Rightarrow> (case mGlobalScope (scopes ! p) of None \<Rightarrow> (None, Some p) | Some g \<Rightarrow> (Some p, Some g)))"
  obtain s where s: "Scope_new hash nm (fst ptrs) (snd ptrs) name = Inr s" "scope_ok hash nm s"
    "scope_items s = []" "mParentScope s = fst ptrs" "mGlobalScope s = snd ptrs"
    using Scope_new_ok by blast
  have run: "new_scope hash nm parent name scopes = Inr (?n, scopes @ [s])"
    using s(1) assms(2)
    by (auto simp: new_scope_def ptrs_def split: option.splits)
  have old: "(scopes @ [s]) ! i = scopes ! i" if "i < ?n" for i
    using that by (simp add: nth_append)
  note D = scopes_okD [OF assms(1)]
  have new: "ptrs_ok scopes ?n s"
  proof (cases parent)
    case None
    then show ?thesis using s(4,5) by (simp add: ptrs_def ptrs_ok_def)
  next
    case (Some p)
    then have "p < ?n" using assms(2) by simp
    then show ?thesis
      using s(4,5) Some D(3) [of p] by (cases "mGlobalScope (scopes ! p)") (auto simp: ptrs_def ptrs_ok_def)
  qed
  have "scopes_ok hash nm (scopes @ [s])"
    unfolding scopes_ok_def
  proof (intro allI impI)
    fix i
    assume "i < length (scopes @ [s])"
    then consider "i < ?n" | "i = ?n" by fastforce
    then show "scope_ok hash nm ((scopes @ [s]) ! i) \<and> ptrs_ok (scopes @ [s]) i ((scopes @ [s]) ! i)"
    proof cases
      case 1
      then show ?thesis
        using assms(1) by (simp add: old scopes_ok_def ptrs_ok_append)
    next
      case 2
      then show ?thesis
        using s(2) new by (simp add: ptrs_ok_append)
    qed
  qed
  moreover have "scope_chain (scopes @ [s]) ?n =
      ?n # (case parent of None \<Rightarrow> [] | Some p \<Rightarrow> scope_chain (scopes @ [s]) p)"
  proof (cases parent)
    case None
    then show ?thesis using s(4,5) by (subst scope_chain.simps) (simp add: ptrs_def)
  next
    case (Some p)
    then have p: "p < ?n" using assms(2) by simp
    show ?thesis
    proof (cases "mGlobalScope (scopes ! p)")
      case None
      then have "scope_chain (scopes @ [s]) p = [p]"
        using p D(2) by (subst scope_chain.simps) (simp add: old)
      then show ?thesis
        using s(4,5) Some None by (subst scope_chain.simps) (simp add: ptrs_def)
    next
      case (Some g)
      then show ?thesis
        using s(4,5) \<open>parent = Some p\<close> p by (subst scope_chain.simps) (simp add: ptrs_def)
    qed
  qed
  ultimately show ?thesis using run s(3) by simp
qed

text \<open>
  \<^verbatim>\<open>new_scope\<close> keeps the scopes well formed: a new scope is empty, inherits the global scope of its
  parent, and the first level below the global scope has no parent but the global scope itself;
  the lookup path of the new scope is the new scope followed by the path of its parent.
\<close>

theorem new_scope_ok:
  assumes "scopes_ok hash nm scopes" and "\<forall>p. parent = Some p \<longrightarrow> p < length scopes"
  shows "\<exists>scopes'. new_scope hash nm parent name scopes = Inr (length scopes, scopes') \<and>
    scopes_ok hash nm scopes' \<and> take (length scopes) scopes' = scopes \<and>
    scope_items (scopes' ! length scopes) = [] \<and>
    scope_chain scopes' (length scopes) =
      length scopes # (case parent of None \<Rightarrow> [] | Some p \<Rightarrow> scope_chain scopes' p)"
  using new_scope_inv [OF assms] by blast

lemma crowded_scopes_ok: "scopes_ok (\<lambda>_. 0) snd [crowded]"
  using crowded_ok(1) by (simp add: scopes_ok_def ptrs_ok_def) (simp add: crowded_def)

lemma scope_find_is_lexical_witness:
  "scope_find (\<lambda>_. 0) snd 1 [crowded] 0 ''x'' = Some (Inr (Some (1, ''x'')))"
proof -
  have "scope_chain [crowded] 0 = [0]"
    by (subst scope_chain.simps) (simp add: crowded_def)
  moreover have "hit (\<lambda>_. 0) snd ''x'' crowded = Some (1, ''x'')"
    by (simp add: hit_def scope_find_local_def crowded_def u_mod_def)
  ultimately show ?thesis
    using scope_find_is_lexical [OF crowded_scopes_ok, of 0 1 "''x''"] by simp
qed

lemma new_scope_ok_witness:
  "\<exists>scopes'. new_scope (\<lambda>_. 0) snd (Some 0) ''f'' [crowded] = Inr (length [crowded], scopes') \<and>
    scopes_ok (\<lambda>_. 0) snd scopes' \<and> take (length [crowded]) scopes' = [crowded] \<and>
    scope_items (scopes' ! length [crowded]) = [] \<and>
    scope_chain scopes' (length [crowded]) =
      length [crowded] # (case Some 0 of None \<Rightarrow> [] | Some p \<Rightarrow> scope_chain scopes' p)"
  by (rule new_scope_ok [OF crowded_scopes_ok]) simp

end
