(* ===== verification/Ir_Mgr.thy ===== *)
theory Ir_Mgr
  imports Ast Ir_Interp Scope_Table
begin

text \<open>
  The state of the elaborator and the elaboration of expressions and type references
  (\<^verbatim>\<open>include/IrMgr.h\<close>, \<^verbatim>\<open>src/ir/IrMgr_expr.cc\<close>, \<^verbatim>\<open>resolve_type\<close> of \<^verbatim>\<open>src/ir/IrMgr_stmt.cc\<close>).
  \<open>hash\<close> is \<^verbatim>\<open>ShString::hash\<close> of the utility library. Messages on the console are left out.
\<close>

section \<open>State\<close>

text \<open>
  A block of code is a list of node pointers, which may be \<^verbatim>\<open>NULL\<close>. What is mutable in a node is
  kept in the manager: whether a label is defined and the function a call was resolved to, indexed
  by the number of the label or call. An imported module is its number among all modules; the hash
  maps of the utility library from names to modules and from modules to scopes are finite maps.
\<close>

record code_block =
  mVarList :: "ir_handle list"
  mNodeList :: "ir_node option list"

record func_block =
  func_code :: code_block
  mArgList :: "ir_handle list"
  mArgInitList :: "ir_node option list"
  mFuncHandle :: ir_handle

record toplevel =
  top_code :: code_block
  mModuleList :: "nat list"
  mGlobalVarList :: "ir_handle list"
  mFuncList :: "func_block list"

record ir_mgr =
  mTypeMgr :: type_mgr
  mFuncCallList :: "(ast_expr \<times> nat \<times> nat) list"
  mUndefList :: "nat list"
  mScopeList :: "ir_handle scope list"
  mModuleDict :: "string \<rightharpoonup> nat"
  mScopeDict :: "nat \<rightharpoonup> nat"
  label_defined :: "bool list"
  function_address :: "ir_handle option list"
  toplevel_block :: toplevel

section \<open>Steps of the elaborator\<close>

type_synonym 'a elab = "ir_mgr \<Rightarrow> ('a \<times> ir_mgr) res"

definition el_ret :: "'a \<Rightarrow> 'a elab" where
  "el_ret x s = Inr (x, s)"

definition el_bind :: "'a elab \<Rightarrow> ('a \<Rightarrow> 'b elab) \<Rightarrow> 'b elab" where
  "el_bind m f s = res_bind (m s) (\<lambda>(x, s'). f x s')"

definition el_fail :: "fault \<Rightarrow> 'a elab" where
  "el_fail e s = Inl e"

definition el_res :: "'a res \<Rightarrow> 'a elab" where
  "el_res r s = res_bind r (\<lambda>x. Inr (x, s))"

text \<open>Continue with a pointer that is not \<^verbatim>\<open>NULL\<close>; return \<^verbatim>\<open>NULL\<close> otherwise.\<close>

definition el_some :: "'a option elab \<Rightarrow> ('a \<Rightarrow> 'b option elab) \<Rightarrow> 'b option elab" where
  "el_some m f = el_bind m (\<lambda>p. case p of None \<Rightarrow> el_ret None | Some x \<Rightarrow> f x)"

text \<open>Run an operation of the type manager.\<close>

definition el_types :: "(type_mgr \<Rightarrow> ('a \<times> type_mgr) res) \<Rightarrow> 'a elab" where
  "el_types f s = res_bind (f (mTypeMgr s)) (\<lambda>(x, m). Inr (x, s\<lparr>mTypeMgr := m\<rparr>))"

definition el_read :: "(type_mgr \<Rightarrow> 'a res) \<Rightarrow> 'a elab" where
  "el_read f s = res_bind (f (mTypeMgr s)) (\<lambda>x. Inr (x, s))"

text \<open>
  \<^verbatim>\<open>scope->find\<close>: the pointers of a scope lead to older scopes, so the fuel is enough and the
  search never comes back empty-handed for want of it (\<open>find_in_ok\<close> below).
\<close>

definition find_in :: "(string \<Rightarrow> u32) \<Rightarrow> nat \<Rightarrow> string \<Rightarrow> ir_handle option elab" where
  "find_in hash scope name s =
     (case scope_find hash handle_name (Suc (length (mScopeList s))) (mScopeList s) scope name of
        None \<Rightarrow> Inl OutOfBounds
      | Some r \<Rightarrow> res_bind r (\<lambda>h. Inr (h, s)))"

definition new_call :: "ast_expr \<Rightarrow> nat \<Rightarrow> ir_node list \<Rightarrow> ir_node option elab" where
  "new_call func_expr scope arglist s =
     (let n = length (function_address s)
      in Inr (Some (FuncCall n arglist),
           s\<lparr>function_address := function_address s @ [None],
             mFuncCallList := mFuncCallList s @ [(func_expr, scope, n)]\<rparr>))"

definition load_of :: "ir_handle \<Rightarrow> ir_node option elab" where
  "load_of h = el_read (\<lambda>m. res_bind (new_Load m (Some h)) (\<lambda>n. Inr (Some n)))"

definition type_id_is :: "type_id \<Rightarrow> tptr \<Rightarrow> bool elab" where
  "type_id_is k p =
     el_read (\<lambda>m. res_bind (ptr_type_id (mTypeList m) p) (\<lambda>tid. Inr (tid = k)))"

text \<open>The node of an operator whose operands have been typed; the required types are not used.\<close>

definition uni_op :: "op_code \<Rightarrow> ir_node \<Rightarrow> ir_node option elab" where
  "uni_op opcode op0 =
     el_bind (el_read (calc_type1 opcode (value_type op0))) (\<lambda>(type, _).
       if type = None then el_ret None
       else el_res (res_map Some (new_UniOp opcode type (Some op0))))"

definition bin_op :: "op_code \<Rightarrow> ir_node \<Rightarrow> ir_node \<Rightarrow> ir_node option elab" where
  "bin_op opcode op0 op1 =
     el_bind (el_read (calc_type2 opcode (value_type op0) (value_type op1))) (\<lambda>(type, _, _).
       if type = None then el_ret None
       else el_res (res_map Some (new_BinOp opcode type (Some op0) (Some op1))))"

definition tri_op :: "op_code \<Rightarrow> ir_node \<Rightarrow> ir_node \<Rightarrow> ir_node \<Rightarrow> ir_node option elab" where
  "tri_op opcode op0 op1 op2 =
     el_bind (el_read (calc_type3 opcode (value_type op0) (value_type op1) (value_type op2)))
       (\<lambda>(type, _, _, _).
         if type = None then el_ret None
         else el_res (res_map Some (new_TriOp opcode type (Some op0) (Some op1) (Some op2))))"

text \<open>
  The member named in a scope or in the scope of a type. For a variable the local variable
  \<^verbatim>\<open>member\<close> is passed to \<^verbatim>\<open>new_MemberRef\<close> without ever having been set.
\<close>

definition member_ref ::
  "(string \<Rightarrow> u32) \<Rightarrow> string \<Rightarrow> ir_handle option \<Rightarrow> ir_handle option elab" where
  "member_ref hash member h =
     (case h of
        None \<Rightarrow> el_fail NullDeref
      | Some (ScopeHandle _ scope1) \<Rightarrow> find_in hash scope1 member
      | Some (TypeHandle _ _ scope1) \<Rightarrow> find_in hash scope1 member
      | Some (LocalVarHandle name type module_index local_index) \<Rightarrow>
          el_some (load_of (LocalVarHandle name type module_index local_index))
            (\<lambda>base. el_fail Uninit)
      | Some (GlobalVarHandle name type module_index local_index) \<Rightarrow>
          el_some (load_of (GlobalVarHandle name type module_index local_index))
            (\<lambda>base. el_fail Uninit)
      | _ \<Rightarrow> el_fail AssertFail)"

function elab_expr :: "(string \<Rightarrow> u32) \<Rightarrow> ast_expr \<Rightarrow> nat \<Rightarrow> ir_node option elab"
  and elab_args :: "(string \<Rightarrow> u32) \<Rightarrow> ast_expr list \<Rightarrow> nat \<Rightarrow> ir_node list option elab"
  and elab_primary :: "(string \<Rightarrow> u32) \<Rightarrow> ast_expr \<Rightarrow> nat \<Rightarrow> ir_handle option elab" where
  "elab_expr hash TrueE scope = load_of (BooleanConst '''' True)"
| "elab_expr hash FalseE scope = load_of (BooleanConst '''' False)"
| "elab_expr hash (IntConstE v) scope = load_of (IntConst '''' v)"
| "elab_expr hash (FloatConstE v) scope = load_of (FloatConst '''' v)"
| "elab_expr hash (StringConstE v) scope = load_of (StringConst '''' v)"
| "elab_expr hash (SymbolE name) scope =
     el_some (elab_primary hash (SymbolE name) scope) load_of"
| "elab_expr hash (ArrayRefE body index) scope =
     el_some (elab_primary hash (ArrayRefE body index) scope) load_of"
| "elab_expr hash (MemberRefE body member) scope =
     el_some (elab_primary hash (MemberRefE body member) scope) load_of"
| "elab_expr hash (FuncCallE func args) scope =
     el_some (elab_args hash args scope) (new_call func scope)"
| "elab_expr hash (UniOpE opcode a) scope = el_some (elab_expr hash a scope) (uni_op opcode)"
| "elab_expr hash (BinOpE opcode a b) scope =
     el_some (elab_expr hash a scope) (\<lambda>op0.
     el_some (elab_expr hash b scope) (bin_op opcode op0))"
| "elab_expr hash (IteOpE a b c) scope =
     el_some (elab_expr hash a scope) (\<lambda>op0.
     el_some (elab_expr hash b scope) (\<lambda>op1.
     el_some (elab_expr hash c scope) (tri_op kOpIte op0 op1)))"
| "elab_args hash [] scope = el_ret (Some [])"
| "elab_args hash (a # as) scope =
     el_some (elab_expr hash a scope) (\<lambda>arg.
     el_some (elab_args hash as scope) (\<lambda>args. el_ret (Some (arg # args))))"
| "elab_primary hash (SymbolE name) scope = find_in hash scope name"
| "elab_primary hash (ArrayRefE body index) scope =
     el_some (elab_primary hash body scope) (\<lambda>h.
     el_some (load_of h) (\<lambda>base.
     el_bind (type_id_is kArrayType (value_type base)) (\<lambda>is_array.
       if \<not> is_array then el_ret None
       else el_bind (elab_expr hash index scope) (\<lambda>p. case p of
              None \<Rightarrow> el_fail NullDeref
            | Some offset \<Rightarrow>
                el_bind (type_id_is kIntType (value_type offset)) (\<lambda>is_int.
                  el_ret (if is_int then Some (ArrayRef base offset) else None))))))"
| "elab_primary hash (MemberRefE body member) scope =
     el_bind (elab_primary hash body scope) (member_ref hash member)"
| "elab_primary hash TrueE scope = el_fail AssertFail"
| "elab_primary hash FalseE scope = el_fail AssertFail"
| "elab_primary hash (IntConstE v) scope = el_fail AssertFail"
| "elab_primary hash (FloatConstE v) scope = el_fail AssertFail"
| "elab_primary hash (StringConstE v) scope = el_fail AssertFail"
| "elab_primary hash (UniOpE opcode a) scope = el_fail AssertFail"
| "elab_primary hash (BinOpE opcode a b) scope = el_fail AssertFail"
| "elab_primary hash (IteOpE a b c) scope = el_fail AssertFail"
| "elab_primary hash (FuncCallE func args) scope = el_fail AssertFail"
  by pat_completeness auto

termination
  by (relation "measure (\<lambda>x. case x of Inl (_, e, _) \<Rightarrow> Suc (2 * size e)
    | Inr (Inl (_, es, _)) \<Rightarrow> Suc (2 * size_list size es) | Inr (Inr (_, e, _)) \<Rightarrow> 2 * size e)") auto

section \<open>Type references\<close>

fun resolve_type :: "(string \<Rightarrow> u32) \<Rightarrow> ast_type \<Rightarrow> nat \<Rightarrow> nat option elab" where
  "resolve_type hash (PrimT tid) scope =
     (case tid of
        kVoidType \<Rightarrow> el_read (\<lambda>m. Inr (mVoidType m))
      | kBooleanType \<Rightarrow> el_read (\<lambda>m. Inr (mBooleanType m))
      | kIntType \<Rightarrow> el_read (\<lambda>m. Inr (mIntType m))
      | kFloatType \<Rightarrow> el_read (\<lambda>m. Inr (mFloatType m))
      | kStringType \<Rightarrow> el_read (\<lambda>m. Inr (mStringType m))
      | _ \<Rightarrow> el_fail AssertFail)"
| "resolve_type hash (ArrayT t) scope =
     el_some (resolve_type hash t scope) (\<lambda>elem.
       el_bind (el_types (array_type (Some elem))) (\<lambda>p. el_ret (Some p)))"
| "resolve_type hash (SetT t) scope =
     el_some (resolve_type hash t scope) (\<lambda>elem.
       el_bind (el_types (set_type (Some elem))) (\<lambda>p. el_ret (Some p)))"
| "resolve_type hash (MapT k t) scope =
     el_some (resolve_type hash k scope) (\<lambda>key.
     el_some (resolve_type hash t scope) (\<lambda>elem.
       el_bind (el_types (map_type (Some key) (Some elem))) (\<lambda>p. el_ret (Some p))))"
| "resolve_type hash (NamedT name) scope =
     el_some (elab_primary hash name scope) (\<lambda>h. el_ret (handle_named_type h))"

end
