(* ===== verification/Ir_Expr.thy ===== *)
theory Ir_Expr
  imports Ir_Mgr
begin

text \<open>
  What the elaboration of expressions means: a type system over the syntax tree that it decides,
  and the folding of constant expressions by \<^verbatim>\<open>IrInterp\<close> as an evaluation of the syntax tree.
\<close>

section \<open>Lookup\<close>

type_synonym env = "string \<Rightarrow> ir_handle option"

definition scope_env :: "(string \<Rightarrow> u32) \<Rightarrow> ir_mgr \<Rightarrow> nat \<Rightarrow> env" where
  "scope_env hash s scope name =
     first_hit (\<lambda>i. hit hash handle_name name (mScopeList s ! i)) (scope_chain (mScopeList s) scope)"

definition in_scope :: "(string \<Rightarrow> u32) \<Rightarrow> ir_mgr \<Rightarrow> nat \<Rightarrow> bool" where
  "in_scope hash s scope \<longleftrightarrow>
     tm_ok (mTypeMgr s) \<and> scopes_ok hash handle_name (mScopeList s) \<and> scope < length (mScopeList s)"

lemma find_in_ok [simp]:
  "in_scope hash s scope \<Longrightarrow> find_in hash scope name s = Inr (scope_env hash s scope name, s)"
  by (simp add: in_scope_def find_in_def scope_env_def scope_find_lexical del: scope_find.simps)

lemma el_run [simp]:
  "el_ret x s = Inr (x, s)" "el_fail e s = Inl e"
  "el_res r s = res_bind r (\<lambda>x. Inr (x, s))"
  "el_read f s = res_bind (f (mTypeMgr s)) (\<lambda>x. Inr (x, s))"
  by (simp_all add: el_ret_def el_fail_def el_res_def el_read_def)

lemma el_bind_Inr [simp]:
  "m s = Inr (x, s') \<Longrightarrow> el_bind m f s = f x s'" "m s = Inl e \<Longrightarrow> el_bind m f s = Inl e"
  by (simp_all add: el_bind_def)

lemma el_some_Inr [simp]:
  "m s = Inr (Some x, s') \<Longrightarrow> el_some m f s = f x s'"
  "m s = Inr (None, s') \<Longrightarrow> el_some m f s = Inr (None, s')"
  "m s = Inl e \<Longrightarrow> el_some m f s = Inl e"
  by (simp_all add: el_some_def)

section \<open>The type system\<close>

text \<open>The type of what a handle holds, when it can be loaded.\<close>

fun load_type :: "ir_handle \<Rightarrow> nat option" where
  "load_type (GlobalVarHandle _ type _ _) = type"
| "load_type (LocalVarHandle _ type _ _) = type"
| "load_type (FuncHandle _ type _ _) = type"
| "load_type (BooleanConst _ _) = Some 1"
| "load_type (IntConst _ _) = Some 2"
| "load_type (FloatConst _ _) = Some 3"
| "load_type (StringConst _ _) = Some 4"
| "load_type _ = None"

definition unary_ops :: "op_code set" where
  "unary_ops = {kOpCastBoolean, kOpCastInt, kOpCastFloat, kOpBitNeg, kOpLogNot, kOpUniMinus}"

definition uni_rule :: "op_code \<Rightarrow> nat \<Rightarrow> nat option" where
  "uni_rule opcode p =
     (if opcode = kOpBitNeg \<and> p = 2 then Some 2
      else if opcode = kOpLogNot \<and> truthy p then Some 1
      else if opcode = kOpUniMinus \<and> p \<in> {2, 3} then Some p
      else None)"

definition array_rule :: "type_mgr \<Rightarrow> nat \<Rightarrow> nat \<Rightarrow> nat option" where
  "array_rule m p q =
     (case mTypeList m ! p of ArrayTy e \<Rightarrow> if q = 2 then Some e else None | _ \<Rightarrow> None)"

fun expr_type :: "type_mgr \<Rightarrow> env \<Rightarrow> ast_expr \<Rightarrow> nat option" where
  "expr_type m env TrueE = Some 1"
| "expr_type m env FalseE = Some 1"
| "expr_type m env (IntConstE _) = Some 2"
| "expr_type m env (FloatConstE _) = Some 3"
| "expr_type m env (StringConstE _) = Some 4"
| "expr_type m env (SymbolE name) = Option.bind (env name) load_type"
| "expr_type m env (ArrayRefE body index) =
     Option.bind (expr_type m env body) (\<lambda>p. Option.bind (expr_type m env index) (array_rule m p))"
| "expr_type m env (UniOpE opcode a) = Option.bind (expr_type m env a) (uni_rule opcode)"
| "expr_type m env (BinOpE opcode a b) =
     Option.bind (expr_type m env a) (\<lambda>p. Option.bind (expr_type m env b) (\<lambda>q.
       map_option fst (type2_rule m opcode p q)))"
| "expr_type m env (IteOpE a b c) =
     Option.bind (expr_type m env a) (\<lambda>p. Option.bind (expr_type m env b) (\<lambda>q.
       Option.bind (expr_type m env c) (\<lambda>r. if truthy p \<and> q = r then Some q else None)))"
| "expr_type m env (MemberRefE _ _) = None"
| "expr_type m env (FuncCallE _ _) = None"

text \<open>
  The expressions the theorem is about: no calls and no members, symbols that can be loaded when
  they are found, and subscripts of names and of array references, as the grammar has them.
\<close>

fun is_primary :: "ast_expr \<Rightarrow> bool" where
  "is_primary (SymbolE _) = True"
| "is_primary (ArrayRefE _ _) = True"
| "is_primary _ = False"

fun plain :: "type_mgr \<Rightarrow> env \<Rightarrow> ast_expr \<Rightarrow> bool" where
  "plain m env (SymbolE name) =
     (case env name of None \<Rightarrow> True
      | Some h \<Rightarrow> (case load_type h of Some t \<Rightarrow> valid_ptr m t | None \<Rightarrow> False))"
| "plain m env (ArrayRefE body index) =
     (is_primary body \<and> plain m env body \<and> plain m env index)"
| "plain m env (UniOpE opcode a) = (opcode \<in> unary_ops \<and> plain m env a)"
| "plain m env (BinOpE opcode a b) =
     (opcode \<in> binary_ops \<and> plain m env a \<and> plain m env b)"
| "plain m env (IteOpE a b c) = (plain m env a \<and> plain m env b \<and> plain m env c)"
| "plain m env (MemberRefE _ _) = False"
| "plain m env (FuncCallE _ _) = False"
| "plain m env _ = True"

text \<open>
  The expressions whose elaboration dereferences a null pointer: the code asks for the type of an
  index without looking whether the index has a node. An operand is reached only when those before
  it have a node, an index only when what is subscripted is an array.
\<close>

definition is_array :: "type_mgr \<Rightarrow> nat option \<Rightarrow> bool" where
  "is_array m t = (case t of None \<Rightarrow> False | Some p \<Rightarrow> (case mTypeList m ! p of ArrayTy _ \<Rightarrow> True | _ \<Rightarrow> False))"

fun crashes :: "type_mgr \<Rightarrow> env \<Rightarrow> ast_expr \<Rightarrow> bool" where
  "crashes m env (ArrayRefE body index) =
     (crashes m env body \<or>
      is_array m (expr_type m env body) \<and> (crashes m env index \<or> expr_type m env index = None))"
| "crashes m env (UniOpE opcode a) = crashes m env a"
| "crashes m env (BinOpE opcode a b) =
     (crashes m env a \<or> expr_type m env a \<noteq> None \<and> crashes m env b)"
| "crashes m env (IteOpE a b c) =
     (crashes m env a \<or> expr_type m env a \<noteq> None \<and>
      (crashes m env b \<or> expr_type m env b \<noteq> None \<and> crashes m env c))"
| "crashes m env _ = False"

text \<open>An expression of literals and named constants.\<close>

fun const_expr :: "env \<Rightarrow> ast_expr \<Rightarrow> bool" where
  "const_expr env (SymbolE name) = (case env name of None \<Rightarrow> False | Some h \<Rightarrow> handle_is_static h)"
| "const_expr env (UniOpE _ a) = const_expr env a"
| "const_expr env (BinOpE _ a b) = (const_expr env a \<and> const_expr env b)"
| "const_expr env (IteOpE a b c) = (const_expr env a \<and> const_expr env b \<and> const_expr env c)"
| "const_expr env (ArrayRefE _ _) = False"
| "const_expr env (MemberRefE _ _) = False"
| "const_expr env (FuncCallE _ _) = False"
| "const_expr env _ = True"

section \<open>Nodes for typed operands\<close>

lemma load_of_ok:
  assumes "tm_ok (mTypeMgr s)" and "load_type h = Some t"
  shows "load_of h s = Inr (Some (Load (Some t) h), s)"
  using assms(2)
  by (cases h) (auto simp: load_of_def new_Load_def load_value_type_def not_null_def prims_members [OF assms(1)])

lemma load_array_ok:
  assumes "value_type base = Some p" and "valid_ptr (mTypeMgr s) p"
    and "mTypeList (mTypeMgr s) ! p = ArrayTy e"
  shows "load_of (ArrayRef base offset) s = Inr (Some (Load (Some e) (ArrayRef base offset)), s)"
  using assms
  by (simp add: load_of_def new_Load_def load_value_type_def not_null_def deref_def type_at_def valid_ptr_def)

lemma calc_type1_rule:
  assumes "tm_ok m" and "valid_ptr m p" and "opcode \<in> unary_ops"
  shows "\<exists>r. calc_type1 opcode (Some p) m = Inr (uni_rule opcode p, r)"
  using assms(3) castable_truthy [OF assms(1,2)]
  by (auto simp: unary_ops_def calc_type1_def uni_rule_def prims_members [OF assms(1)])

lemma uni_op_ok:
  assumes "tm_ok (mTypeMgr s)" and "valid_ptr (mTypeMgr s) p" and "opcode \<in> unary_ops"
    and "value_type a = Some p"
  shows "uni_op opcode a s =
    Inr (map_option (\<lambda>t. UniOp opcode (Some t) a) (uni_rule opcode p), s)"
  using calc_type1_rule [OF assms(1-3)] assms(4)
  by (cases "uni_rule opcode p") (auto simp: uni_op_def new_UniOp_def not_null_def)

lemma bin_op_ok:
  assumes "tm_ok (mTypeMgr s)" and "valid_ptr (mTypeMgr s) p" and "valid_ptr (mTypeMgr s) q"
    and "opcode \<in> binary_ops" and "value_type a = Some p" and "value_type b = Some q"
  shows "bin_op opcode a b s = Inr (map_option (\<lambda>r. BinOp opcode (Some (fst r)) a b)
    (type2_rule (mTypeMgr s) opcode p q), s)"
  using calc_type2_rule [OF assms(1-4)] assms(5,6)
  by (cases "type2_rule (mTypeMgr s) opcode p q")
    (auto simp: bin_op_def new_BinOp_def not_null_def rule_result_def)

lemma tri_op_ok:
  assumes "tm_ok (mTypeMgr s)" and "valid_ptr (mTypeMgr s) p"
    and "value_type a = Some p" and "value_type b = Some q" and "value_type c = Some r"
  shows "tri_op kOpIte a b c s =
    Inr (if truthy p \<and> q = r then Some (TriOp kOpIte (Some q) a b c) else None, s)"
  using castable_truthy [OF assms(1,2)] assms(3-5)
  by (auto simp: tri_op_def new_TriOp_def not_null_def calc_type3_def both_def)

lemma type_id_is_ok:
  "valid_ptr (mTypeMgr s) p \<Longrightarrow>
    type_id_is k (Some p) s = Inr (ty_id (mTypeList (mTypeMgr s) ! p) = k, s)"
  by (simp add: type_id_is_def ptr_type_id_def deref_def type_at_def valid_ptr_def)

section \<open>Elaboration decides the type system\<close>

lemma type2_rule_valid:
  "tm_ok m \<Longrightarrow> valid_ptr m p \<Longrightarrow> valid_ptr m q \<Longrightarrow> type2_rule m opcode p q = Some r \<Longrightarrow>
    valid_ptr m (fst r)"
  using valid_prims [of m] by (auto simp: type2_rule_def split: if_splits)

lemma uni_rule_valid: "tm_ok m \<Longrightarrow> uni_rule opcode p = Some t \<Longrightarrow> valid_ptr m t"
  using valid_prims [of m] by (auto simp: uni_rule_def split: if_splits)

lemma array_rule_valid:
  assumes "tm_ok m" and "valid_ptr m p" and "array_rule m p q = Some e"
  shows "valid_ptr m e" and "mTypeList m ! p = ArrayTy e" and "q = 2"
proof -
  show arr: "mTypeList m ! p = ArrayTy e" "q = 2"
    using assms(3) by (auto simp: array_rule_def split: ty.splits if_splits)
  have "refs_ok (mTypeList m)" using assms(1) by (simp add: tm_ok_def tm_core_def)
  then have "e < p" using arr(1) assms(2) by (force simp: refs_ok_def valid_ptr_def)
  then show "valid_ptr m e" using assms(2) by (simp add: valid_ptr_def)
qed

text \<open>What the elaboration of an expression answers for its type.\<close>

definition node_ok :: "type_mgr \<Rightarrow> env \<Rightarrow> ast_expr \<Rightarrow> ir_node option \<Rightarrow> bool" where
  "node_ok m env e r =
     (case expr_type m env e of
        None \<Rightarrow> r = None
      | Some t \<Rightarrow> valid_ptr m t \<and>
          (\<exists>n. r = Some n \<and> value_type n = Some t \<and> (is_static n \<longleftrightarrow> const_expr env e)))"

lemma prim_kind:
  assumes "tm_ok m" and "valid_ptr m p" and "mTypeList m ! p = PrimTy t"
  shows "t \<in> {kVoidType, kBooleanType, kIntType, kFloatType, kStringType}"
proof -
  have "p < 5" using assms by (auto simp: tm_ok_def prims_ok_def valid_ptr_def not_le [symmetric])
  then consider "p = 0" | "p = 1" | "p = 2" | "p = 3" | "p = 4" by linarith
  then show ?thesis using assms(3) prims_at [OF assms(1)] by cases auto
qed

lemma elab_primary_load:
  assumes "is_primary e"
  shows "elab_expr hash e scope = el_some (elab_primary hash e scope) load_of"
  using assms by (cases e) simp_all

text \<open>What elaboration answers: the node of the type, or the fault.\<close>

definition decides :: "(string \<Rightarrow> u32) \<Rightarrow> ir_mgr \<Rightarrow> env \<Rightarrow> nat \<Rightarrow> ast_expr \<Rightarrow> bool" where
  "decides hash s env scope e \<longleftrightarrow>
     (if crashes (mTypeMgr s) env e
      then elab_expr hash e scope s = Inl NullDeref \<and>
        (is_primary e \<longrightarrow> elab_primary hash e scope s = Inl NullDeref)
      else \<exists>r. elab_expr hash e scope s = Inr (r, s) \<and> node_ok (mTypeMgr s) env e r)"

lemma primary_of:
  assumes "is_primary e" and "elab_expr hash e scope s = Inr (r, s)"
  shows "case r of None \<Rightarrow> elab_primary hash e scope s = Inr (None, s)
    | Some n \<Rightarrow> \<exists>h. elab_primary hash e scope s = Inr (Some h, s) \<and> load_of h s = Inr (Some n, s)"
proof -
  obtain h s' where h: "elab_primary hash e scope s = Inr (h, s')"
    using assms by (cases "elab_primary hash e scope s") (auto simp: elab_primary_load)
  show ?thesis
    using assms h
    by (cases h; cases r) (auto simp: elab_primary_load load_of_def res_map_def res_bind_eq_Inr)
qed

lemma int_type_id:
  assumes "tm_ok m" and "valid_ptr m q"
  shows "ty_id (mTypeList m ! q) = kIntType \<longleftrightarrow> q = 2"
  using prims_at(3) [OF assms(1)] assms
  by (auto simp: tm_ok_def tm_core_def prims_ok_def valid_ptr_def canonical_def)
    (cases "mTypeList m ! q"; force)

lemma array_id:
  assumes "tm_ok m" and "valid_ptr m p"
  shows "ty_id (mTypeList m ! p) = kArrayType \<longleftrightarrow> is_array m (Some p)"
  using prim_kind [OF assms] by (cases "mTypeList m ! p") (auto simp: is_array_def)

text \<open>A subscript of an array: what its index answers decides.\<close>

lemma elab_index:
  assumes tm: "tm_ok (mTypeMgr s)" and p: "valid_ptr (mTypeMgr s) p" "mTypeList (mTypeMgr s) ! p = ArrayTy e"
    and body: "elab_primary hash body scope s = Inr (Some h, s)" "load_of h s = Inr (Some b, s)"
      "value_type b = Some p"
    and index: "decides hash s env scope index"
  shows "elab_primary hash (ArrayRefE body index) scope s =
    (if crashes (mTypeMgr s) env index \<or> expr_type (mTypeMgr s) env index = None then Inl NullDeref
     else Inr (if expr_type (mTypeMgr s) env index = Some 2
       then Some (ArrayRef b (the (fst (projr (elab_expr hash index scope s))))) else None, s))"
proof (cases "crashes (mTypeMgr s) env index")
  case True
  then show ?thesis
    using body index p by (simp add: decides_def type_id_is_ok)
next
  case False
  then obtain r where r: "elab_expr hash index scope s = Inr (r, s)" "node_ok (mTypeMgr s) env index r"
    using index by (auto simp: decides_def)
  show ?thesis
  proof (cases "expr_type (mTypeMgr s) env index")
    case None
    then show ?thesis using body r p by (simp add: type_id_is_ok node_ok_def)
  next
    case (Some q)
    then obtain i where "r = Some i" "value_type i = Some q" "valid_ptr (mTypeMgr s) q"
      using r(2) by (auto simp: node_ok_def)
    then show ?thesis
      using body r(1) p Some False by (simp add: type_id_is_ok int_type_id [OF tm])
  qed
qed

lemma decides_array:
  assumes ok: "in_scope hash s scope" and prim: "is_primary body"
    and body: "decides hash s env scope body" and index: "decides hash s env scope index"
  shows "decides hash s env scope (ArrayRefE body index)"
proof (cases "crashes (mTypeMgr s) env body")
  case True
  then show ?thesis using body prim by (simp add: decides_def)
next
  case False
  let ?m = "mTypeMgr s" and ?e = "ArrayRefE body index"
  have tm: "tm_ok ?m" using ok by (simp add: in_scope_def)
  obtain r where r: "elab_expr hash body scope s = Inr (r, s)" "node_ok ?m env body r"
    using False body by (auto simp: decides_def)
  note pr = primary_of [OF prim r(1)]
  show ?thesis
  proof (cases "expr_type ?m env body")
    case None
    then show ?thesis using pr r(2) False by (simp add: node_ok_def decides_def is_array_def)
  next
    case (Some p)
    then obtain b h where b: "r = Some b" "value_type b = Some p" "valid_ptr ?m p"
      "elab_primary hash body scope s = Inr (Some h, s)" "load_of h s = Inr (Some b, s)"
      using r(2) pr by (auto simp: node_ok_def)
    show ?thesis
    proof (cases "is_array ?m (Some p)")
      case no_array: False
      then have "array_rule ?m p q = None" for q by (auto simp: is_array_def array_rule_def split: ty.splits)
      then have "expr_type ?m env ?e = None" using Some by (cases "expr_type ?m env index") simp_all
      moreover have "elab_primary hash ?e scope s = Inr (None, s)"
        using b no_array array_id [OF tm b(3)] by (simp add: type_id_is_ok)
      ultimately show ?thesis
        using no_array Some False by (simp add: decides_def node_ok_def del: elab_primary.simps)
    next
      case True
      then obtain e where e: "mTypeList ?m ! p = ArrayTy e" by (auto simp: is_array_def split: ty.splits)
      have "valid_ptr ?m e"
        using array_rule_valid(1) [OF tm b(3), of 2 e] e by (simp add: array_rule_def)
      then show ?thesis
        using elab_index [OF tm b(3) e b(4,5,2) index] load_array_ok [OF b(2,3) e] e Some False
        by (cases "expr_type ?m env index")
          (auto simp: decides_def node_ok_def array_rule_def is_array_def simp del: elab_primary.simps)
    qed
  qed
qed

lemma decides_uni:
  assumes "in_scope hash s scope" and "decides hash s env scope a" and "opcode \<in> unary_ops"
  shows "decides hash s env scope (UniOpE opcode a)"
proof (cases "crashes (mTypeMgr s) env a")
  case True
  then show ?thesis using assms(2) by (simp add: decides_def)
next
  case False
  let ?m = "mTypeMgr s"
  have tm: "tm_ok ?m" using assms(1) by (simp add: in_scope_def)
  obtain r where r: "elab_expr hash a scope s = Inr (r, s)" "node_ok ?m env a r"
    using False assms(2) by (auto simp: decides_def)
  show ?thesis
  proof (cases "expr_type ?m env a")
    case None
    then show ?thesis using r False by (simp add: decides_def node_ok_def)
  next
    case (Some p)
    then obtain n where n: "r = Some n" "value_type n = Some p" "valid_ptr ?m p"
      "is_static n \<longleftrightarrow> const_expr env a"
      using r(2) by (auto simp: node_ok_def)
    then have "uni_op opcode n s = Inr (map_option (\<lambda>t. UniOp opcode (Some t) n) (uni_rule opcode p), s)"
      using uni_op_ok [OF tm] assms(3) by simp
    then show ?thesis
      using r(1) n Some False uni_rule_valid [OF tm, of opcode p]
      by (cases "uni_rule opcode p") (simp_all add: decides_def node_ok_def)
  qed
qed

lemma decides_bin:
  assumes "in_scope hash s scope" and "decides hash s env scope a" and "decides hash s env scope b"
    and "opcode \<in> binary_ops"
  shows "decides hash s env scope (BinOpE opcode a b)"
proof (cases "crashes (mTypeMgr s) env a")
  case True
  then show ?thesis using assms(2) by (simp add: decides_def)
next
  case False
  let ?m = "mTypeMgr s"
  have tm: "tm_ok ?m" using assms(1) by (simp add: in_scope_def)
  obtain r where r: "elab_expr hash a scope s = Inr (r, s)" "node_ok ?m env a r"
    using False assms(2) by (auto simp: decides_def)
  show ?thesis
  proof (cases "expr_type ?m env a")
    case None
    then show ?thesis using r False by (simp add: decides_def node_ok_def)
  next
    case (Some p)
    then obtain n where n: "r = Some n" "value_type n = Some p" "valid_ptr ?m p"
      "is_static n \<longleftrightarrow> const_expr env a"
      using r(2) by (auto simp: node_ok_def)
    show ?thesis
    proof (cases "crashes ?m env b")
      case True
      then show ?thesis using r(1) n(1) Some assms(3) by (simp add: decides_def)
    next
      case b_safe: False
      then obtain r' where r': "elab_expr hash b scope s = Inr (r', s)" "node_ok ?m env b r'"
        using assms(3) by (auto simp: decides_def)
      show ?thesis
      proof (cases "expr_type ?m env b")
        case None
        then show ?thesis using r r' n Some False b_safe by (simp add: decides_def node_ok_def)
      next
        case b: (Some q)
        then obtain n' where n': "r' = Some n'" "value_type n' = Some q" "valid_ptr ?m q"
          "is_static n' \<longleftrightarrow> const_expr env b"
          using r'(2) by (auto simp: node_ok_def)
        from bin_op_ok [OF tm n(3) n'(3) assms(4) n(2) n'(2)] show ?thesis
          using r(1) r'(1) n n' Some b False b_safe type2_rule_valid [OF tm n(3) n'(3), of opcode]
          by (cases "type2_rule ?m opcode p q") (simp_all add: decides_def node_ok_def)
      qed
    qed
  qed
qed

lemma decides_ite:
  assumes "in_scope hash s scope" and "decides hash s env scope a" and "decides hash s env scope b"
    and "decides hash s env scope c"
  shows "decides hash s env scope (IteOpE a b c)"
proof -
  let ?m = "mTypeMgr s"
  have tm: "tm_ok ?m" using assms(1) by (simp add: in_scope_def)
  show ?thesis
    using assms(2-4) tri_op_ok [OF tm]
    by (cases "expr_type ?m env a"; cases "expr_type ?m env b"; cases "expr_type ?m env c")
      (auto simp: decides_def node_ok_def split: if_splits)
qed

lemma decides_symbol:
  assumes "in_scope hash s scope" and "plain (mTypeMgr s) (scope_env hash s scope) (SymbolE name)"
  shows "decides hash s (scope_env hash s scope) scope (SymbolE name)"
proof (cases "scope_env hash s scope name")
  case None
  then show ?thesis using assms(1) by (simp add: decides_def node_ok_def)
next
  case (Some h)
  have tm: "tm_ok (mTypeMgr s)" using assms(1) by (simp add: in_scope_def)
  obtain t where "load_type h = Some t" "valid_ptr (mTypeMgr s) t"
    using assms(2) Some by (auto split: option.splits)
  then show ?thesis using assms(1) Some load_of_ok [OF tm] by (simp add: decides_def node_ok_def)
qed

lemma elab_decides:
  assumes "in_scope hash s scope"
  shows "plain (mTypeMgr s) (scope_env hash s scope) e \<Longrightarrow> decides hash s (scope_env hash s scope) scope e"
proof (induction e)
  case (SymbolE name)
  then show ?case using decides_symbol [OF assms] by simp
next
  case (ArrayRefE body index)
  then show ?case using decides_array [OF assms] by simp
next
  case (UniOpE opcode a)
  then show ?case using decides_uni [OF assms] by simp
next
  case (BinOpE opcode a b)
  then show ?case using decides_bin [OF assms] by simp
next
  case (IteOpE a b c)
  then show ?case using decides_ite [OF assms] by simp
qed (use assms load_of_ok valid_prims in \<open>auto simp: decides_def node_ok_def in_scope_def\<close>)

lemma elab_expr_types:
  assumes "in_scope hash s scope" and "plain (mTypeMgr s) (scope_env hash s scope) e"
    and "\<not> crashes (mTypeMgr s) (scope_env hash s scope) e"
  shows "\<exists>r. elab_expr hash e scope s = Inr (r, s) \<and> node_ok (mTypeMgr s) (scope_env hash s scope) e r"
  using elab_decides [OF assms(1,2)] assms(3) by (simp add: decides_def)

lemma elab_expr_crashes:
  assumes "in_scope hash s scope" and "plain (mTypeMgr s) (scope_env hash s scope) e"
    and "crashes (mTypeMgr s) (scope_env hash s scope) e"
  shows "elab_expr hash e scope s = Inl NullDeref"
    and "is_primary e \<Longrightarrow> elab_primary hash e scope s = Inl NullDeref"
  using elab_decides [OF assms(1,2)] assms(3) by (simp_all add: decides_def)

lemma const_expr_safe: "const_expr env e \<Longrightarrow> \<not> crashes m env e"
  by (induction e) auto

section \<open>Constant expressions\<close>

text \<open>
  The value of an expression of literals and named constants, and the kind of those whose operands
  have the same kind, so that no cast is needed.
\<close>

fun ast_eval :: "env \<Rightarrow> ast_expr \<Rightarrow> const_val res" where
  "ast_eval env TrueE = Inr (BoolV True)"
| "ast_eval env FalseE = Inr (BoolV False)"
| "ast_eval env (IntConstE i) = Inr (IntV i)"
| "ast_eval env (FloatConstE x) = Inr (FloatV x)"
| "ast_eval env (SymbolE name) =
     (case env name of None \<Rightarrow> Inl AssertFail | Some h \<Rightarrow> load_const h)"
| "ast_eval env (UniOpE op a) = res_bind (ast_eval env a) (apply_uni op)"
| "ast_eval env (BinOpE op a b) =
     res_bind (ast_eval env a) (\<lambda>x.
       if op = kOpLogAnd then if_val x (ast_eval env b) (Inr (BoolV False))
       else if op = kOpLogOr then if_val x (Inr (BoolV True)) (ast_eval env b)
       else res_bind (ast_eval env b) (apply_bin op x))"
| "ast_eval env (IteOpE a b c) =
     res_bind (ast_eval env a) (\<lambda>x. if_val x (ast_eval env b) (ast_eval env c))"
| "ast_eval env _ = Inl AssertFail"

fun handle_kind :: "ir_handle \<Rightarrow> type_id option" where
  "handle_kind (BooleanConst _ _) = Some kBooleanType"
| "handle_kind (IntConst _ _) = Some kIntType"
| "handle_kind (FloatConst _ _) = Some kFloatType"
| "handle_kind _ = None"

definition bin_kind :: "op_code \<Rightarrow> type_id \<Rightarrow> type_id option" where
  "bin_kind op k =
     (if op \<in> {kOpLogAnd, kOpLogOr} then if k = kBooleanType then Some k else None
      else if cmp_op op then if k = kBooleanType then None else Some kBooleanType
      else if k = kIntType \<and> int_binop op \<noteq> None then Some k
      else if k = kFloatType \<and> float_binop op \<noteq> None then Some k
      else None)"

definition uni_kind :: "op_code \<Rightarrow> type_id \<Rightarrow> type_id option" where
  "uni_kind op k =
     (if op = kOpLogNot \<and> k = kBooleanType \<or> op = kOpBitNeg \<and> k = kIntType \<or>
         op = kOpUniMinus \<and> k \<noteq> kBooleanType
      then Some k else None)"

fun const_kind :: "env \<Rightarrow> ast_expr \<Rightarrow> type_id option" where
  "const_kind env TrueE = Some kBooleanType"
| "const_kind env FalseE = Some kBooleanType"
| "const_kind env (IntConstE _) = Some kIntType"
| "const_kind env (FloatConstE _) = Some kFloatType"
| "const_kind env (SymbolE name) = Option.bind (env name) handle_kind"
| "const_kind env (UniOpE op a) = Option.bind (const_kind env a) (uni_kind op)"
| "const_kind env (BinOpE op a b) =
     Option.bind (const_kind env a)
       (\<lambda>k. if const_kind env b = Some k then bin_kind op k else None)"
| "const_kind env (IteOpE a b c) =
     (if const_kind env a = Some kBooleanType \<and> const_kind env b = const_kind env c
      then const_kind env b else None)"
| "const_kind env _ = None"

fun kind_no :: "type_id \<Rightarrow> nat" where
  "kind_no kBooleanType = 1"
| "kind_no kIntType = 2"
| "kind_no kFloatType = 3"
| "kind_no _ = 0"

definition scalar_kinds :: "type_id set" where
  "scalar_kinds = {kBooleanType, kIntType, kFloatType}"

lemma kind_no_type:
  assumes "tm_ok m" and "k \<in> scalar_kinds"
  shows "ptr_type_id (mTypeList m) (Some (kind_no k)) = Inr k"
  using prims_at [OF assms(1)] assms(2)
  by (auto simp: scalar_kinds_def ptr_type_id_def deref_def type_at_def)

lemma bin_kind_rule:
  assumes "bin_kind op k = Some k'" and "k \<in> scalar_kinds"
  shows "op \<in> binary_ops" and "k' \<in> scalar_kinds"
    and "map_option fst (type2_rule m op (kind_no k) (kind_no k)) = Some (kind_no k')"
  using assms
  by (cases op; auto simp: bin_kind_def scalar_kinds_def binary_ops_def arith_ops_def type2_rule_def
      truthy_def cmp_op_def int_binop_def float_binop_def split: if_splits)+

lemma uni_kind_rule:
  assumes "uni_kind op k = Some k'" and "k \<in> scalar_kinds"
  shows "op \<in> unary_ops" and "k' \<in> scalar_kinds" and "uni_rule op (kind_no k) = Some (kind_no k')"
  using assms
  by (auto simp: uni_kind_def scalar_kinds_def unary_ops_def uni_rule_def truthy_def
      split: if_splits)

text \<open>A constant expression is typed by its kind.\<close>

lemma const_kind_plain:
  assumes "tm_ok m"
  shows "const_kind env e = Some k \<Longrightarrow>
    k \<in> scalar_kinds \<and> plain m env e \<and> expr_type m env e = Some (kind_no k) \<and> const_expr env e"
proof (induction e arbitrary: k)
  case (SymbolE name)
  then obtain h where h: "env name = Some h" "handle_kind h = Some k"
    by (auto simp: bind_eq_Some_conv)
  then have "k \<in> scalar_kinds \<and> load_type h = Some (kind_no k) \<and> handle_is_static h"
    by (cases h) (auto simp: scalar_kinds_def)
  moreover from this have "valid_ptr m (kind_no k)"
    using valid_prims [OF assms] by (auto simp: scalar_kinds_def)
  ultimately show ?case using h by simp
next
  case (UniOpE op a)
  then obtain j where "const_kind env a = Some j" "uni_kind op j = Some k"
    by (auto simp: bind_eq_Some_conv)
  then show ?case using UniOpE.IH uni_kind_rule [of op j k] by simp
next
  case (BinOpE op a b)
  then obtain j where "const_kind env a = Some j" "const_kind env b = Some j" "bin_kind op j = Some k"
    by (auto simp: bind_eq_Some_conv split: if_splits)
  then show ?case using BinOpE.IH bin_kind_rule [of op j k] by simp
next
  case (IteOpE a b c)
  then have "const_kind env a = Some kBooleanType" "const_kind env b = Some k"
    "const_kind env c = Some k"
    by (auto split: if_splits)
  then show ?case using IteOpE.IH by (simp add: truthy_def)
qed (auto simp: scalar_kinds_def)

text \<open>The node of a constant expression is well typed and has the value of the expression.\<close>

definition folds :: "ty list \<Rightarrow> type_id \<Rightarrow> const_val res \<Rightarrow> ir_node \<Rightarrow> bool" where
  "folds tys k r n \<longleftrightarrow> wt tys n k \<and> value_type n = Some (kind_no k) \<and> eval_ref n = r"

lemma const_load:
  assumes "tm_ok m" and "handle_kind h = Some k"
  shows "k \<in> scalar_kinds" and "load_type h = Some (kind_no k)"
    and "folds (mTypeList m) k (load_const h) (Load (Some (kind_no k)) h)"
  using assms(2) kind_no_type [OF assms(1), of k]
  by (cases h; auto simp: folds_def scalar_kinds_def)+

lemma uni_folds:
  assumes "tm_ok m" and "folds (mTypeList m) k r a" and "uni_kind op k = Some k'" and "k \<in> scalar_kinds"
  shows "folds (mTypeList m) k' (res_bind r (apply_uni op)) (UniOp op (Some (kind_no k')) a)"
  using assms(2-4) kind_no_type [OF assms(1), of k']
  by (auto simp: folds_def uni_kind_def scalar_kinds_def split: if_splits)

lemma bin_folds:
  assumes "tm_ok m" and "folds (mTypeList m) k r a" and "folds (mTypeList m) k r' b"
    and "bin_kind op k = Some k'" and "k \<in> scalar_kinds"
  shows "folds (mTypeList m) k'
    (res_bind r (\<lambda>x. if op = kOpLogAnd then if_val x r' (Inr (BoolV False))
      else if op = kOpLogOr then if_val x (Inr (BoolV True)) r'
      else res_bind r' (apply_bin op x))) (BinOp op (Some (kind_no k')) a b)"
proof -
  have wt: "wt (mTypeList m) a k" "wt (mTypeList m) b k" using assms(2,3) by (simp_all add: folds_def)
  have ty: "ptr_type_id (mTypeList m) (Some (kind_no k')) = Inr k'"
    using kind_no_type [OF assms(1)] bin_kind_rule(2) [OF assms(4,5)] by simp
  have "wt (mTypeList m) (BinOp op (Some (kind_no k')) a b) k'"
    using assms(4) wt ty
    by (auto simp: bin_kind_def cmp_op_def split: if_splits)
  then show ?thesis using assms(2,3) by (auto simp: folds_def simp del: wt_simps)
qed

lemma elab_leaf:
  assumes "in_scope hash s scope" and "handle_kind h = Some k"
  shows "\<exists>n. load_of h s = Inr (Some n, s) \<and> folds (mTypeList (mTypeMgr s)) k (load_const h) n"
proof -
  have tm: "tm_ok (mTypeMgr s)" using assms(1) by (simp add: in_scope_def)
  show ?thesis
    using load_of_ok [OF tm const_load(2) [OF tm assms(2)]] const_load(3) [OF tm assms(2)] by simp
qed

lemma elab_const:
  assumes "in_scope hash s scope"
  shows "const_kind (scope_env hash s scope) e = Some k \<Longrightarrow>
    \<exists>n. elab_expr hash e scope s = Inr (Some n, s) \<and>
      folds (mTypeList (mTypeMgr s)) k (ast_eval (scope_env hash s scope) e) n"
proof (induction e arbitrary: k)
  case (SymbolE name)
  obtain h where h: "scope_env hash s scope name = Some h" "handle_kind h = Some k"
    using SymbolE by (auto simp: bind_eq_Some_conv)
  then show ?case using elab_leaf [OF assms h(2)] assms by simp
next
  case (UniOpE op a)
  let ?m = "mTypeMgr s" and ?env = "scope_env hash s scope"
  have tm: "tm_ok ?m" using assms by (simp add: in_scope_def)
  obtain j where j: "const_kind ?env a = Some j" "uni_kind op j = Some k"
    using UniOpE.prems by (auto simp: bind_eq_Some_conv)
  obtain n where n: "elab_expr hash a scope s = Inr (Some n, s)"
    "folds (mTypeList ?m) j (ast_eval ?env a) n"
    using UniOpE.IH [OF j(1)] by auto
  have sk: "j \<in> scalar_kinds" using const_kind_plain [OF tm j(1)] by simp
  then have "valid_ptr ?m (kind_no j)" using valid_prims [OF tm] by (auto simp: scalar_kinds_def)
  moreover have "value_type n = Some (kind_no j)" using n(2) by (simp add: folds_def)
  ultimately show ?case
    using uni_op_ok [OF tm, of "kind_no j" op n] uni_kind_rule [OF j(2) sk]
      uni_folds [OF tm n(2) j(2) sk] n(1) by simp
next
  case (BinOpE op a b)
  let ?m = "mTypeMgr s" and ?env = "scope_env hash s scope"
  have tm: "tm_ok ?m" using assms by (simp add: in_scope_def)
  obtain j where j: "const_kind ?env a = Some j" "const_kind ?env b = Some j" "bin_kind op j = Some k"
    using BinOpE.prems by (auto simp: bind_eq_Some_conv split: if_splits)
  obtain n where n: "elab_expr hash a scope s = Inr (Some n, s)"
    "folds (mTypeList ?m) j (ast_eval ?env a) n"
    using BinOpE.IH(1) [OF j(1)] by auto
  obtain n' where n': "elab_expr hash b scope s = Inr (Some n', s)"
    "folds (mTypeList ?m) j (ast_eval ?env b) n'"
    using BinOpE.IH(2) [OF j(2)] by auto
  have sk: "j \<in> scalar_kinds" using const_kind_plain [OF tm j(1)] by simp
  then have v: "valid_ptr ?m (kind_no j)" using valid_prims [OF tm] by (auto simp: scalar_kinds_def)
  have "value_type n = Some (kind_no j)" "value_type n' = Some (kind_no j)"
    using n(2) n'(2) by (simp_all add: folds_def)
  from bin_op_ok [OF tm v v bin_kind_rule(1) [OF j(3) sk] this] show ?case
    using bin_kind_rule(3) [OF j(3) sk, of ?m] bin_folds [OF tm n(2) n'(2) j(3) sk] n(1) n'(1)
    by auto
next
  case (IteOpE a b c)
  let ?m = "mTypeMgr s" and ?env = "scope_env hash s scope"
  have tm: "tm_ok ?m" using assms by (simp add: in_scope_def)
  have j: "const_kind ?env a = Some kBooleanType" "const_kind ?env b = Some k"
    "const_kind ?env c = Some k"
    using IteOpE.prems by (auto split: if_splits)
  obtain n1 n2 n3 where n: "elab_expr hash a scope s = Inr (Some n1, s)"
    "elab_expr hash b scope s = Inr (Some n2, s)" "elab_expr hash c scope s = Inr (Some n3, s)"
    "folds (mTypeList ?m) kBooleanType (ast_eval ?env a) n1"
    "folds (mTypeList ?m) k (ast_eval ?env b) n2" "folds (mTypeList ?m) k (ast_eval ?env c) n3"
    using IteOpE.IH(1) [OF j(1)] IteOpE.IH(2) [OF j(2)] IteOpE.IH(3) [OF j(3)] by auto
  have "k \<in> scalar_kinds" using const_kind_plain [OF tm j(2)] by simp
  then have "ptr_type_id (mTypeList ?m) (Some (kind_no k)) = Inr k" by (rule kind_no_type [OF tm])
  moreover have "valid_ptr ?m 1" by (simp add: valid_prims [OF tm])
  ultimately show ?case
    using tri_op_ok [OF tm, of 1 n1 n2 "kind_no k" n3 "kind_no k"] n
    by (auto simp: folds_def truthy_def)
next
  case TrueE
  then show ?case using elab_leaf [OF assms, of "BooleanConst '''' True"] by simp
next
  case FalseE
  then show ?case using elab_leaf [OF assms, of "BooleanConst '''' False"] by simp
next
  case (IntConstE i)
  then show ?case using elab_leaf [OF assms, of "IntConst '''' i"] by simp
next
  case (FloatConstE x)
  then show ?case using elab_leaf [OF assms, of "FloatConst '''' x"] by simp
qed simp_all

section \<open>Properties\<close>

text \<open>
  C6: the elaborator decides a type system, or crashes. Take an expression of literals, operators,
  symbols that can be loaded when they are declared, and subscripts of names and array references.
  If the elaboration reaches an index without a type, as in \<^verbatim>\<open>a[undeclared]\<close> with an array \<^verbatim>\<open>a\<close>, it
  dereferences a null pointer. Otherwise it returns and changes nothing; it returns no node exactly
  when the expression has no type, and else a node of that type, which exists, and which counts as
  static exactly when all symbols of the expression are named constants.
\<close>

theorem elab_expr_decides_types:
  assumes "in_scope hash s scope" and "plain (mTypeMgr s) (scope_env hash s scope) e"
  shows "if crashes (mTypeMgr s) (scope_env hash s scope) e
    then elab_expr hash e scope s = Inl NullDeref
    else \<exists>r. elab_expr hash e scope s = Inr (r, s) \<and>
      (case expr_type (mTypeMgr s) (scope_env hash s scope) e of
         None \<Rightarrow> r = None
       | Some t \<Rightarrow> valid_ptr (mTypeMgr s) t \<and>
           (\<exists>n. r = Some n \<and> value_type n = Some t \<and>
             is_static n = const_expr (scope_env hash s scope) e))"
  using elab_expr_types [OF assms] elab_expr_crashes(1) [OF assms] unfolding node_ok_def by simp

text \<open>
  C7: constant folding is evaluation. For a constant expression whose operands agree in kind, the
  node the elaborator builds is static, and the evaluator of its type answers the value of the
  expression, computed on the syntax tree, or its arithmetic fault.
\<close>

theorem constant_expressions_fold:
  assumes "in_scope hash s scope" and "const_kind (scope_env hash s scope) e = Some k"
  shows "\<exists>n. elab_expr hash e scope s = Inr (Some n, s) \<and> is_static n \<and>
    typed_eval (mTypeList (mTypeMgr s)) k n = ast_eval (scope_env hash s scope) e"
proof -
  have tm: "tm_ok (mTypeMgr s)" using assms(1) by (simp add: in_scope_def)
  obtain n where n: "elab_expr hash e scope s = Inr (Some n, s)"
    "folds (mTypeList (mTypeMgr s)) k (ast_eval (scope_env hash s scope) e) n"
    using elab_const [OF assms] by blast
  note c = const_kind_plain [OF tm assms(2)]
  then have "is_static n"
    using elab_expr_types [OF assms(1), of e] const_expr_safe n(1) by (auto simp: node_ok_def)
  then show ?thesis using n eval_implements [of "mTypeList (mTypeMgr s)" n k] by (auto simp: folds_def)
qed

text \<open>
  C37: the explicit conversions \<^verbatim>\<open>boolean(e)\<close>, \<^verbatim>\<open>int(e)\<close> and \<^verbatim>\<open>float(e)\<close> of the grammar are never
  elaborated: whatever the operand, an elaboration that returns gives no node.
\<close>

theorem explicit_casts_rejected:
  assumes "opcode \<in> {kOpCastBoolean, kOpCastInt, kOpCastFloat}"
    and "elab_expr hash (UniOpE opcode e) scope s = Inr (r, s')"
  shows "r = None"
proof -
  have none: "uni_op opcode n t = Inr (None, t)" for n t
    using assms(1) by (auto simp: uni_op_def calc_type1_def)
  then have "el_some m (uni_op opcode) t = Inr (r, s') \<Longrightarrow> r = None" for m t
    by (auto simp: el_some_def el_bind_def split: option.splits)
  then show ?thesis using assms(2) by simp
qed

section \<open>Witnesses\<close>

text \<open>A manager with one scope that holds a variable and a constant.\<close>

definition empty_scope :: "'h scope" where
  "empty_scope = \<lparr>mParentScope = None, mGlobalScope = None, mName = [], sHashSize = 16,
     sNextLimit = 28, sHashTable = replicate 16 [], sHashNum = 0\<rparr>"

definition demo_scope :: "ir_handle scope" where
  "demo_scope = empty_scope\<lparr>sHashTable :=
     [GlobalVarHandle ''x'' (Some 2) 0 0, IntConst ''n'' 5] # replicate 15 [], sHashNum := 2\<rparr>"

definition demo_ir :: ir_mgr where
  "demo_ir = \<lparr>mTypeMgr = demo_tm, mFuncCallList = [], mUndefList = [], mScopeList = [demo_scope],
     mModuleDict = Map.empty, mScopeDict = Map.empty,
     label_defined = [], function_address = [],
     toplevel_block = \<lparr>top_code = \<lparr>mVarList = [], mNodeList = []\<rparr>, mModuleList = [],
       mGlobalVarList = [GlobalVarHandle ''x'' (Some 2) 0 0], mFuncList = []\<rparr>\<rparr>"

lemma demo_scope_ok: "scope_ok (\<lambda>_. 0) handle_name demo_scope"
  by (auto simp: scope_ok_def demo_scope_def empty_scope_def scope_placed_def bucket_of_def
      scope_items_def next_limit_def nth_Cons split: nat.splits)

lemma demo_in_scope: "in_scope (\<lambda>_. 0) demo_ir 0"
  using demo_tm_ok(1) demo_scope_ok
  by (simp add: in_scope_def demo_ir_def scopes_ok_def ptrs_ok_def)
    (simp add: demo_scope_def empty_scope_def)

lemma demo_mgr [simp]: "mTypeMgr demo_ir = demo_tm"
  by (simp add: demo_ir_def)

lemma demo_env:
  "scope_env (\<lambda>_. 0) demo_ir 0 ''x'' = Some (GlobalVarHandle ''x'' (Some 2) 0 0)"
  "scope_env (\<lambda>_. 0) demo_ir 0 ''n'' = Some (IntConst ''n'' 5)"
proof -
  have "scope_chain [demo_scope] 0 = [0]"
    by (subst scope_chain.simps) (simp add: demo_scope_def empty_scope_def)
  then show "scope_env (\<lambda>_. 0) demo_ir 0 ''x'' = Some (GlobalVarHandle ''x'' (Some 2) 0 0)"
    and "scope_env (\<lambda>_. 0) demo_ir 0 ''n'' = Some (IntConst ''n'' 5)"
    by (simp_all add: scope_env_def demo_ir_def hit_def scope_find_local_def demo_scope_def
        empty_scope_def u_mod_def)
qed

text \<open>The sample scope with a variable \<^verbatim>\<open>a\<close> that is an array of integers.\<close>

definition array_tm :: type_mgr where
  "array_tm = (case serve (ReqArray 2) demo_tm of Inl _ \<Rightarrow> demo_tm | Inr (_, m) \<Rightarrow> m)"

definition array_scope :: "ir_handle scope" where
  "array_scope = empty_scope\<lparr>sHashTable :=
     [GlobalVarHandle ''a'' (Some 5) 0 0, IntConst ''n'' 5] # replicate 15 [], sHashNum := 2\<rparr>"

definition array_ir :: ir_mgr where
  "array_ir = demo_ir\<lparr>mTypeMgr := array_tm, mScopeList := [array_scope]\<rparr>"

lemma array_tm_ok: "tm_ok array_tm" "valid_ptr array_tm 5" "mTypeList array_tm ! 5 = ArrayTy 2"
proof -
  have "length (mTypeList demo_tm) < 2 ^ 30" "req_ok (ReqArray 2) demo_tm"
    by (simp_all add: demo_tm_ok req_ok_def)
  from serve_ok [OF demo_tm_ok(1) this] obtain p m new where m: "serve (ReqArray 2) demo_tm = Inr (p, m)"
    "tm_ok m" "mTypeList m = prim_types @ new" "length new \<le> 1" "p < length (mTypeList m)"
    "mTypeList m ! p = ArrayTy 2"
    by (metis demo_tm_ok(2) req_type.simps(1))
  have "p = 5"
  proof (rule ccontr)
    assume "p \<noteq> 5"
    then have "p < 5" using m(3-5) by simp
    then have "p = 0 \<or> p = 1 \<or> p = 2 \<or> p = 3 \<or> p = 4" by linarith
    then show False using m(6) prims_at [OF m(2)] by auto
  qed
  moreover have "array_tm = m" by (simp only: array_tm_def m(1) sum.case prod.case)
  ultimately show "tm_ok array_tm" "valid_ptr array_tm 5" "mTypeList array_tm ! 5 = ArrayTy 2"
    using m by (simp_all add: valid_ptr_def)
qed

lemma array_in_scope: "in_scope (\<lambda>_. 0) array_ir 0"
proof -
  have "scope_ok (\<lambda>_. 0) handle_name array_scope"
    by (auto simp: scope_ok_def array_scope_def empty_scope_def scope_placed_def bucket_of_def
        scope_items_def next_limit_def nth_Cons split: nat.splits)
  then show ?thesis
    using array_tm_ok(1)
    by (simp add: in_scope_def array_ir_def scopes_ok_def ptrs_ok_def)
      (simp add: array_scope_def empty_scope_def)
qed

lemma array_env:
  "scope_env (\<lambda>_. 0) array_ir 0 ''a'' = Some (GlobalVarHandle ''a'' (Some 5) 0 0)"
  "scope_env (\<lambda>_. 0) array_ir 0 ''n'' = Some (IntConst ''n'' 5)"
  "scope_env (\<lambda>_. 0) array_ir 0 ''u'' = None"
proof -
  have "scope_chain [array_scope] 0 = [0]"
    by (subst scope_chain.simps) (simp add: array_scope_def empty_scope_def)
  then show "scope_env (\<lambda>_. 0) array_ir 0 ''a'' = Some (GlobalVarHandle ''a'' (Some 5) 0 0)"
    and "scope_env (\<lambda>_. 0) array_ir 0 ''n'' = Some (IntConst ''n'' 5)"
    and "scope_env (\<lambda>_. 0) array_ir 0 ''u'' = None"
    by (simp_all add: scope_env_def array_ir_def hit_def scope_find_local_def array_scope_def
        empty_scope_def u_mod_def)
qed

lemma array_mgr [simp]: "mTypeMgr array_ir = array_tm"
  by (simp add: array_ir_def)

text \<open>\<^verbatim>\<open>a[n] < 1.0\<close> is typed; \<^verbatim>\<open>a[u]\<close> with an undeclared \<^verbatim>\<open>u\<close> crashes.\<close>

lemma elab_expr_decides_types_witness:
  "(\<exists>n. elab_expr (\<lambda>_. 0) (BinOpE kOpLt (ArrayRefE (SymbolE ''a'') (SymbolE ''n'')) (FloatConstE f_one)) 0 array_ir =
      Inr (Some n, array_ir) \<and> value_type n = Some 1 \<and> \<not> is_static n) \<and>
   elab_expr (\<lambda>_. 0) (ArrayRefE (SymbolE ''a'') (SymbolE ''u'')) 0 array_ir = Inl NullDeref"
proof -
  note facts = array_env array_tm_ok valid_prims [OF array_tm_ok(1)]
  let ?e = "BinOpE kOpLt (ArrayRefE (SymbolE ''a'') (SymbolE ''n'')) (FloatConstE f_one)"
    and ?u = "ArrayRefE (SymbolE ''a'') (SymbolE ''u'')"
  have "plain array_tm (scope_env (\<lambda>_. 0) array_ir 0) ?e" "\<not> crashes array_tm (scope_env (\<lambda>_. 0) array_ir 0) ?e"
    "expr_type array_tm (scope_env (\<lambda>_. 0) array_ir 0) ?e = Some 1"
    "plain array_tm (scope_env (\<lambda>_. 0) array_ir 0) ?u" "crashes array_tm (scope_env (\<lambda>_. 0) array_ir 0) ?u"
    by (simp_all add: facts binary_ops_def arith_ops_def type2_rule_def array_rule_def is_array_def)
  then show ?thesis
    using elab_expr_decides_types [OF array_in_scope, of ?e]
      elab_expr_decides_types [OF array_in_scope, of ?u]
    by (auto simp del: elab_expr.simps expr_type.simps crashes.simps plain.simps)
qed

lemma constant_expressions_fold_witness:
  "\<exists>n. elab_expr (\<lambda>_. 0) (BinOpE kOpMul (SymbolE ''n'') (IntConstE 3)) 0 demo_ir =
      Inr (Some n, demo_ir) \<and> is_static n \<and>
    typed_eval (mTypeList (mTypeMgr demo_ir)) kIntType n = Inr (IntV 15)"
  using constant_expressions_fold [OF demo_in_scope,
      of "BinOpE kOpMul (SymbolE ''n'') (IntConstE 3)" kIntType]
  by (simp add: demo_env bin_kind_def cmp_op_def int_binop_def c_mul_def i32_of_int_def or_assert_def)

lemma explicit_casts_rejected_witness:
  "elab_expr (\<lambda>_. 0) (UniOpE kOpCastFloat (SymbolE ''n'')) 0 demo_ir = Inr (None, demo_ir)"
proof -
  have "\<exists>r. elab_expr (\<lambda>_. 0) (UniOpE kOpCastFloat (SymbolE ''n'')) 0 demo_ir = Inr (r, demo_ir)"
    using elab_expr_types [OF demo_in_scope, of "UniOpE kOpCastFloat (SymbolE ''n'')"]
    by (auto simp: demo_env unary_ops_def demo_valid simp del: elab_expr.simps)
  then show ?thesis
    using explicit_casts_rejected [of kOpCastFloat "\<lambda>_. 0" "SymbolE ''n''" 0 demo_ir] by fastforce
qed

end
