(* ===== verification/Ir_Stmt.thy ===== *)
theory Ir_Stmt
  imports Ir_Expr
begin

text \<open>
  The elaboration of declarations and statements (\<^verbatim>\<open>src/ir/IrMgr_stmt.cc\<close>, \<^verbatim>\<open>src/ir/IrCodeBlock.cc\<close>,
  \<^verbatim>\<open>src/ir/IrToplevel.cc\<close>, \<^verbatim>\<open>src/ir/IrFuncBlock.cc\<close>) and the body of \<^verbatim>\<open>IrMgr::elaborate\<close>.
  An \<^verbatim>\<open>IrCodeBlock*\<close> is the top level or a function by its position in \<^verbatim>\<open>mFuncList\<close>.
\<close>

section \<open>Steps\<close>

definition el_seq :: "unit elab \<Rightarrow> 'a elab \<Rightarrow> 'a elab" where
  "el_seq m k = el_bind m (\<lambda>_. k)"

text \<open>Return from a function without a value when a pointer is \<^verbatim>\<open>NULL\<close>.\<close>

definition el_ptr :: "'a option elab \<Rightarrow> ('a \<Rightarrow> unit elab) \<Rightarrow> unit elab" where
  "el_ptr m f = el_bind m (\<lambda>p. case p of None \<Rightarrow> el_ret () | Some x \<Rightarrow> f x)"

definition el_get :: "(ir_mgr \<Rightarrow> 'a) \<Rightarrow> 'a elab" where
  "el_get f s = Inr (f s, s)"

definition el_modify :: "(ir_mgr \<Rightarrow> ir_mgr) \<Rightarrow> unit elab" where
  "el_modify f s = Inr ((), f s)"

section \<open>Blocks\<close>

datatype blk = TopBlock | FuncBlock nat

definition block_of :: "blk \<Rightarrow> toplevel \<Rightarrow> code_block res" where
  "block_of b t =
     (case b of
        TopBlock \<Rightarrow> Inr (top_code t)
      | FuncBlock i \<Rightarrow> res_bind (arr_get (mFuncList t) (int i)) (\<lambda>f. Inr (func_code f)))"

definition set_block :: "blk \<Rightarrow> code_block \<Rightarrow> toplevel \<Rightarrow> toplevel res" where
  "set_block b c t =
     (case b of
        TopBlock \<Rightarrow> Inr (t\<lparr>top_code := c\<rparr>)
      | FuncBlock i \<Rightarrow>
          res_bind (arr_get (mFuncList t) (int i)) (\<lambda>f.
          res_bind (arr_set (mFuncList t) (int i) (f\<lparr>func_code := c\<rparr>)) (\<lambda>fs.
            Inr (t\<lparr>mFuncList := fs\<rparr>))))"

definition on_block :: "blk \<Rightarrow> (code_block \<Rightarrow> code_block res) \<Rightarrow> unit elab" where
  "on_block b f s =
     res_bind (block_of b (toplevel_block s)) (\<lambda>c.
     res_bind (f c) (\<lambda>c'.
     res_bind (set_block b c' (toplevel_block s)) (\<lambda>t. Inr ((), s\<lparr>toplevel_block := t\<rparr>))))"

definition add_node :: "blk \<Rightarrow> ir_node option \<Rightarrow> unit elab" where
  "add_node b node = on_block b (\<lambda>c. Inr (c\<lparr>mNodeList := mNodeList c @ [node]\<rparr>))"

definition add_local_var :: "blk \<Rightarrow> ir_handle \<Rightarrow> unit elab" where
  "add_local_var b var =
     on_block b (\<lambda>c. res_bind (assert_cond (handle_type_of var = hLocalVar)) (\<lambda>_.
       Inr (c\<lparr>mVarList := mVarList c @ [var]\<rparr>)))"

definition next_local_index :: "blk \<Rightarrow> nat elab" where
  "next_local_index b s =
     res_bind (block_of b (toplevel_block s)) (\<lambda>c. Inr (length (mVarList c), s))"

definition next_global_index :: "nat elab" where
  "next_global_index = el_get (\<lambda>s. length (mGlobalVarList (toplevel_block s)))"

definition add_global_var :: "ir_handle \<Rightarrow> unit elab" where
  "add_global_var var =
     el_seq (el_res (assert_cond (handle_type_of var = hGlobalVar)))
       (el_modify (\<lambda>s. s\<lparr>toplevel_block :=
          (toplevel_block s)\<lparr>mGlobalVarList := mGlobalVarList (toplevel_block s) @ [var]\<rparr>\<rparr>))"

definition next_func_index :: "nat elab" where
  "next_func_index = el_get (\<lambda>s. length (mFuncList (toplevel_block s)))"

definition new_FuncBlock :: "ir_handle list \<Rightarrow> ir_node option list \<Rightarrow> ir_handle \<Rightarrow> func_block" where
  "new_FuncBlock arg_list arg_init_list func_handle =
     \<lparr>func_code = \<lparr>mVarList = [], mNodeList = []\<rparr>, mArgList = arg_list,
      mArgInitList = arg_init_list, mFuncHandle = func_handle\<rparr>"

definition add_function :: "func_block \<Rightarrow> unit elab" where
  "add_function f = el_modify (\<lambda>s. s\<lparr>toplevel_block :=
     (toplevel_block s)\<lparr>mFuncList := mFuncList (toplevel_block s) @ [f]\<rparr>\<rparr>)"

section \<open>Labels\<close>

definition new_Label :: "nat elab" where
  "new_Label s = Inr (length (label_defined s), s\<lparr>label_defined := label_defined s @ [False]\<rparr>)"

definition set_defined :: "nat \<Rightarrow> unit elab" where
  "set_defined l s =
     res_bind (arr_set (label_defined s) (int l) True) (\<lambda>d. Inr ((), s\<lparr>label_defined := d\<rparr>))"

definition is_defined :: "nat \<Rightarrow> bool elab" where
  "is_defined l s = res_bind (arr_get (label_defined s) (int l)) (\<lambda>d. Inr (d, s))"

section \<open>Scopes\<close>

definition open_scope :: "(string \<Rightarrow> u32) \<Rightarrow> nat option \<Rightarrow> string \<Rightarrow> nat elab" where
  "open_scope hash parent_scope name s =
     res_bind (new_scope hash handle_name parent_scope name (mScopeList s)) (\<lambda>(p, scopes).
       Inr (p, s\<lparr>mScopeList := scopes\<rparr>))"

definition declare_in :: "(string \<Rightarrow> u32) \<Rightarrow> nat \<Rightarrow> ir_handle \<Rightarrow> unit elab" where
  "declare_in hash scope h s =
     res_bind (arr_get (mScopeList s) (int scope)) (\<lambda>sc.
     res_bind (scope_add hash handle_name h sc) (\<lambda>sc'.
     res_bind (arr_set (mScopeList s) (int scope) sc') (\<lambda>scopes.
       Inr ((), s\<lparr>mScopeList := scopes\<rparr>))))"

definition global_scope :: "nat \<Rightarrow> nat option elab" where
  "global_scope scope s =
     res_bind (arr_get (mScopeList s) (int scope)) (\<lambda>sc. Inr (mGlobalScope sc, s))"

definition check_name :: "(string \<Rightarrow> u32) \<Rightarrow> string \<Rightarrow> nat \<Rightarrow> bool elab" where
  "check_name hash name scope s =
     res_bind (arr_get (mScopeList s) (int scope)) (\<lambda>sc.
     res_bind (scope_find_local hash handle_name name sc) (\<lambda>h. Inr (h = None, s)))"

section \<open>Constants\<close>

text \<open>The handle of a constant, by the type of its node; a string constant asserts.\<close>

definition const_handle :: "string \<Rightarrow> ir_node \<Rightarrow> ir_handle elab" where
  "const_handle name node =
     el_bind (el_read (\<lambda>m. ptr_type_id (mTypeList m) (value_type node))) (\<lambda>tid.
       case tid of
         kBooleanType \<Rightarrow>
           el_read (\<lambda>m. res_map (BooleanConst name) (eval_boolean (mTypeList m) node))
       | kIntType \<Rightarrow> el_read (\<lambda>m. res_map (IntConst name) (eval_int (mTypeList m) node))
       | kFloatType \<Rightarrow> el_read (\<lambda>m. res_map (FloatConst name) (eval_float (mTypeList m) node))
       | _ \<Rightarrow> el_fail AssertFail)"

definition reg_const :: "(string \<Rightarrow> u32) \<Rightarrow> string \<Rightarrow> ast_type \<Rightarrow> ast_expr \<Rightarrow> nat \<Rightarrow> unit elab" where
  "reg_const hash name ast_type ast_expr scope =
     el_bind (check_name hash name scope) (\<lambda>fresh.
       if \<not> fresh then el_ret ()
       else el_ptr (resolve_type hash ast_type scope) (\<lambda>_.
            el_ptr (elab_expr hash ast_expr scope) (\<lambda>node.
              if \<not> is_static node then el_ret ()
              else el_bind (const_handle name node) (declare_in hash scope))))"

section \<open>Enumerations\<close>

fun check :: "i32 list \<Rightarrow> i32 \<Rightarrow> bool" where
  "check [] val = False"
| "check (p # ps) val = (p = val \<or> check ps val)"

text \<open>The loop \<^verbatim>\<open>while ( check(used_val, next_val) ) ++ next_val;\<close>\<close>

function next_free :: "i32 list \<Rightarrow> i32 \<Rightarrow> i32 res" where
  "next_free used_val next_val =
     (if check used_val next_val then res_bind (c_inc next_val) (next_free used_val)
      else Inr next_val)"
  by pat_completeness auto
termination
proof (relation "measure (\<lambda>(used, v). nat (2 ^ 31 - sint v))")
  fix used and v w :: i32
  assume "c_inc v = Inr w"
  then have "sint w = sint v + 1" by (auto simp: c_inc_def dest: i32_of_int_InrD)
  then show "((used, w), (used, v)) \<in> measure (\<lambda>(used, v). nat (2 ^ 31 - sint v))"
    using sint_i32_bounds [of v] by simp
qed simp

declare next_free.simps [simp del]

fun enum_elems :: "(string \<Rightarrow> u32) \<Rightarrow> (string \<times> ast_expr option) list \<Rightarrow> nat \<Rightarrow> i32 list \<Rightarrow> i32 \<Rightarrow>
    (string \<times> i32) list option elab" where
  "enum_elems hash [] enum_scope used_val next_val = el_ret (Some [])"
| "enum_elems hash ((elem_name, Some ec_expr) # ecs) enum_scope used_val next_val =
     el_some (elab_expr hash ec_expr enum_scope) (\<lambda>node.
       if \<not> is_static node then el_ret None
       else el_bind (el_get (\<lambda>s. mIntType (mTypeMgr s))) (\<lambda>int_type.
         if value_type node \<noteq> int_type then el_ret None
         else el_bind (el_read (\<lambda>m. eval_int (mTypeList m) node)) (\<lambda>v.
           if check used_val v then el_ret None
           else el_seq (declare_in hash enum_scope (IntConst elem_name v))
             (el_some (enum_elems hash ecs enum_scope (used_val @ [v]) next_val)
               (\<lambda>elems. el_ret (Some ((elem_name, v) # elems)))))))"
| "enum_elems hash ((elem_name, None) # ecs) enum_scope used_val next_val =
     el_bind (el_res (next_free used_val next_val)) (\<lambda>v.
     el_bind (el_res (c_inc v)) (\<lambda>next_val'.
       el_seq (declare_in hash enum_scope (IntConst elem_name v))
         (el_some (enum_elems hash ecs enum_scope (used_val @ [v]) next_val')
           (\<lambda>elems. el_ret (Some ((elem_name, v) # elems))))))"

definition reg_enum ::
  "(string \<Rightarrow> u32) \<Rightarrow> string \<Rightarrow> (string \<times> ast_expr option) list \<Rightarrow> nat \<Rightarrow> unit elab" where
  "reg_enum hash name enums scope =
     el_bind (check_name hash name scope) (\<lambda>fresh.
       if \<not> fresh then el_ret ()
       else el_bind (open_scope hash (Some scope) name) (\<lambda>enum_scope.
            el_ptr (enum_elems hash enums enum_scope [] 0) (\<lambda>elem_list.
            el_bind (el_types (enum_type name elem_list)) (\<lambda>type.
            el_bind (el_read (\<lambda>m. new_TypeHandle (mTypeList m) type enum_scope))
              (declare_in hash scope)))))"

section \<open>Functions\<close>

type_synonym param = "string \<times> ast_type \<times> ast_expr option"

fun resolve_params :: "(string \<Rightarrow> u32) \<Rightarrow> nat \<Rightarrow> nat \<Rightarrow> param list \<Rightarrow> nat list option elab" where
  "resolve_params hash func_scope scope [] = el_ret (Some [])"
| "resolve_params hash func_scope scope ((name, type, _) # ps) =
     el_bind (check_name hash name func_scope) (\<lambda>fresh.
       if \<not> fresh then el_ret None
       else el_some (resolve_type hash type scope) (\<lambda>t.
            el_some (resolve_params hash func_scope scope ps) (\<lambda>ts. el_ret (Some (t # ts)))))"

text \<open>The default value of a parameter; \<^verbatim>\<open>NULL\<close> when it has none, no result on an error.\<close>

definition default_value ::
  "(string \<Rightarrow> u32) \<Rightarrow> nat \<Rightarrow> ast_expr option \<Rightarrow> ir_node option option elab" where
  "default_value hash scope e =
     (case e of
        None \<Rightarrow> el_ret (Some None)
      | Some ast_expr \<Rightarrow> el_some (elab_expr hash ast_expr scope) (\<lambda>n. el_ret (Some (Some n))))"

fun add_params :: "(string \<Rightarrow> u32) \<Rightarrow> nat \<Rightarrow> nat \<Rightarrow> param list \<Rightarrow> nat list \<Rightarrow> nat \<Rightarrow>
    (ir_handle list \<times> ir_node option list) option elab" where
  "add_params hash func_scope scope ((name, _, e) # ps) (t # ts) i =
     (let h = LocalVarHandle name (Some t) 0 i
      in el_seq (declare_in hash func_scope h)
           (el_some (default_value hash scope e) (\<lambda>node.
            el_some (add_params hash func_scope scope ps ts (Suc i)) (\<lambda>(hs, nodes).
              el_ret (Some (h # hs, node # nodes))))))"
| "add_params hash func_scope scope _ _ i = el_ret (Some ([], []))"

definition reg_func :: "(string \<Rightarrow> u32) \<Rightarrow> string \<Rightarrow> ast_type \<Rightarrow> param list \<Rightarrow>
    (nat \<Rightarrow> blk \<Rightarrow> unit elab) \<Rightarrow> nat \<Rightarrow> unit elab" where
  "reg_func hash name type params body scope =
     el_bind (check_name hash name scope) (\<lambda>fresh.
       if \<not> fresh then el_ret ()
       else el_bind (global_scope scope) (\<lambda>global.
            el_bind (open_scope hash (Some (case global of None \<Rightarrow> scope | Some g \<Rightarrow> g)) '''')
              (\<lambda>func_scope.
            el_ptr (resolve_type hash type scope) (\<lambda>output_type.
            el_ptr (resolve_params hash func_scope scope params) (\<lambda>input_types.
            el_bind (el_types (function_type (Some output_type) (map Some input_types))) (\<lambda>ftype.
            el_ptr (add_params hash func_scope scope params input_types 0)
              (\<lambda>(arg_list, arg_init_list).
            el_bind next_func_index (\<lambda>local_index.
              let h = FuncHandle name (Some ftype) 0 local_index
              in el_seq (declare_in hash scope h)
                   (el_seq (add_function (new_FuncBlock arg_list arg_init_list h))
                     (body func_scope (FuncBlock local_index)))))))))))"

section \<open>Variables, labels and control transfer\<close>

definition elab_var :: "(string \<Rightarrow> u32) \<Rightarrow> string \<Rightarrow> ast_type \<Rightarrow> ast_expr option \<Rightarrow> nat \<Rightarrow> blk \<Rightarrow> unit elab"
where
  "elab_var hash name ast_type ast_expr scope b =
     el_bind (check_name hash name scope) (\<lambda>fresh.
       if \<not> fresh then el_ret ()
       else el_ptr (resolve_type hash ast_type scope) (\<lambda>type.
            el_bind (global_scope scope) (\<lambda>global.
            el_bind
              (if global = None then
                 el_bind next_global_index (\<lambda>local_index.
                   let h = GlobalVarHandle name (Some type) 0 local_index
                   in el_seq (add_global_var h) (el_ret h))
               else
                 el_bind (next_local_index b) (\<lambda>local_index.
                   let h = LocalVarHandle name (Some type) 0 local_index
                   in el_seq (add_local_var b h) (el_ret h))) (\<lambda>h.
            el_seq (declare_in hash scope h)
              (case ast_expr of
                 None \<Rightarrow> el_ret ()
               | Some e \<Rightarrow>
                   el_ptr (elab_expr hash e scope) (\<lambda>rhs.
                     el_bind (el_res (new_Store (Some h) (Some rhs)))
                       (\<lambda>node. add_node b (Some node))))))))"

text \<open>
  \<^verbatim>\<open>label_node\<close> is set only where the name is new; where the name is found, it is read without
  having been initialised.
\<close>

definition elab_goto :: "(string \<Rightarrow> u32) \<Rightarrow> string \<Rightarrow> nat \<Rightarrow> blk \<Rightarrow> unit elab" where
  "elab_goto hash name scope b =
     el_bind (find_in hash scope name) (\<lambda>h. case h of
         None \<Rightarrow>
           el_bind new_Label (\<lambda>label_node.
             el_seq (declare_in hash scope (LabelHandle name label_node))
               (el_seq (el_modify (\<lambda>s. s\<lparr>mUndefList := mUndefList s @ [label_node]\<rparr>))
                 (add_node b (Some (Jump label_node)))))
       | Some h \<Rightarrow> if handle_type_of h \<noteq> hLabel then el_ret () else el_fail Uninit)"

definition elab_label :: "(string \<Rightarrow> u32) \<Rightarrow> string \<Rightarrow> nat \<Rightarrow> blk \<Rightarrow> unit elab" where
  "elab_label hash name scope b =
     el_bind (find_in hash scope name) (\<lambda>h. case h of
         None \<Rightarrow>
           el_bind new_Label (\<lambda>label_node.
             el_seq (declare_in hash scope (LabelHandle name label_node))
               (el_seq (set_defined label_node) (add_node b (Some (Label label_node)))))
       | Some h \<Rightarrow> if handle_type_of h \<noteq> hLabel then el_ret () else el_fail Uninit)"

definition jump_to :: "nat option \<Rightarrow> blk \<Rightarrow> unit elab" where
  "jump_to label b =
     (case label of None \<Rightarrow> el_ret () | Some l \<Rightarrow> add_node b (Some (Jump l)))"

definition branch_true :: "nat \<Rightarrow> ir_node option \<Rightarrow> blk \<Rightarrow> unit elab" where
  "branch_true label cond b =
     el_bind (el_res (new_BranchTrue label cond)) (\<lambda>node. add_node b (Some node))"

definition branch_false :: "nat \<Rightarrow> ir_node option \<Rightarrow> blk \<Rightarrow> unit elab" where
  "branch_false label cond b =
     el_bind (el_res (new_BranchFalse label cond)) (\<lambda>node. add_node b (Some node))"

section \<open>Statements\<close>

text \<open>
  The cases of \<^verbatim>\<open>elab_stmt\<close> that are more than a call. The elaboration of a statement inside is an
  argument; a loop hands its labels to it.
\<close>

definition elab_step :: "op_code \<Rightarrow> (string \<Rightarrow> u32) \<Rightarrow> ast_expr \<Rightarrow> nat \<Rightarrow> blk \<Rightarrow> unit elab" where
  "elab_step opcode hash lhs scope b =
     el_ptr (elab_primary hash lhs scope) (\<lambda>lhs_handle.
       el_bind (el_res (new_InplaceUniOp opcode (Some lhs_handle))) (\<lambda>node. add_node b (Some node)))"

definition elab_assign :: "(string \<Rightarrow> u32) \<Rightarrow> ast_expr \<Rightarrow> ast_expr \<Rightarrow> nat \<Rightarrow> blk \<Rightarrow> unit elab" where
  "elab_assign hash lhs e scope b =
     el_ptr (elab_expr hash e scope) (\<lambda>rhs.
     el_ptr (elab_primary hash lhs scope) (\<lambda>lhs_handle.
       el_bind (el_res (new_Store (Some lhs_handle) (Some rhs))) (\<lambda>node. add_node b (Some node))))"

definition elab_inplace ::
  "op_code \<Rightarrow> (string \<Rightarrow> u32) \<Rightarrow> ast_expr \<Rightarrow> ast_expr \<Rightarrow> nat \<Rightarrow> blk \<Rightarrow> unit elab" where
  "elab_inplace opcode hash lhs e scope b =
     el_ptr (elab_expr hash e scope) (\<lambda>rhs.
     el_ptr (elab_primary hash lhs scope) (\<lambda>lhs_handle.
       el_bind (el_res (new_InplaceBinOp opcode (Some lhs_handle) (Some rhs)))
         (\<lambda>node. add_node b (Some node))))"

definition elab_return :: "(string \<Rightarrow> u32) \<Rightarrow> ast_expr option \<Rightarrow> nat \<Rightarrow> blk \<Rightarrow> unit elab" where
  "elab_return hash e scope b =
     el_bind (case e of None \<Rightarrow> el_ret None | Some expr \<Rightarrow> elab_expr hash expr scope)
       (\<lambda>ret_val. add_node b (Some (Return ret_val)))"

definition elab_do ::
  "(string \<Rightarrow> u32) \<Rightarrow> ast_expr \<Rightarrow> nat \<Rightarrow> blk \<Rightarrow> (nat \<Rightarrow> nat \<Rightarrow> unit elab) \<Rightarrow> unit elab" where
  "elab_do hash e scope b body =
     el_bind new_Label (\<lambda>start1.
     el_bind new_Label (\<lambda>end1.
       el_seq (add_node b (Some (Label start1)))
         (el_seq (body start1 end1)
           (el_bind (elab_expr hash e scope) (\<lambda>cond.
             el_seq (branch_true start1 cond b) (add_node b (Some (Label end1))))))))"

definition elab_while ::
  "(string \<Rightarrow> u32) \<Rightarrow> ast_expr \<Rightarrow> nat \<Rightarrow> blk \<Rightarrow> (nat \<Rightarrow> nat \<Rightarrow> unit elab) \<Rightarrow> unit elab" where
  "elab_while hash e scope b body =
     el_bind new_Label (\<lambda>start1.
       el_seq (add_node b (Some (Label start1)))
         (el_bind (elab_expr hash e scope) (\<lambda>cond.
          el_bind new_Label (\<lambda>end1.
            el_seq (branch_false end1 cond b)
              (el_seq (body start1 end1)
                (el_seq (add_node b (Some (Jump start1))) (add_node b (Some (Label end1)))))))))"

definition elab_for :: "(string \<Rightarrow> u32) \<Rightarrow> ast_expr \<Rightarrow> nat \<Rightarrow> blk \<Rightarrow> (nat \<Rightarrow> unit elab) \<Rightarrow>
    (nat \<Rightarrow> nat \<Rightarrow> nat \<Rightarrow> unit elab) \<Rightarrow> (nat \<Rightarrow> nat \<Rightarrow> nat \<Rightarrow> unit elab) \<Rightarrow> unit elab" where
  "elab_for hash e scope b ini next body =
     el_bind (open_scope hash (Some scope) '''') (\<lambda>for_scope.
       el_seq (ini for_scope)
         (el_bind new_Label (\<lambda>start1.
           el_seq (add_node b (Some (Label start1)))
             (el_bind new_Label (\<lambda>end1.
             el_bind (elab_expr hash e for_scope) (\<lambda>cond.
               el_seq (branch_false end1 cond b)
                 (el_seq (body for_scope start1 end1)
                   (el_seq (next for_scope start1 end1)
                     (el_seq (add_node b (Some (Jump start1)))
                       (add_node b (Some (Label end1))))))))))))"

text \<open>The absent \<^verbatim>\<open>else\<close> of an \<^verbatim>\<open>if\<close> is a null pointer that is dereferenced.\<close>

definition elab_if ::
  "(string \<Rightarrow> u32) \<Rightarrow> ast_expr \<Rightarrow> nat \<Rightarrow> blk \<Rightarrow> unit elab \<Rightarrow> unit elab option \<Rightarrow> unit elab" where
  "elab_if hash e scope b then_stmt else_stmt =
     el_bind (elab_expr hash e scope) (\<lambda>cond.
     el_bind new_Label (\<lambda>label1.
     el_bind new_Label (\<lambda>label2.
       el_seq (branch_false label1 cond b)
         (el_seq then_stmt
           (el_seq (add_node b (Some (Jump label2)))
             (el_seq (add_node b (Some (Label label1)))
               (el_seq (case else_stmt of None \<Rightarrow> el_fail NullDeref | Some st \<Rightarrow> st)
                 (add_node b (Some (Label label2))))))))))"

text \<open>\<open>start_label\<close> and \<open>end_label\<close> are those of the enclosing loop, if any.\<close>

function elab_stmt :: "(string \<Rightarrow> u32) \<Rightarrow> ast_stmt \<Rightarrow> nat \<Rightarrow> nat option \<Rightarrow> nat option \<Rightarrow> blk \<Rightarrow> unit elab"
  and elab_stmts ::
    "(string \<Rightarrow> u32) \<Rightarrow> ast_stmt list \<Rightarrow> nat \<Rightarrow> nat option \<Rightarrow> nat option \<Rightarrow> blk \<Rightarrow> unit elab"
  and elab_cases :: "(string \<Rightarrow> u32) \<Rightarrow> (ast_expr option \<times> ast_stmt) list \<Rightarrow> nat \<Rightarrow> nat option \<Rightarrow>
    nat option \<Rightarrow> blk \<Rightarrow> unit elab" where
  "elab_stmt hash (BlockStmt stmts) scope start_label end_label b =
     el_bind (open_scope hash (Some scope) '''')
       (\<lambda>block_scope. elab_stmts hash stmts block_scope start_label end_label b)"
| "elab_stmt hash Break scope start_label end_label b = jump_to end_label b"
| "elab_stmt hash (ConstDecl name type e) scope start_label end_label b =
     reg_const hash name type e scope"
| "elab_stmt hash Continue scope start_label end_label b = jump_to start_label b"
| "elab_stmt hash (Decr lhs) scope start_label end_label b = elab_step kOpDec hash lhs scope b"
| "elab_stmt hash (DoWhile body e) scope start_label end_label b =
     elab_do hash e scope b
       (\<lambda>start1 end1. elab_stmt hash body scope (Some start1) (Some end1) b)"
| "elab_stmt hash (EnumDecl name enums) scope start_label end_label b =
     reg_enum hash name enums scope"
| "elab_stmt hash (Assignment lhs e) scope start_label end_label b = elab_assign hash lhs e scope b"
| "elab_stmt hash (InplaceOp opcode lhs e) scope start_label end_label b =
     elab_inplace opcode hash lhs e scope b"
| "elab_stmt hash (ExprStmt e) scope start_label end_label b =
     el_bind (elab_expr hash e scope) (add_node b)"
| "elab_stmt hash (For ini e next body) scope start_label end_label b =
     elab_for hash e scope b
       (\<lambda>for_scope. elab_stmt hash ini for_scope None None b)
       (\<lambda>for_scope start1 end1. elab_stmt hash next for_scope (Some start1) (Some end1) b)
       (\<lambda>for_scope start1 end1. elab_stmt hash body for_scope (Some start1) (Some end1) b)"
| "elab_stmt hash (FuncDecl name type params body) scope start_label end_label b =
     reg_func hash name type params
       (\<lambda>func_scope ir_func. elab_stmt hash body func_scope None None ir_func) scope"
| "elab_stmt hash (Goto name) scope start_label end_label b = elab_goto hash name scope b"
| "elab_stmt hash (If e then_stmt else_stmt) scope start_label end_label b =
     elab_if hash e scope b (elab_stmt hash then_stmt scope start_label end_label b)
       (case else_stmt of
          None \<Rightarrow> None | Some st \<Rightarrow> Some (elab_stmt hash st scope start_label end_label b))"
| "elab_stmt hash (Import _ _) scope start_label end_label b = el_fail AssertFail"
| "elab_stmt hash (Incr lhs) scope start_label end_label b = elab_step kOpInc hash lhs scope b"
| "elab_stmt hash (LabelStmt name) scope start_label end_label b = elab_label hash name scope b"
| "elab_stmt hash NullStmt scope start_label end_label b = el_ret ()"
| "elab_stmt hash (ReturnStmt e) scope start_label end_label b = elab_return hash e scope b"
| "elab_stmt hash (Switch e cases) scope start_label end_label b =
     el_bind (elab_expr hash e scope) (\<lambda>cond. elab_cases hash cases scope start_label end_label b)"
| "elab_stmt hash (Toplevel _ _) scope start_label end_label b = el_fail AssertFail"
| "elab_stmt hash (VarDecl name type e) scope start_label end_label b =
     elab_var hash name type e scope b"
| "elab_stmt hash (While e body) scope start_label end_label b =
     elab_while hash e scope b
       (\<lambda>start1 end1. elab_stmt hash body scope (Some start1) (Some end1) b)"
| "elab_stmts hash [] scope start_label end_label b = el_ret ()"
| "elab_stmts hash (st # sts) scope start_label end_label b =
     el_seq (elab_stmt hash st scope start_label end_label b)
       (elab_stmts hash sts scope start_label end_label b)"
| "elab_cases hash [] scope start_label end_label b = el_ret ()"
| "elab_cases hash ((_, st) # cs) scope start_label end_label b =
     el_seq (elab_stmt hash st scope start_label end_label b)
       (elab_cases hash cs scope start_label end_label b)"
  by pat_completeness auto

termination
  by (relation "measure (\<lambda>x. case x of Inl (_, st, _) \<Rightarrow> size st
    | Inr (Inl (_, sts, _)) \<Rightarrow> size_list size sts
    | Inr (Inr (_, cs, _)) \<Rightarrow> size_list (size_prod (\<lambda>_. 0) size) cs)") auto

section \<open>The body of a module\<close>

definition resolve_func :: "(string \<Rightarrow> u32) \<Rightarrow> ast_expr \<Rightarrow> nat \<Rightarrow> nat \<Rightarrow> bool elab" where
  "resolve_func hash expr scope node =
     el_bind (elab_primary hash expr scope) (\<lambda>h. case h of
         None \<Rightarrow> el_ret False
       | Some h \<Rightarrow>
           if handle_type_of h \<noteq> hFunction then el_ret False
           else (\<lambda>s. res_bind (arr_set (function_address s) (int node) (Some h))
                  (\<lambda>a. Inr (True, s\<lparr>function_address := a\<rparr>))))"

text \<open>
  The results of the resolution are not used. A call inside a subscript of the function's name is
  appended to the vector that is being iterated, which invalidates the iterator.
\<close>

fun resolve_calls :: "(string \<Rightarrow> u32) \<Rightarrow> (ast_expr \<times> nat \<times> nat) list \<Rightarrow> unit elab" where
  "resolve_calls hash [] = el_ret ()"
| "resolve_calls hash ((func_expr, scope, node) # stubs) =
     el_bind (el_get mFuncCallList) (\<lambda>before.
     el_bind (resolve_func hash func_expr scope node) (\<lambda>_.
     el_bind (el_get mFuncCallList) (\<lambda>after.
       if length after \<noteq> length before then el_fail OutOfBounds else resolve_calls hash stubs)))"

fun labels_defined :: "nat list \<Rightarrow> bool elab" where
  "labels_defined [] = el_ret True"
| "labels_defined (l # ls) =
     el_bind (is_defined l) (\<lambda>d. if d then labels_defined ls else el_ret False)"

text \<open>The statements, the calls and the labels; the answer says whether a result is returned.\<close>

definition elaborate_body :: "(string \<Rightarrow> u32) \<Rightarrow> ast_stmt list \<Rightarrow> nat \<Rightarrow> bool elab" where
  "elaborate_body hash stmts toplevel_scope =
     el_seq (elab_stmts hash stmts toplevel_scope None None TopBlock)
       (el_bind (el_get mFuncCallList) (\<lambda>stubs.
         el_seq (resolve_calls hash stubs)
           (el_bind (el_get mUndefList) labels_defined)))"

end

