(* ===== verification/Ir_Decl.thy ===== *)
theory Ir_Decl
  imports Ir_Stmt
begin

text \<open>
  Properties of declarations: what a declared name is afterwards, constants, enumerations,
  parameters, and the labels of \<^verbatim>\<open>goto\<close>.
\<close>

section \<open>Declaring a name\<close>

lemma hit_unique:
  assumes "scope_ok hash nm t" and "mset (scope_items t) = add_mset h (mset (scope_items s))"
    and "\<forall>x \<in> set (scope_items s). nm x \<noteq> nm h"
  shows "hit hash nm (nm h) t = Some h"
proof -
  have set: "set (scope_items t) = insert h (set (scope_items s))"
    using assms(2) by (metis set_mset_add_mset_insert set_mset_mset)
  obtain r where r: "scope_find_local hash nm (nm h) t = Inr r"
    "case r of None \<Rightarrow> \<forall>x \<in> set (scope_items t). nm x \<noteq> nm h
     | Some x \<Rightarrow> x \<in> set (scope_items t) \<and> nm x = nm h"
    using scope_find_local_ok [OF assms(1)] by blast
  then show ?thesis
    using set assms(3) by (cases r) (auto simp: hit_def)
qed

lemma hit_other:
  assumes "scope_ok hash nm s" and "hit hash nm name s = None" and "x \<in> set (scope_items s)"
  shows "nm x \<noteq> name"
  using scope_find_local_ok [OF assms(1), of name] assms(2,3) by (auto simp: hit_def split: option.splits)

lemma scopes_ok_update:
  assumes "scopes_ok hash nm scopes" and "i < length scopes" and "scope_ok hash nm t"
    and "mParentScope t = mParentScope (scopes ! i)" and "mGlobalScope t = mGlobalScope (scopes ! i)"
  shows "scopes_ok hash nm (scopes[i := t])"
proof -
  have same: "mGlobalScope (scopes[i := t] ! j) = mGlobalScope (scopes ! j)"
    "mParentScope (scopes[i := t] ! j) = mParentScope (scopes ! j)" if "j < length scopes" for j
    using that assms(4,5) by (cases "i = j"; simp)+
  have "ptrs_ok (scopes[i := t]) j (scopes[i := t] ! j)" if j: "j < length scopes" for j
  proof (cases "mGlobalScope (scopes ! j)")
    case None
    then show ?thesis
      using scopes_okD(2) [OF assms(1) j] same [OF j] by (simp add: ptrs_ok_def)
  next
    case (Some g)
    note D = scopes_okD(3,4) [OF assms(1) j]
    show ?thesis
      using D Some same [OF j] same j by (auto simp: ptrs_ok_def split: option.split)
  qed
  then show ?thesis
    using assms(1-3) by (simp add: scopes_ok_def nth_list_update)
qed

definition room :: "ir_mgr \<Rightarrow> nat \<Rightarrow> bool" where
  "room s scope \<longleftrightarrow> length (scope_items (mScopeList s ! scope)) < 2 ^ 28"

lemma declare_in_ok:
  assumes "in_scope hash s scope" and "room s scope"
  shows "\<exists>t. declare_in hash scope h s = Inr ((), s\<lparr>mScopeList := (mScopeList s)[scope := t]\<rparr>) \<and>
    in_scope hash (s\<lparr>mScopeList := (mScopeList s)[scope := t]\<rparr>) scope \<and> scope_ok hash handle_name t \<and>
    mset (scope_items t) = add_mset h (mset (scope_items (mScopeList s ! scope)))"
proof -
  have ok: "scopes_ok hash handle_name (mScopeList s)" "scope < length (mScopeList s)"
    "tm_ok (mTypeMgr s)"
    using assms(1) by (simp_all add: in_scope_def)
  obtain t where t: "scope_add hash handle_name h (mScopeList s ! scope) = Inr t"
    "scope_ok hash handle_name t"
    "mset (scope_items t) = add_mset h (mset (scope_items (mScopeList s ! scope)))"
    "mParentScope t = mParentScope (mScopeList s ! scope)"
    "mGlobalScope t = mGlobalScope (mScopeList s ! scope)"
    using scope_add_ok [OF scopes_okD(1) [OF ok(1,2)]] assms(2) unfolding room_def by blast
  then show ?thesis
    using ok scopes_ok_update [OF ok(1,2) t(2,4,5)]
    by (intro exI [of _ t]) (simp add: declare_in_def in_scope_def)
qed

text \<open>The name of the current scope itself, and that it is free.\<close>

definition free_name :: "(string \<Rightarrow> u32) \<Rightarrow> ir_mgr \<Rightarrow> nat \<Rightarrow> string \<Rightarrow> bool" where
  "free_name hash s scope name \<longleftrightarrow> hit hash handle_name name (mScopeList s ! scope) = None"

lemma check_name_ok:
  assumes "in_scope hash s scope"
  shows "check_name hash name scope s = Inr (free_name hash s scope name, s)"
  using assms find_local_hit [of hash handle_name "mScopeList s ! scope" name]
  by (simp add: in_scope_def check_name_def free_name_def scopes_okD(1))

lemma env_local:
  assumes "hit hash handle_name name (mScopeList s ! scope) = Some h"
  shows "scope_env hash s scope name = Some h"
  using assms by (subst scope_env_def, subst scope_chain.simps) simp

lemma declare_new:
  assumes "in_scope hash s scope" and "room s scope" and "free_name hash s scope (handle_name h)"
  shows "\<exists>s'. declare_in hash scope h s = Inr ((), s') \<and> in_scope hash s' scope \<and>
    scope_env hash s' scope (handle_name h) = Some h \<and> mTypeMgr s' = mTypeMgr s \<and>
    toplevel_block s' = toplevel_block s \<and> label_defined s' = label_defined s"
proof -
  have ok: "scope_ok hash handle_name (mScopeList s ! scope)" "scope < length (mScopeList s)"
    using assms(1) by (auto simp: in_scope_def scopes_okD(1))
  obtain t where t: "declare_in hash scope h s = Inr ((), s\<lparr>mScopeList := (mScopeList s)[scope := t]\<rparr>)"
    "in_scope hash (s\<lparr>mScopeList := (mScopeList s)[scope := t]\<rparr>) scope" "scope_ok hash handle_name t"
    "mset (scope_items t) = add_mset h (mset (scope_items (mScopeList s ! scope)))"
    using declare_in_ok [OF assms(1,2)] by blast
  have "\<forall>x \<in> set (scope_items (mScopeList s ! scope)). handle_name x \<noteq> handle_name h"
    using hit_other [OF ok(1)] assms(3) by (simp add: free_name_def)
  then have "hit hash handle_name (handle_name h) t = Some h" by (rule hit_unique [OF t(3,4)])
  then have "scope_env hash (s\<lparr>mScopeList := (mScopeList s)[scope := t]\<rparr>) scope (handle_name h) = Some h"
    using ok(2) by (intro env_local) simp
  then show ?thesis using t(1,2) by fastforce
qed

section \<open>Constants\<close>

definition is_prim :: "type_id \<Rightarrow> bool" where
  "is_prim t \<longleftrightarrow> t \<in> {kVoidType, kBooleanType, kIntType, kFloatType, kStringType}"

fun handle_of_val :: "string \<Rightarrow> const_val \<Rightarrow> ir_handle" where
  "handle_of_val name (BoolV b) = BooleanConst name b"
| "handle_of_val name (IntV i) = IntConst name i"
| "handle_of_val name (FloatV x) = FloatConst name x"

lemma handle_of_val_name [simp]: "handle_name (handle_of_val name v) = name"
  by (cases v) simp_all

lemma resolve_prim:
  assumes "tm_ok (mTypeMgr s)" and "is_prim t"
  shows "\<exists>p. resolve_type hash (PrimT t) scope s = Inr (Some p, s) \<and> p < 5"
  using assms(2) prims_members [OF assms(1)] by (auto simp: is_prim_def)

lemma const_handle_ok:
  assumes "folds (mTypeList (mTypeMgr s)) k r n"
  shows "const_handle name n s = res_bind r (\<lambda>v. Inr (handle_of_val name v, s))"
proof -
  let ?tys = "mTypeList (mTypeMgr s)"
  have wt: "wt ?tys n k" "eval_ref n = r" using assms by (auto simp: folds_def)
  note impl = eval_implements [OF wt(1)]
  have ty: "ptr_type_id ?tys (value_type n) = Inr k" by (rule wt_value_type [OF wt(1)])
  have "kinded k r" using impl wt(2) by simp
  moreover have "k \<in> {kBooleanType, kIntType, kFloatType}" by (rule wt_kind [OF wt(1)])
  ultimately show ?thesis
    using impl ty wt(2)
    by (cases rule: kinded_cases) (auto simp: const_handle_def el_bind_def)
qed

text \<open>The declaration of a constant whose type is resolved without registering a new type.\<close>

lemma reg_const_step:
  assumes "in_scope hash s scope" and "resolve_type hash ty scope s = Inr (r, s)"
  shows "reg_const hash name ty e scope s =
    (if \<not> free_name hash s scope name \<or> r = None then Inr ((), s)
     else el_ptr (elab_expr hash e scope) (\<lambda>node.
       if \<not> is_static node then el_ret ()
       else el_bind (const_handle name node) (declare_in hash scope)) s)"
  using assms(2) check_name_ok [OF assms(1), of name]
  by (cases r) (simp_all add: reg_const_def el_ptr_def el_bind_def)

lemma reg_const_run:
  assumes "in_scope hash s scope" and "free_name hash s scope name"
    and "resolve_type hash ty scope s = Inr (Some p, s)"
    and "elab_expr hash e scope s = Inr (Some n, s)" and "is_static n"
  shows "reg_const hash name ty e scope s = el_bind (const_handle name n) (declare_in hash scope) s"
  using reg_const_step [OF assms(1,3)] assms(2,4,5) by (simp add: el_ptr_def)

lemma const_handle_string:
  assumes "tm_ok (mTypeMgr s)" and "value_type n = Some 4"
  shows "const_handle name n s = Inl AssertFail"
  using prims_at [OF assms(1)] assms(2)
  by (simp add: const_handle_def el_bind_def ptr_type_id_def deref_def type_at_def)

section \<open>Enumerations\<close>

lemma check_mem: "check used v \<longleftrightarrow> v \<in> set used"
  by (induction used) auto

lemma next_free_fresh: "next_free used v = Inr w \<Longrightarrow> w \<notin> set used"
proof (induction used v rule: next_free.induct)
  case (1 used v)
  then show ?case
    by (subst (asm) (2) next_free.simps) (auto simp: check_mem split: if_splits)
qed

lemma el_some_eq_Inr:
  "el_some m f s = Inr (Some y, s') \<longleftrightarrow> (\<exists>x t. m s = Inr (Some x, t) \<and> f x t = Inr (Some y, s'))"
  by (auto simp: el_some_def el_bind_def res_bind_eq_Inr split: option.splits)

lemma el_bind_eq_Inr: "el_bind m f s = Inr z \<longleftrightarrow> (\<exists>x t. m s = Inr (x, t) \<and> f x t = Inr z)"
  by (auto simp: el_bind_def res_bind_eq_Inr)

lemma el_seq_eq_Inr: "el_seq m k s = Inr z \<longleftrightarrow> (\<exists>t. m s = Inr ((), t) \<and> k t = Inr z)"
  by (auto simp: el_seq_def el_bind_eq_Inr)

lemma if_fun: "(if b then f else g) x = (if b then f x else g x)"
  by simp

lemmas el_eq_Inr = el_some_eq_Inr el_bind_eq_Inr el_seq_eq_Inr

lemma enum_explicit:
  assumes "enum_elems hash ((name, Some e) # ecs) enum_scope used v s = Inr (Some elems, s')"
  shows "\<exists>v' w es. v' \<notin> set used \<and>
    enum_elems hash ecs enum_scope (used @ [v']) v w = Inr (Some es, s') \<and> elems = (name, v') # es"
proof -
  obtain n t where t: "(if \<not> is_static n then el_ret None
       else el_bind (el_get (\<lambda>s. mIntType (mTypeMgr s))) (\<lambda>int_type.
         if value_type n \<noteq> int_type then el_ret None
         else el_bind (el_read (\<lambda>m. eval_int (mTypeList m) n)) (\<lambda>v'.
           if check used v' then el_ret None
           else el_seq (declare_in hash enum_scope (IntConst name v'))
             (el_some (enum_elems hash ecs enum_scope (used @ [v']) v)
               (\<lambda>elems. el_ret (Some ((name, v') # elems))))))) t = Inr (Some elems, s')"
    using assms by (simp only: enum_elems.simps el_some_eq_Inr) blast
  then obtain v' w where "\<not> check used v'" "el_seq (declare_in hash enum_scope (IntConst name v'))
             (el_some (enum_elems hash ecs enum_scope (used @ [v']) v)
               (\<lambda>elems. el_ret (Some ((name, v') # elems)))) w = Inr (Some elems, s')"
    by (auto simp: if_fun el_bind_eq_Inr el_get_def split: if_splits)
  then show ?thesis by (auto simp: check_mem el_eq_Inr)
qed

lemma enum_implicit:
  assumes "enum_elems hash ((name, None) # ecs) enum_scope used v s = Inr (Some elems, s')"
  shows "\<exists>v' v'' w es. next_free used v = Inr v' \<and> c_inc v' = Inr v'' \<and>
    enum_elems hash ecs enum_scope (used @ [v']) v'' w = Inr (Some es, s') \<and>
    elems = (name, v') # es"
  using assms by (simp add: el_eq_Inr) (auto simp: res_bind_eq_Inr)

lemma enum_elems_distinct:
  "enum_elems hash ecs enum_scope used v s = Inr (Some elems, s') \<Longrightarrow> distinct used \<Longrightarrow>
    map fst elems = map fst ecs \<and> distinct (used @ map snd elems)"
proof (induction ecs arbitrary: used v s elems)
  case Nil
  then show ?case by simp
next
  case (Cons ec ecs)
  obtain name e where ec: "ec = (name, e)" by force
  have "\<exists>v' v'' w es. v' \<notin> set used \<and>
    enum_elems hash ecs enum_scope (used @ [v']) v'' w = Inr (Some es, s') \<and> elems = (name, v') # es"
  proof (cases e)
    case None
    then show ?thesis
      using enum_implicit Cons.prems(1) next_free_fresh unfolding ec by blast
  next
    case (Some x)
    then show ?thesis using enum_explicit Cons.prems(1) unfolding ec by blast
  qed
  then obtain v' v'' w es where *: "v' \<notin> set used" "elems = (name, v') # es"
    "enum_elems hash ecs enum_scope (used @ [v']) v'' w = Inr (Some es, s')"
    by blast
  have "distinct (used @ [v'])" using Cons.prems(2) *(1) by simp
  from Cons.IH [OF *(3) this] show ?case using *(2) ec by auto
qed

text \<open>Enumerators without a value count up from the next value.\<close>

lemma next_free_unused: "v \<notin> set used \<Longrightarrow> next_free used v = Inr v"
  by (subst next_free.simps) (simp add: check_mem)

lemma c_inc_of_nat:
  assumes "Suc k < 2 ^ 31"
  shows "c_inc (of_nat k) = Inr (of_nat (Suc k))"
proof -
  have "sint (of_nat k :: i32) = int k"
    using assms sint_word_of_int_i32 [of "int k"] by simp
  then have "c_inc (of_nat k) = Inr (word_of_int (int k + 1))"
    using assms by (simp add: c_inc_def i32_of_int_def)
  then show ?thesis by (simp add: add.commute)
qed

lemma of_nat_i32_inj: "a < 2 ^ 31 \<Longrightarrow> b < 2 ^ 31 \<Longrightarrow> (of_nat a :: i32) = of_nat b \<longleftrightarrow> a = b"
proof -
  assume a: "a < 2 ^ 31" and b: "b < 2 ^ 31"
  have "unat (of_nat a :: i32) = a" "unat (of_nat b :: i32) = b"
    using a b by (simp_all add: unat_of_nat)
  then show ?thesis by metis
qed

abbreviation implicit :: "string list \<Rightarrow> (string \<times> ast_expr option) list" where
  "implicit names \<equiv> map (\<lambda>n. (n, None)) names"

definition numbers :: "nat \<Rightarrow> nat \<Rightarrow> i32 list" where
  "numbers k n = map of_nat [k..<k + n]"

lemma numbers_simps [simp]:
  "numbers k 0 = []" "numbers k (Suc n) = of_nat k # numbers (Suc k) n" "length (numbers k n) = n"
  by (simp_all add: numbers_def upt_conv_Cons del: upt_Suc)

lemma nth_numbers [simp]: "i < n \<Longrightarrow> numbers k n ! i = of_nat (k + i)"
  by (simp add: numbers_def)

lemma enum_default:
  assumes "in_scope hash s es" and "length (scope_items (mScopeList s ! es)) + length names < 2 ^ 28"
    and "k + length names < 2 ^ 31"
  shows "\<exists>t. enum_elems hash (implicit names) es (map of_nat [0..<k]) (of_nat k) s =
      Inr (Some (zip names (numbers k (length names))), s\<lparr>mScopeList := (mScopeList s)[es := t]\<rparr>) \<and>
    in_scope hash (s\<lparr>mScopeList := (mScopeList s)[es := t]\<rparr>) es \<and>
    mset (scope_items t) = mset (map2 IntConst names (numbers k (length names))) +
      mset (scope_items (mScopeList s ! es))"
  using assms
proof (induction names arbitrary: k s)
  case Nil
  show ?case
    by (rule exI [of _ "mScopeList s ! es"]) (use Nil in \<open>simp add: in_scope_def\<close>)
next
  case (Cons name names)
  have len: "es < length (mScopeList s)" using Cons.prems(1) by (simp add: in_scope_def)
  have "room s es" using Cons.prems(2) by (simp add: room_def)
  from declare_in_ok [OF Cons.prems(1) this, of "IntConst name (of_nat k)"] obtain t where t:
    "declare_in hash es (IntConst name (of_nat k)) s = Inr ((), s\<lparr>mScopeList := (mScopeList s)[es := t]\<rparr>)"
    "in_scope hash (s\<lparr>mScopeList := (mScopeList s)[es := t]\<rparr>) es"
    "mset (scope_items t) =
      add_mset (IntConst name (of_nat k)) (mset (scope_items (mScopeList s ! es)))"
    by blast
  let ?s = "s\<lparr>mScopeList := (mScopeList s)[es := t]\<rparr>"
  have items: "length (scope_items t) = Suc (length (scope_items (mScopeList s ! es)))"
    using t(3) by (metis size_add_mset size_mset)
  have "(of_nat k :: i32) \<notin> set (map of_nat [0..<k])"
  proof -
    have "(of_nat x :: i32) \<noteq> of_nat k" if "x < k" for x
      using that Cons.prems(3) of_nat_i32_inj [of x k] by simp
    then show ?thesis by fastforce
  qed
  then have step: "next_free (map of_nat [0..<k]) (of_nat k) = Inr (of_nat k)"
    "c_inc (of_nat k) = Inr (of_nat (Suc k))"
    using next_free_unused c_inc_of_nat Cons.prems(3) by auto
  obtain t' where t': "enum_elems hash (implicit names) es (map of_nat [0..<Suc k]) (of_nat (Suc k)) ?s =
      Inr (Some (zip names (numbers (Suc k) (length names))), ?s\<lparr>mScopeList := (mScopeList ?s)[es := t']\<rparr>)"
    "in_scope hash (?s\<lparr>mScopeList := (mScopeList ?s)[es := t']\<rparr>) es"
    "mset (scope_items t') = mset (map2 IntConst names (numbers (Suc k) (length names))) +
      mset (scope_items (mScopeList ?s ! es))"
    using Cons.IH [OF t(2), of "Suc k"] Cons.prems(2,3) items len by auto
  have run: "enum_elems hash (implicit (name # names)) es (map of_nat [0..<k]) (of_nat k) s =
      Inr (Some (zip (name # names) (numbers k (length (name # names)))),
        s\<lparr>mScopeList := (mScopeList s)[es := t']\<rparr>)"
    using step t(1) t'(1) by (simp add: el_seq_def el_bind_def el_some_def)
  show ?case
    using run t'(2,3) t(3) len by (intro exI [of _ t']) simp
qed

lemma open_scope_ok:
  assumes "in_scope hash s scope"
  shows "\<exists>s'. open_scope hash (Some scope) name s = Inr (length (mScopeList s), s') \<and>
    in_scope hash s' (length (mScopeList s)) \<and> in_scope hash s' scope \<and>
    s' = s\<lparr>mScopeList := mScopeList s'\<rparr> \<and> take (length (mScopeList s)) (mScopeList s') = mScopeList s \<and>
    scope_items (mScopeList s' ! length (mScopeList s)) = [] \<and>
    length (mScopeList s') = Suc (length (mScopeList s))"
proof -
  let ?n = "length (mScopeList s)"
  have ok: "scopes_ok hash handle_name (mScopeList s)" "scope < ?n" "tm_ok (mTypeMgr s)"
    using assms by (simp_all add: in_scope_def)
  obtain r where "new_scope hash handle_name (Some scope) name (mScopeList s) = Inr (?n, r)"
    "scopes_ok hash handle_name r" "take ?n r = mScopeList s" "scope_items (r ! ?n) = []"
    "length r = Suc ?n"
    using new_scope_inv [OF ok(1), of "Some scope" name] ok(2) by auto
  then show ?thesis
    using ok by (intro exI [of _ "s\<lparr>mScopeList := r\<rparr>"]) (simp add: open_scope_def in_scope_def)
qed

lemma scope_env_new:
  assumes "in_scope hash s scope" and "room s scope" and "free_name hash s scope (handle_name h)"
  shows "\<exists>t. declare_in hash scope h s = Inr ((), s\<lparr>mScopeList := (mScopeList s)[scope := t]\<rparr>) \<and>
    in_scope hash (s\<lparr>mScopeList := (mScopeList s)[scope := t]\<rparr>) scope \<and>
    scope_env hash (s\<lparr>mScopeList := (mScopeList s)[scope := t]\<rparr>) scope (handle_name h) = Some h"
proof -
  have ok: "scope_ok hash handle_name (mScopeList s ! scope)" "scope < length (mScopeList s)"
    using assms(1) by (auto simp: in_scope_def scopes_okD(1))
  obtain t where t: "declare_in hash scope h s = Inr ((), s\<lparr>mScopeList := (mScopeList s)[scope := t]\<rparr>)"
    "in_scope hash (s\<lparr>mScopeList := (mScopeList s)[scope := t]\<rparr>) scope" "scope_ok hash handle_name t"
    "mset (scope_items t) = add_mset h (mset (scope_items (mScopeList s ! scope)))"
    using declare_in_ok [OF assms(1,2)] by blast
  have "\<forall>x \<in> set (scope_items (mScopeList s ! scope)). handle_name x \<noteq> handle_name h"
    using hit_other [OF ok(1)] assms(3) by (simp add: free_name_def)
  then have "hit hash handle_name (handle_name h) t = Some h" by (rule hit_unique [OF t(3,4)])
  then show ?thesis
    using t(1,2) ok(2) by (intro exI [of _ t]) (simp add: env_local)
qed

lemma enumerator_hit:
  assumes "scope_ok hash handle_name t" and "mset (scope_items t) = mset (map2 IntConst names vals)"
    and "distinct names" and "length vals = length names" and "i < length names"
  shows "hit hash handle_name (names ! i) t = Some (IntConst (names ! i) (vals ! i))"
proof -
  have set: "set (scope_items t) = set (map2 IntConst names vals)"
    using assms(2) by (metis set_mset_mset)
  have mem: "IntConst (names ! i) (vals ! i) \<in> set (map2 IntConst names vals)"
    using assms(4,5) by (auto simp: set_zip)
  have uniq: "x = IntConst (names ! i) (vals ! i)"
    if x: "x \<in> set (map2 IntConst names vals)" "handle_name x = names ! i" for x
  proof -
    obtain j where j: "j < length names" "x = IntConst (names ! j) (vals ! j)"
      using x(1) assms(4) by (auto simp: set_zip)
    then have "names ! j = names ! i" using x(2) by simp
    then have "j = i" using assms(3,5) j(1) by (simp add: nth_eq_iff_index_eq)
    then show ?thesis using j(2) by simp
  qed
  obtain r where r: "scope_find_local hash handle_name (names ! i) t = Inr r"
    "case r of None \<Rightarrow> \<forall>h \<in> set (scope_items t). handle_name h \<noteq> names ! i
     | Some h \<Rightarrow> h \<in> set (scope_items t) \<and> handle_name h = names ! i"
    using scope_find_local_ok [OF assms(1)] by blast
  show ?thesis
  proof (cases r)
    case None
    then have "\<forall>h \<in> set (scope_items t). handle_name h \<noteq> names ! i" using r(2) by simp
    from bspec [OF this, of "IntConst (names ! i) (vals ! i)"] show ?thesis using mem set by simp
  next
    case (Some h)
    then have "h = IntConst (names ! i) (vals ! i)" using r(2) set uniq by simp
    then show ?thesis using r(1) Some by (simp add: hit_def)
  qed
qed

lemma enum_scope_values:
  assumes "in_scope hash s scope" and "distinct names" and "length names < 2 ^ 28"
  shows "\<exists>s' es. open_scope hash (Some scope) name s = Inr (es, s') \<and> scope < es \<and>
    (\<exists>s''. enum_elems hash (implicit names) es [] 0 s' =
        Inr (Some (zip names (numbers 0 (length names))), s'') \<and>
      in_scope hash s'' es \<and> in_scope hash s'' scope \<and>
      mScopeList s'' ! scope = mScopeList s ! scope \<and> s'' = s\<lparr>mScopeList := mScopeList s''\<rparr> \<and>
      (\<forall>i < length names. hit hash handle_name (names ! i) (mScopeList s'' ! es) =
        Some (IntConst (names ! i) (of_nat i))))"
proof -
  let ?es = "length (mScopeList s)"
  have lt: "scope < ?es" using assms(1) by (simp add: in_scope_def)
  obtain s' where s': "open_scope hash (Some scope) name s = Inr (?es, s')" "in_scope hash s' ?es"
    "in_scope hash s' scope" "s' = s\<lparr>mScopeList := mScopeList s'\<rparr>"
    "take ?es (mScopeList s') = mScopeList s" "scope_items (mScopeList s' ! ?es) = []"
    "length (mScopeList s') = Suc ?es"
    using open_scope_ok [OF assms(1)] by blast
  obtain t where t: "enum_elems hash (implicit names) ?es [] 0 s' =
      Inr (Some (zip names (numbers 0 (length names))), s'\<lparr>mScopeList := (mScopeList s')[?es := t]\<rparr>)"
    "in_scope hash (s'\<lparr>mScopeList := (mScopeList s')[?es := t]\<rparr>) ?es"
    "mset (scope_items t) = mset (map2 IntConst names (numbers 0 (length names)))"
    using enum_default [OF s'(2), of names 0] s'(6) assms(3) by auto
  let ?s = "s'\<lparr>mScopeList := (mScopeList s')[?es := t]\<rparr>"
  have "scope_ok hash handle_name t"
    using t(2) scopes_okD(1) [of hash handle_name "mScopeList ?s" ?es] s'(7) by (simp add: in_scope_def)
  then have "\<forall>i < length names. hit hash handle_name (names ! i) (mScopeList ?s ! ?es) =
      Some (IntConst (names ! i) (of_nat i))"
    using enumerator_hit [OF _ t(3) assms(2)] s'(7) by simp
  moreover have "in_scope hash ?s scope" using t(2) lt s'(7) by (simp add: in_scope_def)
  moreover have "mScopeList ?s ! scope = mScopeList s ! scope"
    using lt arg_cong [OF s'(5), of "\<lambda>xs. xs ! scope"] by simp
  moreover have "?s = s\<lparr>mScopeList := mScopeList ?s\<rparr>" by (subst s'(4)) simp
  ultimately show ?thesis using s'(1) lt t(1,2) by blast
qed

section \<open>Properties\<close>

text \<open>The declaration of a constant whose operands agree in kind.\<close>

lemma const_decl_value:
  assumes "in_scope hash s scope" and "room s scope" and "free_name hash s scope name"
    and "resolve_type hash ty scope s = Inr (Some p, s)"
    and "const_kind (scope_env hash s scope) e = Some k"
  shows "case ast_eval (scope_env hash s scope) e of
      Inl f \<Rightarrow> reg_const hash name ty e scope s = Inl f
    | Inr v \<Rightarrow> \<exists>s'. reg_const hash name ty e scope s = Inr ((), s') \<and>
        in_scope hash s' scope \<and>
        find_in hash scope name s' = Inr (Some (handle_of_val name v), s')"
proof -
  let ?v = "ast_eval (scope_env hash s scope) e"
  have tm: "tm_ok (mTypeMgr s)" using assms(1) by (simp add: in_scope_def)
  obtain n where n: "elab_expr hash e scope s = Inr (Some n, s)"
    "folds (mTypeList (mTypeMgr s)) k ?v n"
    using elab_const [OF assms(1,5)] by blast
  have "is_static n"
    using elab_expr_types [OF assms(1), of e] const_kind_plain [OF tm assms(5)] const_expr_safe n(1)
    by (auto simp: node_ok_def)
  from reg_const_run [OF assms(1,3,4) n(1) this] const_handle_ok [OF n(2), of name]
  have run: "reg_const hash name ty e scope s =
      res_bind ?v (\<lambda>v. declare_in hash scope (handle_of_val name v) s)"
    by (cases ?v) (simp_all add: el_bind_def)
  show ?thesis
  proof (cases ?v)
    case (Inr v)
    then show ?thesis
      using run scope_env_new [OF assms(1,2), of "handle_of_val name v"] assms(3) by auto
  qed (use run in simp)
qed

text \<open>
  C13: what a constant declaration does. Let the declared type be resolved without registering a new
  type, as primitive and named types are, and let the expression be one the elaborator decides. If
  the name is taken in the scope, if the declared type is not found, or if the expression has no
  type or is not constant, nothing happens. An expression that crashes the elaborator crashes the
  declaration, and a constant of type string fails an assertion. If the boolean, integer and float
  operands of the expression agree in kind, the declaration hits the arithmetic fault of the
  expression or binds the name, in its scope, to the value computed on the syntax tree. The
  declared type has no influence on the value. Constant expressions that mix kinds are left open
  here.
\<close>

theorem constant_declaration:
  assumes "in_scope hash s scope" and "room s scope" and "resolve_type hash ty scope s = Inr (r, s)"
    and "plain (mTypeMgr s) (scope_env hash s scope) e"
  shows "let env = scope_env hash s scope; t = expr_type (mTypeMgr s) env e;
      run = reg_const hash name ty e scope s
    in if \<not> free_name hash s scope name \<or> r = None then run = Inr ((), s)
      else if crashes (mTypeMgr s) env e then run = Inl NullDeref
      else if t = None \<or> \<not> const_expr env e then run = Inr ((), s)
      else if t = Some 4 then run = Inl AssertFail
      else \<forall>k. const_kind env e = Some k \<longrightarrow>
        (case ast_eval env e of
           Inl f \<Rightarrow> run = Inl f
         | Inr v \<Rightarrow> \<exists>s'. run = Inr ((), s') \<and> in_scope hash s' scope \<and>
             find_in hash scope name s' = Inr (Some (handle_of_val name v), s'))"
proof -
  let ?m = "mTypeMgr s" and ?env = "scope_env hash s scope"
  have tm: "tm_ok ?m" using assms(1) by (simp add: in_scope_def)
  note step = reg_const_step [OF assms(1,3), of name e]
  consider (none) "\<not> free_name hash s scope name \<or> r = None"
    | (crash) "free_name hash s scope name" "r \<noteq> None" "crashes ?m ?env e"
    | (typed) p where "free_name hash s scope name" "r = Some p" "\<not> crashes ?m ?env e" by blast
  then show ?thesis
  proof cases
    case none
    then show ?thesis using step by (simp add: Let_def)
  next
    case crash
    then show ?thesis
      using step elab_expr_crashes(1) [OF assms(1,4)] by (simp add: el_ptr_def)
  next
    case typed
    obtain n where n: "elab_expr hash e scope s = Inr (n, s)" "node_ok ?m ?env e n"
      using elab_expr_types [OF assms(1,4) typed(3)] by blast
    have "reg_const hash name ty e scope s = Inr ((), s)"
      if "expr_type ?m ?env e = None \<or> \<not> const_expr ?env e"
      using that step typed n
      by (cases "expr_type ?m ?env e") (auto simp: node_ok_def el_ptr_def)
    moreover have "reg_const hash name ty e scope s = Inl AssertFail"
      if "expr_type ?m ?env e = Some 4" "const_expr ?env e"
      using that step typed n const_handle_string [OF tm] by (auto simp: node_ok_def el_ptr_def)
    ultimately show ?thesis
      using const_decl_value [OF assms(1,2) typed(1) assms(3) [unfolded typed(2)], of e] typed
      by (simp add: Let_def)
  qed
qed

text \<open>
  C36: an expression that mixes an integer and a float, which the typing rules accept, cannot be
  declared as a constant: the elaborator reaches a failing assertion or an arithmetic fault.
\<close>

theorem mixed_constant_fails:
  assumes "in_scope hash s scope" and "free_name hash s scope name" and "is_prim t"
    and "op \<in> arith_ops" and "const_kind (scope_env hash s scope) a = Some kIntType"
    and "const_kind (scope_env hash s scope) b = Some kFloatType"
  shows "expr_type (mTypeMgr s) (scope_env hash s scope) (BinOpE op a b) = Some 3 \<and>
    (\<exists>f. reg_const hash name (PrimT t) (BinOpE op a b) scope s = Inl f)"
proof -
  let ?m = "mTypeMgr s" and ?env = "scope_env hash s scope"
  have tm: "tm_ok ?m" using assms(1) by (simp add: in_scope_def)
  obtain n n' where n: "elab_expr hash a scope s = Inr (Some n, s)"
    "folds (mTypeList ?m) kIntType (ast_eval ?env a) n" "elab_expr hash b scope s = Inr (Some n', s)"
    "folds (mTypeList ?m) kFloatType (ast_eval ?env b) n'"
    using elab_const [OF assms(1,5)] elab_const [OF assms(1,6)] by blast
  note pa = const_kind_plain [OF tm assms(5)] and pb = const_kind_plain [OF tm assms(6)]
  have rule: "type2_rule ?m op 2 3 = Some (3, 3, 3)" and op: "op \<in> binary_ops"
    using assms(4) by (auto simp: type2_rule_def arith_ops_def binary_ops_def)
  have v: "valid_ptr ?m 2" "valid_ptr ?m 3" by (simp_all add: valid_prims [OF tm])
  let ?n = "BinOp op (Some 3) n n'"
  have elab: "elab_expr hash (BinOpE op a b) scope s = Inr (Some ?n, s)"
    using n bin_op_ok [OF tm v op, of n n'] rule by (simp add: folds_def)
  have type: "expr_type ?m ?env (BinOpE op a b) = Some 3" using pa pb rule by simp
  have "is_static ?n"
    using elab_expr_types [OF assms(1), of "BinOpE op a b"] const_expr_safe [of ?env a ?m]
      const_expr_safe [of ?env b ?m]
      pa pb op elab type
    by (auto simp: node_ok_def)
  moreover have "\<exists>f. const_handle name ?n s = Inl f"
  proof -
    have "wt (mTypeList ?m) n kIntType" using n(2) by (simp add: folds_def)
    then have "faulty (eval_float (mTypeList ?m) n)" using other_evaluator_faults by blast
    then have "faulty (eval_float (mTypeList ?m) ?n)" by (simp split: option.split)
    moreover have "ptr_type_id (mTypeList ?m) (Some 3) = Inr kFloatType"
      using kind_no_type [OF tm, of kFloatType] by (simp add: scalar_kinds_def)
    ultimately show ?thesis
      by (cases "eval_float (mTypeList ?m) ?n")
        (simp_all add: const_handle_def el_bind_def del: eval_float.simps)
  qed
  ultimately show ?thesis
    using reg_const_run [OF assms(1,2) _ elab] resolve_prim [OF tm assms(3)] type
    by (fastforce simp: el_bind_def simp del: resolve_type.simps)
qed

text \<open>
  C10: the values of an enumeration are pairwise different, however explicit and implicit values are
  mixed: whenever the enumerators are accepted, they come with their names in order and with
  distinct values.
\<close>

theorem enum_values_distinct:
  assumes "enum_elems hash ecs enum_scope [] 0 s = Inr (Some elems, s')"
  shows "map fst elems = map fst ecs \<and> distinct (map snd elems)"
  using enum_elems_distinct [OF assms] by simp

lemma enum_type_ok:
  assumes "tm_ok m" and "length (mTypeList m) < 2 ^ 30"
  obtains p m' where "enum_type name elems m = Inr (p, m')" "tm_ok m'" "p < length (mTypeList m')"
    "mTypeList m' ! p = EnumTy name elems"
proof -
  have "req_ok (ReqEnum name elems) m" by (simp add: req_ok_def)
  from serve_ok [OF assms this] obtain p m' where "serve (ReqEnum name elems) m = Inr (p, m')"
    "tm_ok m'" "p < length (mTypeList m')" "mTypeList m' ! p = req_type (ReqEnum name elems)"
    by metis
  then show thesis by (intro that) simp_all
qed

text \<open>
  C12: an enumeration without explicit values numbers its names from 0. The declaration of one with
  different names returns; afterwards its name resolves to the enumeration type, which lists the
  names with their numbers, and each member reference \<^verbatim>\<open>name.element\<close> is the constant with its number.
\<close>

theorem enum_declaration:
  assumes "in_scope hash s scope" and "room s scope" and "free_name hash s scope name"
    and "distinct names" and "length names < 2 ^ 28"
    and "length (mTypeList (mTypeMgr s)) < 2 ^ 30"
  shows "\<exists>s' p. reg_enum hash name (implicit names) scope s = Inr ((), s') \<and> in_scope hash s' scope \<and>
    resolve_type hash (NamedT (SymbolE name)) scope s' = Inr (Some p, s') \<and>
    mTypeList (mTypeMgr s') ! p = EnumTy name (zip names (numbers 0 (length names))) \<and>
    (\<forall>i < length names. elab_primary hash (MemberRefE (SymbolE name) (names ! i)) scope s' =
      Inr (Some (IntConst (names ! i) (of_nat i)), s'))"
proof -
  let ?elems = "zip names (numbers 0 (length names))"
  obtain s1 es s2 where op: "open_scope hash (Some scope) name s = Inr (es, s1)" "scope < es"
    and en: "enum_elems hash (implicit names) es [] 0 s1 = Inr (Some ?elems, s2)"
    "in_scope hash s2 es" "in_scope hash s2 scope"
    "mScopeList s2 ! scope = mScopeList s ! scope" "s2 = s\<lparr>mScopeList := mScopeList s2\<rparr>"
    "\<forall>i < length names. hit hash handle_name (names ! i) (mScopeList s2 ! es) =
      Some (IntConst (names ! i) (of_nat i))"
    using enum_scope_values [OF assms(1,4,5), of name] by blast
  have m2: "mTypeMgr s2 = mTypeMgr s" using arg_cong [OF en(5), of mTypeMgr] by simp
  have "tm_ok (mTypeMgr s2)" using en(2) by (simp add: in_scope_def)
  from enum_type_ok [OF this, unfolded m2, OF assms(6), of name ?elems]
  obtain p m' where ty: "enum_type name ?elems (mTypeMgr s2) = Inr (p, m')" "tm_ok m'"
    "p < length (mTypeList m')" "mTypeList m' ! p = EnumTy name ?elems"
    unfolding m2 by blast
  let ?s3 = "s2\<lparr>mTypeMgr := m'\<rparr>" and ?h = "TypeHandle name (Some p) es"
  have in3: "in_scope hash ?s3 scope" using en(3) ty(2) by (simp add: in_scope_def)
  have free3: "free_name hash ?s3 scope (handle_name ?h)" "room ?s3 scope"
    using assms(2,3) en(4) by (simp_all add: free_name_def room_def)
  obtain t where t: "declare_in hash scope ?h ?s3 = Inr ((), ?s3\<lparr>mScopeList := (mScopeList ?s3)[scope := t]\<rparr>)"
    "in_scope hash (?s3\<lparr>mScopeList := (mScopeList ?s3)[scope := t]\<rparr>) scope"
    "scope_env hash (?s3\<lparr>mScopeList := (mScopeList ?s3)[scope := t]\<rparr>) scope (handle_name ?h) = Some ?h"
    using scope_env_new [OF in3 free3(2,1)] by blast
  let ?s4 = "?s3\<lparr>mScopeList := (mScopeList ?s3)[scope := t]\<rparr>"
  have "new_TypeHandle (mTypeList m') p es = Inr ?h"
    using ty by (simp add: new_TypeHandle_def type_at_def)
  then have run: "reg_enum hash name (implicit names) scope s = Inr ((), ?s4)"
    using check_name_ok [OF assms(1), of name] assms(3) op(1) en(1) ty(1) t(1)
    by (simp add: reg_enum_def el_bind_def el_ptr_def el_types_def)
  have es4: "in_scope hash ?s4 es" using t(2) en(2) by (simp add: in_scope_def)
  have "scope_env hash ?s4 es (names ! i) = Some (IntConst (names ! i) (of_nat i))"
    if "i < length names" for i
    using en(6) that op(2) by (intro env_local) simp
  then show ?thesis
    using run t(2,3) ty(4) es4 by (intro exI [of _ ?s4] exI [of _ p]) (simp add: member_ref_def)
qed

end

