(* ===== verification/Ir_Func.thy ===== *)
theory Ir_Func
  imports Ir_Decl
begin

text \<open>
  Properties of function declarations (\<^verbatim>\<open>IrMgr::reg_func\<close>) and of \<^verbatim>\<open>goto\<close>.
\<close>

section \<open>Parameters\<close>

fun prim_no :: "type_id \<Rightarrow> nat" where
  "prim_no kBooleanType = 1"
| "prim_no kIntType = 2"
| "prim_no kFloatType = 3"
| "prim_no kStringType = 4"
| "prim_no _ = 0"

lemma resolve_prim_no:
  assumes "tm_ok (mTypeMgr s)" and "is_prim t"
  shows "resolve_type hash (PrimT t) scope s = Inr (Some (prim_no t), s)"
  using assms(2) prims_members [OF assms(1)] by (auto simp: is_prim_def)

lemma prim_no_less: "prim_no t < 5"
  by (cases t) simp_all

text \<open>Parameters of primitive types without default values.\<close>

definition params :: "(string \<times> type_id) list \<Rightarrow> param list" where
  "params ps = map (\<lambda>(name, t). (name, PrimT t, None)) ps"

fun param_handles :: "nat \<Rightarrow> (string \<times> type_id) list \<Rightarrow> ir_handle list" where
  "param_handles i [] = []"
| "param_handles i ((name, t) # ps) =
     LocalVarHandle name (Some (prim_no t)) 0 i # param_handles (Suc i) ps"

definition param_types :: "(string \<times> type_id) list \<Rightarrow> nat list" where
  "param_types ps = map (\<lambda>(name, t). prim_no t) ps"

lemma params_simps [simp]:
  "params [] = []" "params ((name, t) # ps) = (name, PrimT t, None) # params ps"
  "param_types [] = []" "param_types ((name, t) # ps) = prim_no t # param_types ps"
  by (simp_all add: params_def param_types_def)

lemma free_in_empty:
  assumes "in_scope hash s fs" and "scope_items (mScopeList s ! fs) = []"
  shows "free_name hash s fs name"
proof -
  have "scope_ok hash handle_name (mScopeList s ! fs)"
    using assms(1) by (auto simp: in_scope_def scopes_okD(1))
  from scope_find_local_ok [OF this, of name] show ?thesis
    using assms(2) by (auto simp: free_name_def hit_def split: option.splits)
qed

text \<open>
  The names are checked against the scope of the function, which is empty until all have passed: a
  name given twice is not noticed.
\<close>

lemma resolve_params_ok:
  assumes "in_scope hash s fs" and "scope_items (mScopeList s ! fs) = []"
    and "list_all (\<lambda>(name, t). is_prim t) ps"
  shows "resolve_params hash fs scope (params ps) s = Inr (Some (param_types ps), s)"
proof -
  have tm: "tm_ok (mTypeMgr s)" using assms(1) by (simp add: in_scope_def)
  show ?thesis
    using assms(3)
    by (induction ps)
      (auto simp: check_name_ok [OF assms(1)] free_in_empty [OF assms(1,2)]
        resolve_prim_no [OF tm] el_bind_def el_some_def simp del: resolve_type.simps)
qed

lemma add_params_ok:
  assumes "in_scope hash s fs" and "length (scope_items (mScopeList s ! fs)) + length ps < 2 ^ 28"
  shows "\<exists>t. add_params hash fs scope (params ps) (param_types ps) i s =
      Inr (Some (param_handles i ps, replicate (length ps) None),
        s\<lparr>mScopeList := (mScopeList s)[fs := t]\<rparr>) \<and>
    in_scope hash (s\<lparr>mScopeList := (mScopeList s)[fs := t]\<rparr>) fs"
  using assms
proof (induction ps arbitrary: s i)
  case Nil
  then show ?case
    by (intro exI [of _ "mScopeList s ! fs"]) (simp add: in_scope_def)
next
  case (Cons p ps)
  obtain name ty where p: "p = (name, ty)" by force
  let ?h = "LocalVarHandle name (Some (prim_no ty)) 0 i"
  have len: "fs < length (mScopeList s)" using Cons.prems(1) by (simp add: in_scope_def)
  have "room s fs" using Cons.prems(2) by (simp add: room_def)
  from declare_in_ok [OF Cons.prems(1) this, of ?h] obtain t where t:
    "declare_in hash fs ?h s = Inr ((), s\<lparr>mScopeList := (mScopeList s)[fs := t]\<rparr>)"
    "in_scope hash (s\<lparr>mScopeList := (mScopeList s)[fs := t]\<rparr>) fs"
    "mset (scope_items t) = add_mset ?h (mset (scope_items (mScopeList s ! fs)))"
    by blast
  have "length (scope_items t) = Suc (length (scope_items (mScopeList s ! fs)))"
    using t(3) by (metis size_add_mset size_mset)
  then obtain t' where t': "add_params hash fs scope (params ps) (param_types ps) (Suc i)
        (s\<lparr>mScopeList := (mScopeList s)[fs := t]\<rparr>) =
      Inr (Some (param_handles (Suc i) ps, replicate (length ps) None),
        s\<lparr>mScopeList := (mScopeList s)[fs := t']\<rparr>)"
    "in_scope hash (s\<lparr>mScopeList := (mScopeList s)[fs := t']\<rparr>) fs"
    using Cons.IH [OF t(2), of "Suc i"] Cons.prems(2) len by auto
  then show ?case
    using t(1) p
    by (intro exI [of _ t']) (simp add: default_value_def el_seq_def el_bind_def el_some_def Let_def)
qed

section \<open>Function declarations\<close>

lemma function_type_ok:
  assumes "tm_ok m" and "length (mTypeList m) < 2 ^ 30" and "out < 5"
    and "\<forall>q \<in> set ins. q < 5"
  obtains p m' where "function_type (Some out) (map Some ins) m = Inr (p, m')" "tm_ok m'"
    "p < length (mTypeList m')" "mTypeList m' ! p = FuncTy out ins"
proof -
  have "5 \<le> length (mTypeList m)" by (rule prims_at(6) [OF assms(1)])
  then have "req_ok (ReqFunc out ins) m" using assms(3,4) by (auto simp: req_ok_def)
  from serve_ok [OF assms(1,2) this] obtain p m' where "serve (ReqFunc out ins) m = Inr (p, m')"
    "tm_ok m'" "p < length (mTypeList m')" "mTypeList m' ! p = req_type (ReqFunc out ins)"
    by metis
  then show thesis by (intro that) simp_all
qed

definition global_of :: "ir_mgr \<Rightarrow> nat \<Rightarrow> nat" where
  "global_of s scope = (case mGlobalScope (mScopeList s ! scope) of None \<Rightarrow> scope | Some g \<Rightarrow> g)"

lemma global_of_in_scope:
  assumes "in_scope hash s scope"
  shows "in_scope hash s (global_of s scope)"
  using assms scopes_okD(3) [of hash handle_name "mScopeList s" scope]
  by (fastforce simp: in_scope_def global_of_def split: option.split)

lemma global_scope_run:
  "in_scope hash s scope \<Longrightarrow>
    global_scope scope s = Inr (mGlobalScope (mScopeList s ! scope), s)"
  by (simp add: in_scope_def global_scope_def)

definition entered :: "(string \<times> type_id) list \<Rightarrow> ir_handle \<Rightarrow> func_block" where
  "entered ps h = new_FuncBlock (param_handles 0 ps) (replicate (length ps) None) h"

lemma reg_func_run:
  assumes "in_scope hash s scope" and "room s scope" and "free_name hash s scope name"
    and "is_prim t" and "list_all (\<lambda>(name, t). is_prim t) ps" and "length ps < 2 ^ 28"
    and "length (mTypeList (mTypeMgr s)) < 2 ^ 30"
  shows "\<exists>s' p h. reg_func hash name (PrimT t) (params ps) body scope s =
      body (length (mScopeList s)) (FuncBlock (length (mFuncList (toplevel_block s)))) s' \<and>
    in_scope hash s' (length (mScopeList s)) \<and> in_scope hash s' scope \<and>
    h = FuncHandle name (Some p) 0 (length (mFuncList (toplevel_block s))) \<and>
    scope_env hash s' scope name = Some h \<and>
    mTypeList (mTypeMgr s') ! p = FuncTy (prim_no t) (param_types ps) \<and>
    toplevel_block s' = (toplevel_block s)
      \<lparr>mFuncList := mFuncList (toplevel_block s) @ [entered ps h]\<rparr>"
proof -
  let ?fs = "length (mScopeList s)" and ?k = "length (mFuncList (toplevel_block s))"
  have lt: "scope < ?fs" using assms(1) by (simp add: in_scope_def)
  obtain s1 where s1: "open_scope hash (Some (global_of s scope)) '''' s = Inr (?fs, s1)"
    "in_scope hash s1 ?fs" "s1 = s\<lparr>mScopeList := mScopeList s1\<rparr>" "take ?fs (mScopeList s1) = mScopeList s"
    "scope_items (mScopeList s1 ! ?fs) = []" "length (mScopeList s1) = Suc ?fs"
    using open_scope_ok [OF global_of_in_scope [OF assms(1)]] by blast
  have mgr1: "mTypeMgr s1 = mTypeMgr s" "toplevel_block s1 = toplevel_block s"
    using arg_cong [OF s1(3), of mTypeMgr] arg_cong [OF s1(3), of toplevel_block] by simp_all
  have tm: "tm_ok (mTypeMgr s1)" using s1(2) by (simp add: in_scope_def)
  have "\<forall>q \<in> set (param_types ps). q < 5" by (auto simp: param_types_def prim_no_less)
  from function_type_ok [OF tm _ prim_no_less this] assms(7) mgr1 obtain p m' where ty:
    "function_type (Some (prim_no t)) (map Some (param_types ps)) (mTypeMgr s1) = Inr (p, m')" "tm_ok m'"
    "mTypeList m' ! p = FuncTy (prim_no t) (param_types ps)"
    by metis
  let ?s2 = "s1\<lparr>mTypeMgr := m'\<rparr>"
  have in2: "in_scope hash ?s2 ?fs" using s1(2) ty(2) by (simp add: in_scope_def)
  obtain u where u: "add_params hash ?fs scope (params ps) (param_types ps) 0 ?s2 =
      Inr (Some (param_handles 0 ps, replicate (length ps) None), ?s2\<lparr>mScopeList := (mScopeList ?s2)[?fs := u]\<rparr>)"
    "in_scope hash (?s2\<lparr>mScopeList := (mScopeList ?s2)[?fs := u]\<rparr>) ?fs"
    using add_params_ok [OF in2, of ps scope 0] s1(5) assms(6) by auto
  let ?s3 = "?s2\<lparr>mScopeList := (mScopeList ?s2)[?fs := u]\<rparr>"
  have old: "mScopeList ?s3 ! scope = mScopeList s ! scope"
    using lt arg_cong [OF s1(4), of "\<lambda>xs. xs ! scope"] by simp
  have in3: "in_scope hash ?s3 scope" using u(2) lt s1(6) by (simp add: in_scope_def)
  let ?h = "FuncHandle name (Some p) 0 ?k"
  have free3: "free_name hash ?s3 scope (handle_name ?h)" "room ?s3 scope"
    using assms(2,3) old by (simp_all add: free_name_def room_def)
  obtain v where v: "declare_in hash scope ?h ?s3 = Inr ((), ?s3\<lparr>mScopeList := (mScopeList ?s3)[scope := v]\<rparr>)"
    "in_scope hash (?s3\<lparr>mScopeList := (mScopeList ?s3)[scope := v]\<rparr>) scope"
    "scope_env hash (?s3\<lparr>mScopeList := (mScopeList ?s3)[scope := v]\<rparr>) scope (handle_name ?h) = Some ?h"
    using scope_env_new [OF in3 free3(2,1)] by blast
  let ?s4 = "?s3\<lparr>mScopeList := (mScopeList ?s3)[scope := v],
    toplevel_block := (toplevel_block s)\<lparr>mFuncList := mFuncList (toplevel_block s) @ [entered ps ?h]\<rparr>\<rparr>"
  have run: "reg_func hash name (PrimT t) (params ps) body scope s = body ?fs (FuncBlock ?k) ?s4"
    using check_name_ok [OF assms(1), of name] assms(3) global_scope_run [OF assms(1)]
      s1(1) resolve_prim_no [OF tm assms(4)] resolve_params_ok [OF s1(2,5) assms(5)] ty(1) u(1) v(1) mgr1
    by (simp add: reg_func_def el_bind_def el_ptr_def el_seq_def el_types_def next_func_index_def
        el_get_def add_function_def el_modify_def Let_def entered_def global_of_def
        del: resolve_type.simps)
  have env: "scope_env hash ?s4 scope name = Some ?h" using v(3) by (simp add: scope_env_def)
  have ins: "in_scope hash ?s4 scope" "in_scope hash ?s4 ?fs"
    using v(2) s1(6) by (simp_all add: in_scope_def)
  show ?thesis
    by (intro exI [of _ ?s4] exI [of _ p] exI [of _ ?h]) (use run env ins ty(3) in simp)
qed

section \<open>Blocks of code\<close>

lemma block_last [simp]:
  "block_of (FuncBlock (length fs)) (t\<lparr>mFuncList := fs @ [f]\<rparr>) = Inr (func_code f)"
  by (simp add: block_of_def)

lemma set_block_last [simp]:
  "set_block (FuncBlock (length fs)) c (t\<lparr>mFuncList := fs @ [f]\<rparr>) =
    Inr (t\<lparr>mFuncList := fs @ [f\<lparr>func_code := c\<rparr>]\<rparr>)"
  by (simp add: set_block_def)

lemma set_block_exists:
  "block_of b t = Inr c \<Longrightarrow> \<exists>t'. set_block b c' t = Inr t' \<and> block_of b t' = Inr c'"
  by (cases b) (auto simp: block_of_def set_block_def arr_get_def arr_set_def split: if_splits)

lemma add_node_ok:
  assumes "block_of b (toplevel_block s) = Inr c"
  shows "\<exists>t. add_node b node s = Inr ((), s\<lparr>toplevel_block := t\<rparr>) \<and>
    block_of b t = Inr (c\<lparr>mNodeList := mNodeList c @ [node]\<rparr>)"
  using assms set_block_exists [OF assms, of "c\<lparr>mNodeList := mNodeList c @ [node]\<rparr>"]
  by (auto simp: add_node_def on_block_def)

lemma open_scope_global:
  assumes "in_scope hash s scope" and "open_scope hash (Some scope) name s = Inr (p, s')"
  shows "mGlobalScope (mScopeList s' ! p) \<noteq> None"
proof -
  obtain ptrs sc where sc: "Scope_new hash handle_name (fst ptrs) (snd ptrs) name = Inr sc"
    "p = length (mScopeList s)" "mScopeList s' = mScopeList s @ [sc]" "snd ptrs \<noteq> None"
    using assms by (auto simp: open_scope_def new_scope_def in_scope_def split: option.splits if_splits)
  obtain sc' where "Scope_new hash handle_name (fst ptrs) (snd ptrs) name = Inr sc'"
    "mGlobalScope sc' = snd ptrs"
    using Scope_new_ok by blast
  then show ?thesis using sc by simp
qed

section \<open>Labels of goto\<close>

lemma scope_env_free:
  assumes "scope_env hash s scope name = None"
  shows "free_name hash s scope name"
proof -
  have "scope \<in> set (scope_chain (mScopeList s) scope)" by (subst scope_chain.simps) simp
  then show ?thesis
    using assms by (auto simp: scope_env_def first_hit_None free_name_def)
qed

lemma scope_env_cong:
  "mScopeList s' = mScopeList s \<Longrightarrow> scope_env hash s' scope name = scope_env hash s scope name"
  by (simp add: scope_env_def)

lemma known_label_faults:
  assumes "in_scope hash s scope" and "scope_env hash s scope name = Some (LabelHandle name l)"
  shows "elab_label hash name scope b s = Inl Uninit" and "elab_goto hash name scope b s = Inl Uninit"
  using assms by (simp_all add: elab_label_def elab_goto_def)

lemma new_name_run:
  assumes "in_scope hash s scope" and "room s scope" and "scope_env hash s scope name = None"
    and "block_of b (toplevel_block s) = Inr c"
  shows "\<exists>s' l. elab_goto hash name scope b s = Inr ((), s') \<and> in_scope hash s' scope \<and>
      scope_env hash s' scope name = Some (LabelHandle name l)"
    and "\<exists>s' l. elab_label hash name scope b s = Inr ((), s') \<and> in_scope hash s' scope \<and>
      scope_env hash s' scope name = Some (LabelHandle name l)"
proof -
  let ?l = "length (label_defined s)" and ?s1 = "s\<lparr>label_defined := label_defined s @ [False]\<rparr>"
  have in1: "in_scope hash ?s1 scope" "room ?s1 scope" "free_name hash ?s1 scope name"
    using assms(1,2) scope_env_free [OF assms(3)] by (simp_all add: in_scope_def room_def free_name_def)
  let ?h = "LabelHandle name ?l"
  obtain t where t: "declare_in hash scope ?h ?s1 = Inr ((), ?s1\<lparr>mScopeList := (mScopeList ?s1)[scope := t]\<rparr>)"
    "in_scope hash (?s1\<lparr>mScopeList := (mScopeList ?s1)[scope := t]\<rparr>) scope"
    "scope_env hash (?s1\<lparr>mScopeList := (mScopeList ?s1)[scope := t]\<rparr>) scope name = Some ?h"
    using scope_env_new [OF in1(1,2), of ?h] in1(3) by auto
  let ?s2 = "?s1\<lparr>mScopeList := (mScopeList ?s1)[scope := t]\<rparr>"
  let ?s3 = "?s2\<lparr>mUndefList := mUndefList s @ [?l]\<rparr>"
  obtain u where u: "add_node b (Some (Jump ?l)) ?s3 = Inr ((), ?s3\<lparr>toplevel_block := u\<rparr>)"
    using add_node_ok [of b ?s3] assms(4) by auto
  have "elab_goto hash name scope b s = Inr ((), ?s3\<lparr>toplevel_block := u\<rparr>)"
    using assms(1,3) t(1) u
    by (simp add: elab_goto_def el_bind_def el_seq_def new_Label_def el_modify_def)
  moreover have "in_scope hash (?s3\<lparr>toplevel_block := u\<rparr>) scope"
    "scope_env hash (?s3\<lparr>toplevel_block := u\<rparr>) scope name = Some ?h"
    using t(2,3) by (simp_all add: in_scope_def scope_env_def)
  ultimately show "\<exists>s' l. elab_goto hash name scope b s = Inr ((), s') \<and> in_scope hash s' scope \<and>
      scope_env hash s' scope name = Some (LabelHandle name l)" by blast
  let ?s4 = "?s2\<lparr>label_defined := (label_defined s @ [False])[?l := True]\<rparr>"
  obtain w where w: "add_node b (Some (Label ?l)) ?s4 = Inr ((), ?s4\<lparr>toplevel_block := w\<rparr>)"
    using add_node_ok [of b ?s4] assms(4) by auto
  have "elab_label hash name scope b s = Inr ((), ?s4\<lparr>toplevel_block := w\<rparr>)"
    using assms(1,3) t(1) w
    by (simp add: elab_label_def el_bind_def el_seq_def new_Label_def set_defined_def)
  moreover have "in_scope hash (?s4\<lparr>toplevel_block := w\<rparr>) scope"
    "scope_env hash (?s4\<lparr>toplevel_block := w\<rparr>) scope name = Some ?h"
    using t(2,3) by (simp_all add: in_scope_def scope_env_def)
  ultimately show "\<exists>s' l. elab_label hash name scope b s = Inr ((), s') \<and> in_scope hash s' scope \<and>
      scope_env hash s' scope name = Some (LabelHandle name l)" by blast
qed

section \<open>Properties\<close>

text \<open>
  C11: a function declaration binds the name before the body is elaborated. With primitive types and
  no default values it always reaches its body, with the function found under its name (recursion is
  possible), the type of the parameters registered, a new block whose arguments are numbered from
  0, and the scope of the function as the innermost. Nothing asks the parameters to have different
  names.
\<close>

theorem function_declaration:
  assumes "in_scope hash s scope" and "room s scope" and "free_name hash s scope name"
    and "is_prim t" and "list_all (\<lambda>(name, t). is_prim t) ps" and "length ps < 2 ^ 28"
    and "length (mTypeList (mTypeMgr s)) < 2 ^ 30"
  shows "\<exists>s' p h. reg_func hash name (PrimT t) (params ps) body scope s =
      body (length (mScopeList s)) (FuncBlock (length (mFuncList (toplevel_block s)))) s' \<and>
    in_scope hash s' (length (mScopeList s)) \<and>
    find_in hash scope name s' = Inr (Some h, s') \<and>
    h = FuncHandle name (Some p) 0 (length (mFuncList (toplevel_block s))) \<and>
    mTypeList (mTypeMgr s') ! p = FuncTy (prim_no t) (param_types ps) \<and>
    mFuncList (toplevel_block s') = mFuncList (toplevel_block s) @
      [new_FuncBlock (param_handles 0 ps) (replicate (length ps) None) h]"
proof -
  obtain s' p h where *: "reg_func hash name (PrimT t) (params ps) body scope s =
      body (length (mScopeList s)) (FuncBlock (length (mFuncList (toplevel_block s)))) s'"
    "in_scope hash s' (length (mScopeList s))" "in_scope hash s' scope"
    "h = FuncHandle name (Some p) 0 (length (mFuncList (toplevel_block s)))"
    "scope_env hash s' scope name = Some h"
    "mTypeList (mTypeMgr s') ! p = FuncTy (prim_no t) (param_types ps)"
    "toplevel_block s' = (toplevel_block s)\<lparr>mFuncList := mFuncList (toplevel_block s) @ [entered ps h]\<rparr>"
    using reg_func_run [OF assms, of body] by blast
  show ?thesis
    by (intro exI [of _ s'] exI [of _ p] exI [of _ h]) (use * in \<open>simp add: entered_def\<close>)
qed

text \<open>
  C35: the local variables of a function share their numbers with its arguments: in a function with
  parameters, the first variable its code declares is number 0, as is the first argument.
\<close>

theorem locals_overlap_arguments:
  assumes "in_scope hash s scope" and "room s scope" and "free_name hash s scope name"
    and "is_prim t" and "list_all (\<lambda>(name, t). is_prim t) ps" and "length ps < 2 ^ 28"
    and "length (mTypeList (mTypeMgr s)) < 2 ^ 30" and "is_prim u" and "ps \<noteq> []"
  shows "\<exists>s' f. elab_stmt hash
      (FuncDecl name (PrimT t) (params ps) (BlockStmt [VarDecl x (PrimT u) None])) scope start_label
      end_label b s = Inr ((), s') \<and>
    mFuncList (toplevel_block s') = mFuncList (toplevel_block s) @ [f] \<and>
    mVarList (func_code f) = [LocalVarHandle x (Some (prim_no u)) 0 0] \<and>
    handle_local_index (hd (mArgList f)) = handle_local_index (hd (mVarList (func_code f)))"
proof -
  let ?body = "\<lambda>fs b. elab_stmt hash (BlockStmt [VarDecl x (PrimT u) None]) fs None None b"
  let ?fs = "length (mScopeList s)" and ?F = "mFuncList (toplevel_block s)"
  obtain s1 p h where s1: "reg_func hash name (PrimT t) (params ps) ?body scope s =
      ?body ?fs (FuncBlock (length ?F)) s1" "in_scope hash s1 ?fs"
    "toplevel_block s1 = (toplevel_block s)\<lparr>mFuncList := ?F @ [entered ps h]\<rparr>"
    using reg_func_run [OF assms(1-7), of ?body] by blast
  let ?bs = "length (mScopeList s1)"
  obtain s2 where s2: "open_scope hash (Some ?fs) '''' s1 = Inr (?bs, s2)" "in_scope hash s2 ?bs"
    "s2 = s1\<lparr>mScopeList := mScopeList s2\<rparr>" "scope_items (mScopeList s2 ! ?bs) = []"
    using open_scope_ok [OF s1(2)] by blast
  have top2: "toplevel_block s2 = (toplevel_block s)\<lparr>mFuncList := ?F @ [entered ps h]\<rparr>"
    using arg_cong [OF s2(3), of toplevel_block] s1(3) by simp
  obtain g where glob: "mGlobalScope (mScopeList s2 ! ?bs) = Some g"
    using open_scope_global [OF s1(2) s2(1)] by blast
  let ?v = "LocalVarHandle x (Some (prim_no u)) 0 0"
  let ?f = "(entered ps h)\<lparr>func_code := \<lparr>mVarList = [?v], mNodeList = []\<rparr>\<rparr>"
  let ?s3 = "s2\<lparr>toplevel_block := (toplevel_block s)\<lparr>mFuncList := ?F @ [?f]\<rparr>\<rparr>"
  have tm: "tm_ok (mTypeMgr s2)" using s2(2) by (simp add: in_scope_def)
  have add: "add_local_var (FuncBlock (length ?F)) ?v s2 = Inr ((), ?s3)"
    by (simp add: add_local_var_def on_block_def top2 entered_def new_FuncBlock_def)
  have "in_scope hash ?s3 ?bs" "room ?s3 ?bs"
    using s2(2,4) by (simp_all add: in_scope_def room_def)
  then obtain w where w: "declare_in hash ?bs ?v ?s3 = Inr ((), ?s3\<lparr>mScopeList := w\<rparr>)"
    using declare_in_ok by blast
  have "elab_var hash x (PrimT u) None ?bs (FuncBlock (length ?F)) s2 = Inr ((), ?s3\<lparr>mScopeList := w\<rparr>)"
    using check_name_ok [OF s2(2), of x] free_in_empty [OF s2(2,4)]
      resolve_prim_no [OF tm assms(8)] global_scope_run [OF s2(2)] glob add w
    by (simp add: elab_var_def el_seq_def el_bind_def el_ptr_def next_local_index_def top2
        entered_def new_FuncBlock_def Let_def del: resolve_type.simps)
  then have "?body ?fs (FuncBlock (length ?F)) s1 = Inr ((), ?s3\<lparr>mScopeList := w\<rparr>)"
    using s2(1) by (simp add: el_seq_def el_bind_def)
  then have "elab_stmt hash (FuncDecl name (PrimT t) (params ps) (BlockStmt [VarDecl x (PrimT u) None]))
      scope start_label end_label b s = Inr ((), ?s3\<lparr>mScopeList := w\<rparr>)"
    using s1(1) by (simp only: elab_stmt.simps(12))
  then show ?thesis
    using assms(9) by (cases ps) (auto simp: entered_def new_FuncBlock_def)
qed

text \<open>
  C34: \<^verbatim>\<open>goto\<close> does not work. When a name is new, a \<^verbatim>\<open>goto\<close> and its label in the same scope, in either
  order, run into the uninitialised pointer: the second of the two finds the handle the first one
  made, and does not read the label from it.
\<close>

theorem goto_and_label_fault:
  assumes "in_scope hash s scope" and "room s scope" and "scope_env hash s scope name = None"
    and "block_of b (toplevel_block s) = Inr c"
    and "stmts = [Goto name, LabelStmt name] \<or> stmts = [LabelStmt name, Goto name]"
  shows "elab_stmts hash stmts scope start_label end_label b s = Inl Uninit"
  using assms(5)
proof
  assume "stmts = [Goto name, LabelStmt name]"
  then show ?thesis
    using new_name_run(1) [OF assms(1-4)] known_label_faults(1)
    by (auto simp: el_seq_def el_bind_def)
next
  assume "stmts = [LabelStmt name, Goto name]"
  then show ?thesis
    using new_name_run(2) [OF assms(1-4)] known_label_faults(2)
    by (auto simp: el_seq_def el_bind_def)
qed

section \<open>Witnesses\<close>

lemma demo_room: "room demo_ir 0"
  by (simp add: room_def demo_ir_def demo_scope_def empty_scope_def scope_items_def)

lemma demo_free: "name \<notin> {''x'', ''n''} \<Longrightarrow> free_name (\<lambda>_. 0) demo_ir 0 name"
  by (auto simp: free_name_def hit_def demo_ir_def scope_find_local_def demo_scope_def
      empty_scope_def u_mod_def)

lemma demo_unknown: "name \<notin> {''x'', ''n''} \<Longrightarrow> scope_env (\<lambda>_. 0) demo_ir 0 name = None"
proof -
  assume name: "name \<notin> {''x'', ''n''}"
  have "scope_chain [demo_scope] 0 = [0]"
    by (subst scope_chain.simps) (simp add: demo_scope_def empty_scope_def)
  then show ?thesis
    using demo_free [OF name] by (simp add: scope_env_def demo_ir_def free_name_def)
qed

lemma demo_types: "length (mTypeList (mTypeMgr demo_ir)) < 2 ^ 30"
  by (simp add: demo_tm_ok)

lemma function_declaration_witness:
  "\<exists>s' p h. reg_func (\<lambda>_. 0) ''f'' (PrimT kIntType) (params [(''a'', kIntType), (''a'', kFloatType)])
      (\<lambda>fs b. el_ret ()) 0 demo_ir = Inr ((), s') \<and>
    find_in (\<lambda>_. 0) 0 ''f'' s' = Inr (Some h, s') \<and>
    mFuncList (toplevel_block s') = [new_FuncBlock
      [LocalVarHandle ''a'' (Some 2) 0 0, LocalVarHandle ''a'' (Some 3) 0 1] [None, None] h]"
proof -
  let ?ps = "[(''a'', kIntType), (''a'', kFloatType)]"
  have dup: "list_all (\<lambda>(name, t). is_prim t) ?ps" and int: "is_prim kIntType"
    and len: "length ?ps < 2 ^ 28" and free: "free_name (\<lambda>_. 0) demo_ir 0 ''f''"
    by (simp_all add: is_prim_def demo_free)
  have funs: "mFuncList (toplevel_block demo_ir) = []" by (simp add: demo_ir_def)
  from function_declaration [OF demo_in_scope demo_room free int dup len demo_types, of
      "\<lambda>fs b. el_ret ()"] show ?thesis
    unfolding funs by fastforce
qed

lemma locals_overlap_arguments_witness:
  "\<exists>s' f. elab_stmt (\<lambda>_. 0)
      (FuncDecl ''f'' (PrimT kIntType) (params [(''a'', kIntType)])
        (BlockStmt [VarDecl ''y'' (PrimT kFloatType) None])) 0 None None TopBlock demo_ir = Inr ((), s') \<and>
    mFuncList (toplevel_block s') = mFuncList (toplevel_block demo_ir) @ [f] \<and>
    mVarList (func_code f) = [LocalVarHandle ''y'' (Some (prim_no kFloatType)) 0 0] \<and>
    handle_local_index (hd (mArgList f)) = handle_local_index (hd (mVarList (func_code f)))"
  by (rule locals_overlap_arguments [OF demo_in_scope demo_room _ _ _ _ demo_types])
    (simp_all add: demo_free is_prim_def)

lemma goto_and_label_fault_witness:
  "elab_stmts (\<lambda>_. 0) [LabelStmt ''l'', Goto ''l''] 0 None None TopBlock demo_ir = Inl Uninit"
  by (rule goto_and_label_fault [OF demo_in_scope demo_room demo_unknown,
        of _ _ "top_code (toplevel_block demo_ir)"])
    (simp_all add: block_of_def)

text \<open>
  \<^verbatim>\<open>const m : int = n * 3\<close> binds 15; \<^verbatim>\<open>const m : string = "s"\<close> fails; a constant of a type that is not
  declared is not bound.
\<close>

lemma constant_declaration_witness:
  "(\<exists>s'. reg_const (\<lambda>_. 0) ''m'' (PrimT kIntType) (BinOpE kOpMul (SymbolE ''n'') (IntConstE 3)) 0
      demo_ir = Inr ((), s') \<and> find_in (\<lambda>_. 0) 0 ''m'' s' = Inr (Some (IntConst ''m'' 15), s')) \<and>
   reg_const (\<lambda>_. 0) ''m'' (PrimT kStringType) (StringConstE ''s'') 0 demo_ir = Inl AssertFail \<and>
   reg_const (\<lambda>_. 0) ''m'' (NamedT (SymbolE ''m'')) (IntConstE 3) 0 demo_ir = Inr ((), demo_ir)"
proof -
  let ?e = "BinOpE kOpMul (SymbolE ''n'') (IntConstE 3)" and ?env = "scope_env (\<lambda>_. 0) demo_ir 0"
  have prim: "resolve_type (\<lambda>_. 0) (PrimT k) 0 demo_ir = Inr (Some (prim_no k), demo_ir)" if "is_prim k" for k
    using resolve_prim_no [of demo_ir k] that demo_tm_ok(1) by simp
  have free: "free_name (\<lambda>_. 0) demo_ir 0 ''m''" by (simp add: demo_free)
  have none: "resolve_type (\<lambda>_. 0) (NamedT (SymbolE ''m'')) 0 demo_ir = Inr (None, demo_ir)"
    using demo_in_scope demo_unknown by simp
  have "const_kind ?env ?e = Some kIntType" "ast_eval ?env ?e = Inr (IntV 15)"
    by (simp_all add: demo_env bin_kind_def cmp_op_def int_binop_def c_mul_def i32_of_int_def or_assert_def)
  then have "\<exists>s'. reg_const (\<lambda>_. 0) ''m'' (PrimT kIntType) ?e 0 demo_ir = Inr ((), s') \<and>
      find_in (\<lambda>_. 0) 0 ''m'' s' = Inr (Some (IntConst ''m'' 15), s')"
    using constant_declaration [OF demo_in_scope demo_room prim, of kIntType ?e "''m''"]
      const_kind_plain [OF demo_tm_ok(1), of ?env ?e kIntType] const_expr_safe [of ?env ?e] free
    by (auto simp: Let_def is_prim_def simp del: ast_eval.simps const_kind.simps)
  moreover have "reg_const (\<lambda>_. 0) ''m'' (PrimT kStringType) (StringConstE ''s'') 0 demo_ir = Inl AssertFail"
    using constant_declaration [OF demo_in_scope demo_room prim, of kStringType "StringConstE ''s''" "''m''"] free
    by (simp add: Let_def is_prim_def)
  moreover have "reg_const (\<lambda>_. 0) ''m'' (NamedT (SymbolE ''m'')) (IntConstE 3) 0 demo_ir = Inr ((), demo_ir)"
    using constant_declaration [OF demo_in_scope demo_room none, of "IntConstE 3" "''m''"]
    by (simp add: Let_def)
  ultimately show ?thesis by blast
qed

lemma mixed_constant_fails_witness:
  "\<exists>f. reg_const (\<lambda>_. 0) ''m'' (PrimT kFloatType) (BinOpE kOpAdd (SymbolE ''n'') (FloatConstE f_one))
      0 demo_ir = Inl f"
  using mixed_constant_fails [OF demo_in_scope demo_free, of "''m''" kFloatType kOpAdd
      "SymbolE ''n''" "FloatConstE f_one"]
  by (auto simp: demo_env is_prim_def arith_ops_def)

lemma enum_declaration_witness:
  "\<exists>s' p. reg_enum (\<lambda>_. 0) ''e'' (implicit [''red'', ''green'']) 0 demo_ir = Inr ((), s') \<and>
    mTypeList (mTypeMgr s') ! p = EnumTy ''e'' [(''red'', 0), (''green'', 1)] \<and>
    elab_primary (\<lambda>_. 0) (MemberRefE (SymbolE ''e'') ''green'') 0 s' =
      Inr (Some (IntConst ''green'' 1), s')"
proof -
  let ?names = "[''red'', ''green'']"
  have len: "length ?names < 2 ^ 28" and dist: "distinct ?names"
    and free: "free_name (\<lambda>_. 0) demo_ir 0 ''e''" by (simp_all add: demo_free)
  obtain s' p where *: "reg_enum (\<lambda>_. 0) ''e'' (implicit ?names) 0 demo_ir = Inr ((), s')"
    "mTypeList (mTypeMgr s') ! p = EnumTy ''e'' (zip ?names (numbers 0 (length ?names)))"
    "\<forall>i < length ?names. elab_primary (\<lambda>_. 0) (MemberRefE (SymbolE ''e'') (?names ! i)) 0 s' =
      Inr (Some (IntConst (?names ! i) (of_nat i)), s')"
    using enum_declaration [OF demo_in_scope demo_room free dist len demo_types] by blast
  from *(3) [rule_format, of 1] have "elab_primary (\<lambda>_. 0) (MemberRefE (SymbolE ''e'') ''green'') 0 s' =
      Inr (Some (IntConst ''green'' 1), s')" by (simp del: elab_primary.simps)
  then show ?thesis
    using *(1,2) by (intro exI [of _ s'] exI [of _ p]) (simp del: elab_primary.simps)
qed

lemma enum_values_distinct_witness:
  "\<exists>elems s'. enum_elems (\<lambda>_. 0) (implicit [''red'', ''green'']) 0 [] 0 demo_ir = Inr (Some elems, s') \<and>
    map fst elems = [''red'', ''green''] \<and> distinct (map snd elems)"
proof -
  let ?names = "[''red'', ''green'']"
  have "length (scope_items (mScopeList demo_ir ! 0)) + length ?names < 2 ^ 28"
    by (simp add: demo_ir_def demo_scope_def empty_scope_def scope_items_def)
  from enum_default [OF demo_in_scope this, of 0] obtain elems s' where
    "enum_elems (\<lambda>_. 0) (implicit ?names) 0 [] 0 demo_ir = Inr (Some elems, s')"
    by (simp del: enum_elems.simps) blast
  from this enum_values_distinct [OF this] show ?thesis
    by (intro exI [of _ elems] exI [of _ s']) (simp del: enum_elems.simps)
qed

end
