(* ===== verification/Ir_Flow.thy ===== *)
theory Ir_Flow
  imports Ir_Func
begin

text \<open>
  The control flow the elaborator emits: for statements without \<^verbatim>\<open>goto\<close>, labels and nested functions,
  every label made is placed exactly once and every jump leads to a placed label or to the labels
  of the enclosing loop.
\<close>

section \<open>Nodes and labels emitted\<close>

fun placed_label :: "ir_node option \<Rightarrow> nat list" where
  "placed_label (Some (Label l)) = [l]"
| "placed_label _ = []"

fun target_label :: "ir_node option \<Rightarrow> nat list" where
  "target_label (Some (Jump l)) = [l]"
| "target_label (Some (BranchTrue l _)) = [l]"
| "target_label (Some (BranchFalse l _)) = [l]"
| "target_label _ = []"

definition placed_labels :: "ir_node option list \<Rightarrow> nat list" where
  "placed_labels ns = concat (map placed_label ns)"

definition targets :: "ir_node option list \<Rightarrow> nat list" where
  "targets ns = concat (map target_label ns)"

lemma labels_append [simp]:
  "placed_labels [] = []" "targets [] = []"
  "placed_labels (n # ns) = placed_label n @ placed_labels ns"
  "targets (n # ns) = target_label n @ targets ns"
  "placed_labels (xs @ ys) = placed_labels xs @ placed_labels ys"
  "targets (xs @ ys) = targets xs @ targets ys"
  by (simp_all add: placed_labels_def targets_def)

text \<open>A step appends nodes to a block and makes labels, none of them defined by name.\<close>

definition emit :: "blk \<Rightarrow> ir_node option list \<Rightarrow> nat \<Rightarrow> ir_mgr \<Rightarrow> ir_mgr \<Rightarrow> bool" where
  "emit b ns k s s' \<longleftrightarrow>
     label_defined s' = label_defined s @ replicate k False \<and>
     (\<forall>c. block_of b (toplevel_block s) = Inr c \<longrightarrow>
       (\<exists>c'. block_of b (toplevel_block s') = Inr c' \<and> mNodeList c' = mNodeList c @ ns))"

lemma emit_trans:
  "emit b ns k s t \<Longrightarrow> emit b ns' k' t u \<Longrightarrow> emit b (ns @ ns') (k + k') s u"
  unfolding emit_def by (fastforce simp: replicate_add)

lemma emit_nothing:
  "toplevel_block s' = toplevel_block s \<Longrightarrow> label_defined s' = label_defined s \<Longrightarrow> emit b [] 0 s s'"
  by (simp add: emit_def)

lemma emit_refl [simp]: "emit b [] 0 s s"
  by (simp add: emit_def)

text \<open>What a step of the elaborator emits when it returns.\<close>

definition emits :: "blk \<Rightarrow> 'a elab \<Rightarrow> bool" where
  "emits b m \<longleftrightarrow> (\<forall>s x s'. m s = Inr (x, s') \<longrightarrow> emit b [] 0 s s')"

lemma emitsD: "emits b m \<Longrightarrow> m s = Inr (x, s') \<Longrightarrow> emit b [] 0 s s'"
  by (auto simp: emits_def)

lemma emits_bind: "emits b m \<Longrightarrow> (\<And>x. emits b (f x)) \<Longrightarrow> emits b (el_bind m f)"
  unfolding emits_def using emit_trans [of b "[]" 0 _ _ "[]" 0]
  by (fastforce simp: el_bind_eq_Inr)

lemma emits_simple [simp]:
  "emits b (el_ret x)" "emits b (el_fail e)" "emits b (el_res r)" "emits b (el_read f)"
  "emits b (el_get g)" "emits b (find_in hash scope name)"
  "emits b (check_name hash name scope)" "emits b (global_scope scope)"
  "emits b (open_scope hash parent name)" "emits b (declare_in hash scope h)"
  "emits b (el_types t)" "emits b (new_call func scope args)"
  by (auto simp: emits_def el_get_def find_in_def check_name_def global_scope_def open_scope_def
      declare_in_def el_types_def new_call_def Let_def res_bind_eq_Inr intro!: emit_nothing
      split: option.splits)

lemma emits_some: "emits b m \<Longrightarrow> (\<And>x. emits b (f x)) \<Longrightarrow> emits b (el_some m f)"
  unfolding el_some_def by (rule emits_bind) (auto split: option.split)

lemma emits_ptr: "emits b m \<Longrightarrow> (\<And>x. emits b (f x)) \<Longrightarrow> emits b (el_ptr m f)"
  unfolding el_ptr_def by (rule emits_bind) (auto split: option.split)

lemma emits_seq: "emits b m \<Longrightarrow> emits b k \<Longrightarrow> emits b (el_seq m k)"
  unfolding el_seq_def by (rule emits_bind)

lemma emits_if: "emits b m \<Longrightarrow> emits b k \<Longrightarrow> emits b (if c then m else k)"
  by simp

lemma emits_option: "emits b m \<Longrightarrow> (\<And>x. emits b (f x)) \<Longrightarrow> emits b (case p of None \<Rightarrow> m | Some x \<Rightarrow> f x)"
  by (cases p) simp_all

lemmas emits_intros = emits_bind emits_some emits_ptr emits_seq emits_if emits_option

lemma emits_load [simp]: "emits b (load_of h)" "emits b (type_id_is k p)"
  by (simp_all add: load_of_def type_id_is_def)

lemma emits_ops [simp]: "emits b (uni_op op x)" "emits b (bin_op op x y)" "emits b (tri_op op x y z)"
  by (auto simp: uni_op_def bin_op_def tri_op_def intro!: emits_intros split: prod.split)

lemma emits_member [simp]: "emits b (member_ref hash member h)"
  by (auto simp: member_ref_def intro!: emits_intros split: option.split ir_handle.split)

lemma emits_elab:
  "emits b (elab_expr hash e scope)" "emits b (elab_args hash es scope)"
  "emits b (elab_primary hash e scope)"
proof (induction hash e scope and hash es scope and hash e scope
    rule: elab_expr_elab_args_elab_primary.induct)
qed (simp_all only: elab_expr.simps elab_args.simps elab_primary.simps,
    (assumption | rule emits_simple emits_load emits_ops emits_member | rule emits_intros | blast)+)

lemma emits_resolve: "emits b (resolve_type hash t scope)"
proof (induction t)
  case (PrimT tid)
  then show ?case by (cases tid) (simp_all del: el_run)
qed (auto simp del: el_run intro!: emits_intros emits_elab)

lemmas emits_all [simp] = emits_elab emits_resolve


section \<open>Labels placed and labels jumped to\<close>

text \<open>
  A step places the labels it makes, once each, and the pending ones of \<open>A\<close>; its jumps go to
  the labels it makes or to those of \<open>L\<close>.
\<close>

definition flows :: "blk \<Rightarrow> nat set \<Rightarrow> nat multiset \<Rightarrow> 'a elab \<Rightarrow> bool" where
  "flows b L A m \<longleftrightarrow>
     (\<forall>s x s'. m s = Inr (x, s') \<longrightarrow>
       (\<exists>ns k. emit b ns k s s' \<and>
         mset (placed_labels ns) =
           mset [length (label_defined s)..<length (label_defined s) + k] + A \<and>
         set (targets ns) \<subseteq> L \<union> {length (label_defined s)..<length (label_defined s) + k}))"

lemma flows_emits: "emits b m \<Longrightarrow> flows b L {#} m"
  unfolding flows_def emits_def by (fastforce intro!: exI [of _ "[]"] exI [of _ 0])

lemma emit_length: "emit b ns k s s' \<Longrightarrow> length (label_defined s') = length (label_defined s) + k"
  by (simp add: emit_def)

lemma mset_upt_append:
  "mset [n..<n + k] + mset [n + k..<n + k + k'] = mset [n..<n + (k + k')]"
  by (metis add.assoc le_add1 mset_append upt_add_eq_append)

lemma flows_bind:
  assumes "flows b L A m" and "\<And>s x t. m s = Inr (x, t) \<Longrightarrow> flows b L B (f x)"
  shows "flows b L (A + B) (el_bind m f)"
  unfolding flows_def
proof (intro allI impI)
  fix s :: ir_mgr and x s'
  let ?n = "length (label_defined s)"
  assume "el_bind m f s = Inr (x, s')"
  then obtain y t where t: "m s = Inr (y, t)" "f y t = Inr (x, s')"
    by (auto simp: el_bind_eq_Inr)
  obtain ns k where ns: "emit b ns k s t" "mset (placed_labels ns) = mset [?n..<?n + k] + A"
    "set (targets ns) \<subseteq> L \<union> {?n..<?n + k}"
    using assms(1) t(1) unfolding flows_def by blast
  obtain ms j where ms: "emit b ms j t s'"
    "mset (placed_labels ms) = mset [?n + k..<?n + k + j] + B"
    "set (targets ms) \<subseteq> L \<union> {?n + k..<?n + k + j}"
    using assms(2) [OF t(1)] t(2) emit_length [OF ns(1)] unfolding flows_def by metis
  have "mset (placed_labels (ns @ ms)) = mset [?n..<?n + (k + j)] + (A + B)"
    using ns(2) ms(2) mset_upt_append [of ?n k j] by (simp add: union_ac)
  moreover have "set (targets (ns @ ms)) \<subseteq> L \<union> {?n..<?n + (k + j)}"
    using ns(3) ms(3) by (fastforce simp: subset_iff)
  ultimately show "\<exists>ns k. emit b ns k s s' \<and> mset (placed_labels ns) = mset [?n..<?n + k] + (A + B) \<and>
      set (targets ns) \<subseteq> L \<union> {?n..<?n + k}"
    using emit_trans [OF ns(1) ms(1)] by blast
qed

lemma flows_after:
  assumes "emits b m" and "\<And>s x t. m s = Inr (x, t) \<Longrightarrow> flows b L A (f x)"
  shows "flows b L A (el_bind m f)"
  using flows_bind [OF flows_emits [OF assms(1)] assms(2)] by simp

lemma flows_seq: "flows b L {#} m \<Longrightarrow> flows b L A k \<Longrightarrow> flows b L A (el_seq m k)"
  unfolding el_seq_def using flows_bind [of b L "{#}" m A "\<lambda>_. k"] by simp

lemma flows_new_Label:
  assumes "\<And>l. flows b (insert l L) (add_mset l A) (f l)"
  shows "flows b L A (el_bind new_Label f)"
  unfolding flows_def
proof (intro allI impI)
  fix s :: ir_mgr and x s'
  let ?n = "length (label_defined s)"
  let ?t = "s\<lparr>label_defined := label_defined s @ [False]\<rparr>"
  assume "el_bind new_Label f s = Inr (x, s')"
  then have run: "f ?n ?t = Inr (x, s')" by (simp add: el_bind_def new_Label_def)
  obtain ns k where ns: "emit b ns k ?t s'"
    "mset (placed_labels ns) = mset [Suc ?n..<Suc ?n + k] + add_mset ?n A"
    "set (targets ns) \<subseteq> insert ?n L \<union> {Suc ?n..<Suc ?n + k}"
    using assms [of ?n] run unfolding flows_def by fastforce
  have "emit b ns (Suc k) s s'"
    using ns(1) by (simp add: emit_def)
  moreover have "mset (placed_labels ns) = mset [?n..<?n + Suc k] + A"
    using ns(2) by (simp add: upt_conv_Cons del: upt_Suc)
  moreover have "set (targets ns) \<subseteq> L \<union> {?n..<?n + Suc k}"
    using ns(3) by auto
  ultimately show "\<exists>ns k. emit b ns k s s' \<and> mset (placed_labels ns) = mset [?n..<?n + k] + A \<and>
      set (targets ns) \<subseteq> L \<union> {?n..<?n + k}" by blast
qed

lemma block_set_block:
  "set_block b c t = Inr t' \<Longrightarrow> block_of b t' = Inr c"
  by (cases b) (auto simp: set_block_def block_of_def arr_get_def arr_set_def res_bind_eq_Inr split: if_splits)

lemma add_node_emit:
  "add_node b node s = Inr (x, s') \<Longrightarrow> emit b [node] 0 s s'"
  by (auto simp: add_node_def on_block_def res_bind_eq_Inr emit_def dest!: block_set_block)

lemma emits_add_local_var [simp]: "emits b (add_local_var b h)"
  by (auto simp: emits_def add_local_var_def on_block_def res_bind_eq_Inr emit_def dest!: block_set_block)

lemma flows_add_node:
  assumes "set (target_label node) \<subseteq> L"
  shows "flows b L (mset (placed_label node)) (add_node b node)"
  unfolding flows_def using assms
  by (fastforce dest!: add_node_emit intro!: exI [of _ "[node]"] exI [of _ 0])

lemma flows_jump: "l \<in> L \<Longrightarrow> flows b L {#} (add_node b (Some (Jump l)))"
  using flows_add_node [of "Some (Jump l)" L b] by simp

lemma flows_label: "flows b L {#l#} (add_node b (Some (Label l)))"
  using flows_add_node [of "Some (Label l)" L b] by simp

lemma flows_place:
  assumes "l \<in># A" and "flows b L (A - {#l#}) k"
  shows "flows b L A (el_seq (add_node b (Some (Label l))) k)"
proof -
  have "{#l#} + (A - {#l#}) = A" using assms(1) by simp
  then show ?thesis
    using flows_bind [OF flows_label assms(2), of l] unfolding el_seq_def by simp
qed

lemma el_bind_res:
  "el_bind (el_res (Inr x)) f = f x" "el_bind (el_res (Inl e)) f = el_fail e"
  by (simp_all add: fun_eq_iff el_bind_def)

lemma flows_branch:
  assumes "l \<in> L"
  shows "flows b L {#} (branch_true l cond b)" and "flows b L {#} (branch_false l cond b)"
  using assms flows_add_node [of "Some (BranchTrue l (the cond))" L b]
    flows_add_node [of "Some (BranchFalse l (the cond))" L b]
  by (cases cond; simp add: branch_true_def branch_false_def new_BranchTrue_def new_BranchFalse_def
      not_null_def el_bind_res flows_emits)+


lemma flows_ptr: "emits b m \<Longrightarrow> (\<And>x. flows b L {#} (f x)) \<Longrightarrow> flows b L {#} (el_ptr m f)"
  unfolding el_ptr_def by (rule flows_after) (auto intro: flows_emits split: option.split)

section \<open>Statements\<close>

text \<open>The node of an expression is none of control flow.\<close>

definition quiet :: "ir_node option \<Rightarrow> bool" where
  "quiet n \<longleftrightarrow> placed_label n = [] \<and> target_label n = []"

definition gives_quiet :: "ir_node option elab \<Rightarrow> bool" where
  "gives_quiet m \<longleftrightarrow> (\<forall>s x s'. m s = Inr (x, s') \<longrightarrow> quiet x)"

lemma gives_quiet_some: "(\<And>x. gives_quiet (f x)) \<Longrightarrow> gives_quiet (el_some m f)"
  unfolding gives_quiet_def
  by (fastforce simp: el_some_def el_bind_eq_Inr quiet_def split: option.splits)

lemma gives_quiet_nodes:
  "gives_quiet (load_of h)" "gives_quiet (new_call func scope args)" "gives_quiet (uni_op op x)"
  "gives_quiet (bin_op op x y)" "gives_quiet (tri_op op x y z)"
  by (auto simp: gives_quiet_def quiet_def load_of_def new_Load_def new_call_def uni_op_def bin_op_def
      tri_op_def new_UniOp_def new_BinOp_def new_TriOp_def el_bind_eq_Inr res_bind_eq_Inr res_map_def
      Let_def split: if_splits prod.splits)

lemma elab_expr_quiet: "gives_quiet (elab_expr hash e scope)"
  by (cases e) (simp_all add: gives_quiet_nodes gives_quiet_some del: elab_primary.simps)

lemma flows_node: "quiet n \<Longrightarrow> flows b L {#} (add_node b n)"
  using flows_add_node [of n L b] by (simp add: quiet_def)

lemma flows_expr:
  "flows b L {#} (el_bind (elab_expr hash e scope) (add_node b))"
  by (rule flows_after [OF emits_elab(1)], rule flows_node)
    (use elab_expr_quiet [of hash e scope] in \<open>auto simp: gives_quiet_def\<close>)

lemma flows_new:
  assumes "\<And>n. r = Inr n \<Longrightarrow> quiet (Some n)"
  shows "flows b L {#} (el_bind (el_res r) (\<lambda>n. add_node b (Some n)))"
  using assms by (cases r) (simp_all add: el_bind_res flows_emits flows_node)

lemma flows_simple:
  "flows b L {#} (elab_step opcode hash lhs scope b)"
  "flows b L {#} (elab_assign hash lhs e scope b)"
  "flows b L {#} (elab_inplace opcode hash lhs e scope b)"
  unfolding elab_step_def elab_assign_def elab_inplace_def
  by (intro flows_ptr flows_new emits_all;
      auto simp: new_InplaceUniOp_def new_InplaceBinOp_def new_Store_def not_null_def quiet_def
        split: option.splits)+

lemma flows_return: "flows b L {#} (elab_return hash e scope b)"
  unfolding elab_return_def
  by (rule flows_after) (auto intro: flows_node simp: quiet_def split: option.split)

lemma flows_jump_to: "set_option label \<subseteq> L \<Longrightarrow> flows b L {#} (jump_to label b)"
  by (cases label) (simp_all add: jump_to_def flows_jump flows_emits)


lemma flows_do:
  assumes "\<And>l1 l2 M. {l1, l2} \<subseteq> M \<Longrightarrow> flows b M {#} (body l1 l2)"
  shows "flows b L {#} (elab_do hash e scope b body)"
  unfolding elab_do_def
proof (intro flows_new_Label flows_place)
  fix l1 l2
  let ?M = "insert l2 (insert l1 L)"
  have tail: "flows b ?M {#l2#} (el_seq (branch_true l1 cond b) (add_node b (Some (Label l2))))" for cond
    by (intro flows_seq flows_branch flows_label) simp
  show "flows b ?M (add_mset l2 {#l1#} - {#l1#}) (el_seq (body l1 l2)
      (el_bind (elab_expr hash e scope)
        (\<lambda>cond. el_seq (branch_true l1 cond b) (add_node b (Some (Label l2))))))"
    by (simp, rule flows_seq [OF assms], simp, rule flows_after [OF emits_elab(1)], rule tail)
qed simp

lemma flows_loop_end:
  assumes "{l1, l2} \<subseteq> M" and "flows b M {#} body"
  shows "flows b M {#l2#} (el_seq (branch_false l2 cond b)
    (el_seq body (el_seq (add_node b (Some (Jump l1))) (add_node b (Some (Label l2))))))"
  using assms by (intro flows_seq flows_branch flows_jump flows_label) auto

lemma flows_while:
  assumes "\<And>l1 l2 M. {l1, l2} \<subseteq> M \<Longrightarrow> flows b M {#} (body l1 l2)"
  shows "flows b L {#} (elab_while hash e scope b body)"
  unfolding elab_while_def
proof (intro flows_new_Label flows_place)
  fix l1
  show "flows b (insert l1 L) ({#l1#} - {#l1#}) (el_bind (elab_expr hash e scope) (\<lambda>cond.
      el_bind new_Label (\<lambda>l2. el_seq (branch_false l2 cond b) (el_seq (body l1 l2)
        (el_seq (add_node b (Some (Jump l1))) (add_node b (Some (Label l2))))))))"
    by (intro flows_after [OF emits_elab(1)] flows_new_Label, simp, intro flows_loop_end assms) simp_all
qed simp

lemma flows_for:
  assumes "\<And>sc M. flows b M {#} (ini sc)"
    and "\<And>sc l1 l2 M. {l1, l2} \<subseteq> M \<Longrightarrow> flows b M {#} (next_stmt sc l1 l2)"
    and "\<And>sc l1 l2 M. {l1, l2} \<subseteq> M \<Longrightarrow> flows b M {#} (body sc l1 l2)"
  shows "flows b L {#} (elab_for hash e scope b ini next_stmt body)"
  unfolding elab_for_def
proof (rule flows_after [OF emits_simple(9)], rule flows_seq [OF assms(1)], rule flows_new_Label,
    rule flows_place)
  fix sc l1
  have step: "flows b M {#l2#} (el_seq (branch_false l2 cond b) (el_seq (body sc l1 l2)
      (el_seq (next_stmt sc l1 l2) (el_seq (add_node b (Some (Jump l1))) (add_node b (Some (Label l2)))))))"
    if "{l1, l2} \<subseteq> M" for l2 cond M
    using that by (intro flows_seq flows_branch flows_jump flows_label assms) auto
  show "flows b (insert l1 L) ({#l1#} - {#l1#}) (el_bind new_Label (\<lambda>l2.
      el_bind (elab_expr hash e sc) (\<lambda>cond. el_seq (branch_false l2 cond b) (el_seq (body sc l1 l2)
        (el_seq (next_stmt sc l1 l2) (el_seq (add_node b (Some (Jump l1))) (add_node b (Some (Label l2)))))))))"
    by (intro flows_new_Label flows_after [OF emits_elab(1)], simp, intro step) simp
qed simp

lemma flows_if:
  assumes "\<And>M. L \<subseteq> M \<Longrightarrow> flows b M {#} then_stmt"
    and "\<And>M st. else_stmt = Some st \<Longrightarrow> L \<subseteq> M \<Longrightarrow> flows b M {#} st"
  shows "flows b L {#} (elab_if hash e scope b then_stmt else_stmt)"
proof -
  have "flows b M {#l1, l2#} (el_seq (branch_false l1 cond b) (el_seq then_stmt
      (el_seq (add_node b (Some (Jump l2))) (el_seq (add_node b (Some (Label l1)))
        (el_seq (case else_stmt of None \<Rightarrow> el_fail NullDeref | Some st \<Rightarrow> st)
          (add_node b (Some (Label l2))))))))"
    if "insert l1 (insert l2 L) \<subseteq> M" for l1 l2 M cond
  proof -
    have l: "l1 \<in> M" "l2 \<in> M" "L \<subseteq> M" using that by auto
    have "flows b M {#} (case else_stmt of None \<Rightarrow> el_fail NullDeref | Some st \<Rightarrow> st)"
      using l(3) assms(2) by (auto intro: flows_emits split: option.split)
    then have "flows b M {#l2#} (el_seq (case else_stmt of None \<Rightarrow> el_fail NullDeref | Some st \<Rightarrow> st)
        (add_node b (Some (Label l2))))"
      by (rule flows_seq) (rule flows_label)
    then have "flows b M {#l1, l2#} (el_seq (add_node b (Some (Label l1)))
        (el_seq (case else_stmt of None \<Rightarrow> el_fail NullDeref | Some st \<Rightarrow> st)
          (add_node b (Some (Label l2)))))"
      by (intro flows_place) simp_all
    then show ?thesis
      by (rule flows_seq [OF flows_branch(2) [OF l(1)], OF flows_seq [OF assms(1) [OF l(3)],
          OF flows_seq [OF flows_jump [OF l(2)]]]])
  qed
  note both = this
  show ?thesis
    unfolding elab_if_def
  proof (rule flows_after [OF emits_elab(1)], rule flows_new_Label, rule flows_new_Label)
    fix cond l1 l2
    show "flows b (insert l2 (insert l1 L)) {#l2, l1#} (el_seq (branch_false l1 cond b)
        (el_seq then_stmt (el_seq (add_node b (Some (Jump l2))) (el_seq (add_node b (Some (Label l1)))
          (el_seq (case else_stmt of None \<Rightarrow> el_fail NullDeref | Some st \<Rightarrow> st)
            (add_node b (Some (Label l2))))))))"
      using both [of l1 l2 "insert l2 (insert l1 L)" cond]
      by (simp add: add_mset_commute subset_insertI2)
  qed
qed

text \<open>Declarations append nothing but the initialisation of a variable.\<close>

lemma emits_const: "emits b (reg_const hash name ast_type e scope)"
proof -
  have "emits b (const_handle nm node)" for nm node
    unfolding const_handle_def
    by (rule emits_bind) (auto split: type_id.split)
  then show ?thesis
    unfolding reg_const_def
    by (intro emits_bind emits_if emits_ptr) auto
qed

lemma emits_enum_elems: "emits b (enum_elems hash ecs scope used v)"
proof (induction ecs arbitrary: used v)
  case Nil
  show ?case unfolding enum_elems.simps by (rule emits_simple)
next
  case (Cons ec ecs)
  obtain name e where "ec = (name, e)" by force
  then show ?case
    by (cases e; simp only: enum_elems.simps)
      (rule Cons.IH | rule emits_simple emits_elab | rule emits_if emits_bind emits_some emits_seq)+
qed

lemma emits_enum: "emits b (reg_enum hash name enums scope)"
  unfolding reg_enum_def
  by (intro emits_bind emits_if emits_ptr emits_simple emits_enum_elems)

lemma emits_modify_globals:
  "emits b (add_global_var h)"
  by (cases b) (auto simp: emits_def add_global_var_def el_seq_def el_bind_eq_Inr el_modify_def
      emit_def block_of_def res_bind_eq_Inr)

lemma emits_next_local: "emits b (next_local_index b')"
  by (auto simp: emits_def next_local_index_def res_bind_eq_Inr)

lemma flows_cond: "flows b L A m \<Longrightarrow> flows b L A k \<Longrightarrow> flows b L A (if c then m else k)"
  by simp

lemma flows_var: "flows b L {#} (elab_var hash name ast_type e scope b)"
proof -
  have init: "flows b L {#} (case e of None \<Rightarrow> el_ret ()
      | Some e \<Rightarrow> el_ptr (elab_expr hash e scope) (\<lambda>rhs.
          el_bind (el_res (new_Store (Some h) (Some rhs))) (\<lambda>node. add_node b (Some node))))" for h
  proof (cases e)
    case (Some e)
    have "flows b L {#} (el_ptr (elab_expr hash e scope) (\<lambda>rhs.
        el_bind (el_res (new_Store (Some h) (Some rhs))) (\<lambda>node. add_node b (Some node))))"
      by (intro flows_ptr emits_elab flows_new) (auto simp: new_Store_def not_null_def quiet_def)
    with Some show ?thesis by simp
  qed (simp add: flows_emits)
  have handle: "emits b (if global = None then
      el_bind (el_get (\<lambda>s. length (mGlobalVarList (toplevel_block s)))) (\<lambda>i.
        el_seq (add_global_var (GlobalVarHandle name (Some t) 0 i))
          (el_ret (GlobalVarHandle name (Some t) 0 i)))
      else el_bind (next_local_index b) (\<lambda>i.
        el_seq (add_local_var b (LocalVarHandle name (Some t) 0 i))
          (el_ret (LocalVarHandle name (Some t) 0 i))))" for global t
    by (intro emits_if emits_bind emits_seq emits_simple emits_modify_globals emits_next_local
        emits_add_local_var)
  show ?thesis
    unfolding elab_var_def next_global_index_def Let_def
    by (rule flows_after [OF emits_simple(7)], rule flows_cond [OF flows_emits [OF emits_simple(1)]],
        rule flows_ptr [OF emits_resolve], rule flows_after [OF emits_simple(8)],
        rule flows_after [OF handle], rule flows_seq [OF flows_emits [OF emits_simple(10)]], rule init)
qed

section \<open>Structured statements\<close>

text \<open>No \<^verbatim>\<open>goto\<close> and label, and no function inside.\<close>

fun structured :: "ast_stmt \<Rightarrow> bool" where
  "structured (BlockStmt sts) = list_all structured sts"
| "structured (DoWhile body e) = structured body"
| "structured (For ini e next_stmt body) = (structured ini \<and> structured next_stmt \<and> structured body)"
| "structured (If e then_stmt else_stmt) =
     (structured then_stmt \<and> (case else_stmt of None \<Rightarrow> True | Some st \<Rightarrow> structured st))"
| "structured (Switch e cases) = list_all (\<lambda>(_, st). structured st) cases"
| "structured (While e body) = structured body"
| "structured (FuncDecl _ _ _ _) = False"
| "structured (Goto _) = False"
| "structured (LabelStmt _) = False"
| "structured _ = True"

lemma flows_stmts:
  "structured st \<Longrightarrow> set_option start_label \<union> set_option end_label \<subseteq> L \<Longrightarrow>
    flows b L {#} (elab_stmt hash st scope start_label end_label b)"
  "list_all structured sts \<Longrightarrow> set_option start_label \<union> set_option end_label \<subseteq> L \<Longrightarrow>
    flows b L {#} (elab_stmts hash sts scope start_label end_label b)"
  "list_all (\<lambda>(_, st). structured st) cs \<Longrightarrow> set_option start_label \<union> set_option end_label \<subseteq> L \<Longrightarrow>
    flows b L {#} (elab_cases hash cs scope start_label end_label b)"
proof (induction hash st scope start_label end_label b and hash sts scope start_label end_label b
    and hash cs scope start_label end_label b arbitrary: L and L and L
    rule: elab_stmt_elab_stmts_elab_cases.induct)
  case (1 hash stmts scope start_label end_label b)
  then show ?case unfolding elab_stmt.simps by (intro flows_after emits_simple) simp
next
  case (6 hash body e scope start_label end_label b)
  then show ?case unfolding elab_stmt.simps by (intro flows_do) simp
next
  case (11 hash ini e next_stmt body scope start_label end_label b)
  then show ?case unfolding elab_stmt.simps by (intro flows_for) simp_all
next
  case (14 hash e then_stmt else_stmt scope start_label end_label b)
  show ?case unfolding elab_stmt.simps
  proof (rule flows_if)
    fix M
    assume "L \<subseteq> M"
    then show "flows b M {#} (elab_stmt hash then_stmt scope start_label end_label b)"
      by (intro 14(1)) (use 14(3,4) in auto)
  next
    fix M st
    assume "L \<subseteq> M" and "(case else_stmt of None \<Rightarrow> None
      | Some st \<Rightarrow> Some (elab_stmt hash st scope start_label end_label b)) = Some st"
    then show "flows b M {#} st"
      using 14(3,4) by (auto split: option.splits intro!: 14(2))
  qed
next
  case (20 hash e cases scope start_label end_label b)
  then show ?case unfolding elab_stmt.simps by (intro flows_after emits_all) simp
next
  case (23 hash e body scope start_label end_label b)
  then show ?case unfolding elab_stmt.simps by (intro flows_while) simp
next
  case (25 hash st sts scope start_label end_label b)
  then show ?case unfolding elab_stmts.simps by (intro flows_seq) simp_all
next
  case (27 hash c st cs scope start_label end_label b)
  then show ?case unfolding elab_cases.simps by (intro flows_seq) simp_all
qed (simp_all only: elab_stmt.simps elab_stmts.simps elab_cases.simps structured.simps,
    auto intro!: flows_emits emits_const emits_enum flows_simple flows_expr flows_return
      flows_jump_to flows_var)

end
