(* ===== verification/Ir_Total.thy ===== *)
theory Ir_Total
  imports Ir_Flow
begin

text \<open>
  Structured statements without declarations: which of them the elaborator accepts, where it fails
  on the others, and the code it gives for those it accepts.
\<close>

section \<open>What elaboration keeps\<close>

lemma scope_chain_prefix:
  assumes "take (length xs) ys = xs" and "i < length xs"
  shows "scope_chain ys i = scope_chain xs i"
  using assms(2)
proof (induction i rule: less_induct)
  case (less i)
  have "ys ! i = xs ! i" using assms(1) less.prems by (metis nth_take)
  then show ?case
    using less by (subst (1 2) scope_chain.simps) (simp split: option.split)
qed

lemma scope_chain_le:
  assumes "scopes_ok hash nm xs" and "i < length xs"
  shows "j \<in> set (scope_chain xs i) \<Longrightarrow> j \<le> i"
  using assms(2)
proof (induction i arbitrary: j rule: less_induct)
  case (less i)
  have j: "j = i \<or> (\<exists>g. mGlobalScope (xs ! i) = Some g \<and> j = g) \<or> (\<exists>p<i. j \<in> set (scope_chain xs p))"
    using less.prems(1) by (subst (asm) scope_chain.simps) (auto split: option.splits if_splits)
  then show ?case
    using less.IH less.prems(2) scopes_okD(3) [OF assms(1) less.prems(2)] by fastforce
qed

lemma take_all_length: "take (length xs) ys = xs \<Longrightarrow> length xs \<le> length ys"
  using length_take [of "length xs" ys] by simp

lemma first_hit_eq: "(\<And>x. x \<in> set xs \<Longrightarrow> f x = g x) \<Longrightarrow> first_hit f xs = first_hit g xs"
  by (induction xs) (auto split: option.split)

text \<open>What is seen from a scope: the types, the names, and that there is a block to write to.\<close>

definition view :: "(string \<Rightarrow> u32) \<Rightarrow> type_mgr \<Rightarrow> blk \<Rightarrow> nat \<Rightarrow> env \<Rightarrow> ir_mgr \<Rightarrow> bool" where
  "view hash m b scope env s \<longleftrightarrow>
     in_scope hash s scope \<and> mTypeMgr s = m \<and> scope_env hash s scope = env \<and>
     (\<exists>c. block_of b (toplevel_block s) = Inr c)"

definition keeps :: "(string \<Rightarrow> u32) \<Rightarrow> blk \<Rightarrow> ir_mgr \<Rightarrow> ir_mgr \<Rightarrow> bool" where
  "keeps hash b s s' \<longleftrightarrow>
     mTypeMgr s' = mTypeMgr s \<and> take (length (mScopeList s)) (mScopeList s') = mScopeList s \<and>
     scopes_ok hash handle_name (mScopeList s') \<and> (\<exists>c. block_of b (toplevel_block s') = Inr c)"

lemma keeps_env:
  assumes "take (length (mScopeList s)) (mScopeList s') = mScopeList s" and "in_scope hash s scope"
  shows "scope_env hash s' scope = scope_env hash s scope"
proof
  fix name
  have ok: "scopes_ok hash handle_name (mScopeList s)" "scope < length (mScopeList s)"
    using assms(2) by (simp_all add: in_scope_def)
  have "mScopeList s' ! i = mScopeList s ! i" if "i \<in> set (scope_chain (mScopeList s) scope)" for i
    using assms(1) ok(2) scope_chain_le [OF ok that] by (metis le_less_trans nth_take)
  then show "scope_env hash s' scope name = scope_env hash s scope name"
    unfolding scope_env_def scope_chain_prefix [OF assms(1) ok(2)] by (intro first_hit_eq) simp
qed

lemma keeps_view:
  assumes "view hash m b scope env s" and "keeps hash b s s'"
  shows "view hash m b scope env s'"
proof -
  have "length (mScopeList s) \<le> length (mScopeList s')"
    using assms(2) by (simp add: keeps_def take_all_length)
  then show ?thesis
    using assms keeps_env [of s s' hash scope] by (auto simp: view_def keeps_def in_scope_def)
qed

lemma keeps_trans: "keeps hash b s t \<Longrightarrow> keeps hash b t u \<Longrightarrow> keeps hash b s u"
proof -
  assume st: "keeps hash b s t" and tu: "keeps hash b t u"
  have "length (mScopeList s) \<le> length (mScopeList t)"
    using st by (simp add: keeps_def take_all_length)
  moreover have "take (length (mScopeList s)) (take (length (mScopeList t)) (mScopeList u)) = mScopeList s"
    using st tu by (simp add: keeps_def)
  ultimately have "take (length (mScopeList s)) (mScopeList u) = mScopeList s"
    by (simp add: min_def split: if_splits)
  with st tu show "keeps hash b s u" by (simp add: keeps_def)
qed

section \<open>Outcomes of steps\<close>

text \<open>
  A step either returns from every state that looks like \<open>env\<close>, keeping what is seen, or ends in one
  and the same fault from all of them.
\<close>

definition outcome ::
  "(string \<Rightarrow> u32) \<Rightarrow> type_mgr \<Rightarrow> blk \<Rightarrow> nat \<Rightarrow> env \<Rightarrow> fault option \<Rightarrow> unit elab \<Rightarrow> bool" where
  "outcome hash m b scope env out f \<longleftrightarrow>
     (\<forall>s. view hash m b scope env s \<longrightarrow>
       (case out of
          None \<Rightarrow> \<exists>s'. f s = Inr ((), s') \<and> keeps hash b s s'
        | Some e \<Rightarrow> f s = Inl e))"

text \<open>The first fault of two steps, and of all steps of a list.\<close>

fun or_else :: "fault option \<Rightarrow> fault option \<Rightarrow> fault option" where
  "or_else None g = g"
| "or_else (Some e) g = Some e"

lemma or_else_None [simp]: "or_else f None = f"
  by (cases f) simp_all

lemma view_keeps_refl: "view hash m b scope env s \<Longrightarrow> keeps hash b s s"
  by (simp add: view_def keeps_def in_scope_def)

lemma outcome_ret: "outcome hash m b scope env None (el_ret ())"
  by (auto simp: outcome_def intro: view_keeps_refl)

lemma outcome_fail: "outcome hash m b scope env (Some e) (el_fail e)"
  by (simp add: outcome_def)

lemma outcome_seq:
  assumes "outcome hash m b scope env o1 f" and "outcome hash m b scope env o2 g"
  shows "outcome hash m b scope env (or_else o1 o2) (el_seq f g)"
proof (cases o1)
  case (Some e)
  then show ?thesis using assms(1) by (simp add: outcome_def el_seq_def)
next
  case None
  show ?thesis
    unfolding outcome_def
  proof (intro allI impI)
    fix s
    assume v: "view hash m b scope env s"
    obtain t where t: "f s = Inr ((), t)" "keeps hash b s t"
      using assms(1) v None unfolding outcome_def by auto
    then have "el_seq f g s = g t" by (simp add: el_seq_def)
    then show "case or_else o1 o2 of None \<Rightarrow> \<exists>s'. el_seq f g s = Inr ((), s') \<and> keeps hash b s s'
        | Some e \<Rightarrow> el_seq f g s = Inl e"
      using assms(2) keeps_view [OF v t(2)] keeps_trans [OF t(2)] None
      by (fastforce simp: outcome_def split: option.splits)
  qed
qed

text \<open>A step that makes something the state did not have, and goes on from there.\<close>

lemma outcome_after:
  assumes "\<And>s. view hash m b scope env s \<Longrightarrow>
      \<exists>x t. f s = Inr (x, t) \<and> keeps hash b s t \<and> view hash m b (sc x) env t"
    and "\<And>x. outcome hash m b (sc x) env out (g x)"
  shows "outcome hash m b scope env out (el_bind f g)"
  unfolding outcome_def
proof (intro allI impI)
  fix s
  assume "view hash m b scope env s"
  from assms(1) [OF this] obtain x t where t: "f s = Inr (x, t)" "keeps hash b s t"
    "view hash m b (sc x) env t" by blast
  then have "el_bind f g s = g x t" by simp
  then show "case out of None \<Rightarrow> \<exists>s'. el_bind f g s = Inr ((), s') \<and> keeps hash b s s'
      | Some e \<Rightarrow> el_bind f g s = Inl e"
    using assms(2) [of x] t(3) keeps_trans [OF t(2)]
    by (fastforce simp: outcome_def split: option.splits)
qed

lemma outcome_new_Label:
  assumes "\<And>l. outcome hash m b scope env out (f l)"
  shows "outcome hash m b scope env out (el_bind new_Label f)"
proof (rule outcome_after [where sc = "\<lambda>_. scope"])
  fix s
  assume v: "view hash m b scope env s"
  let ?t = "s\<lparr>label_defined := label_defined s @ [False]\<rparr>"
  have k: "keeps hash b s ?t" using v by (simp add: view_def keeps_def in_scope_def)
  then show "\<exists>x t. new_Label s = Inr (x, t) \<and> keeps hash b s t \<and> view hash m b scope env t"
    using keeps_view [OF v k] by (simp add: new_Label_def)
qed (rule assms)

lemma outcome_add_node: "outcome hash m b scope env None (add_node b node)"
  unfolding outcome_def option.case
proof (intro allI impI)
  fix s
  assume v: "view hash m b scope env s"
  then obtain c where "block_of b (toplevel_block s) = Inr c" by (auto simp: view_def)
  from add_node_ok [OF this, of node] v
  show "\<exists>s'. add_node b node s = Inr ((), s') \<and> keeps hash b s s'"
    by (auto simp: view_def keeps_def in_scope_def)
qed

lemma outcome_open_scope:
  assumes "\<And>p. outcome hash m b p env out (f p)"
  shows "outcome hash m b scope env out (el_bind (open_scope hash (Some scope) name) f)"
proof (rule outcome_after [where sc = "\<lambda>p. p"])
  fix s
  assume v: "view hash m b scope env s"
  then have in_s: "in_scope hash s scope" by (simp add: view_def)
  let ?p = "length (mScopeList s)"
  obtain w where w: "new_scope hash handle_name (Some scope) name (mScopeList s) = Inr (?p, w)"
    "scopes_ok hash handle_name w" "take ?p w = mScopeList s" "scope_items (w ! ?p) = []"
    "length w = Suc ?p" "scope_chain w ?p = ?p # scope_chain w scope"
    using new_scope_inv [of hash handle_name "mScopeList s" "Some scope" name] in_s
    by (auto simp: in_scope_def)
  let ?t = "s\<lparr>mScopeList := w\<rparr>"
  have k: "keeps hash b s ?t" using v w(2,3) by (simp add: view_def keeps_def)
  have in_t: "in_scope hash ?t ?p" using in_s w(2,5) by (simp add: in_scope_def)
  have "hit hash handle_name nm (w ! ?p) = None" for nm
    using scope_find_local_ok [OF scopes_okD(1) [OF w(2), of ?p], of nm] w(4,5)
    by (auto simp: hit_def split: option.splits)
  then have "scope_env hash ?t ?p = scope_env hash ?t scope"
    by (simp add: scope_env_def w(6) fun_eq_iff)
  then have "view hash m b ?p env ?t"
    using keeps_view [OF v k] in_t by (simp add: view_def)
  with k w(1) show "\<exists>x t. open_scope hash (Some scope) name s = Inr (x, t) \<and> keeps hash b s t \<and>
      view hash m b x env t"
    by (simp add: open_scope_def)
qed (rule assms)

section \<open>What fails\<close>

text \<open>
  The fault of an expression, and of a condition, whose node must not be \<^verbatim>\<open>NULL\<close> when its branch is
  made.
\<close>

definition expr_fault :: "type_mgr \<Rightarrow> env \<Rightarrow> ast_expr \<Rightarrow> fault option" where
  "expr_fault m env e = (if crashes m env e then Some NullDeref else None)"

definition cond_fault :: "type_mgr \<Rightarrow> env \<Rightarrow> ast_expr \<Rightarrow> fault option" where
  "cond_fault m env e =
     (if crashes m env e then Some NullDeref else if expr_type m env e = None then Some AssertFail else None)"

text \<open>An assigned value is elaborated first; without a node for it the place is not looked at.\<close>

definition assign_fault :: "type_mgr \<Rightarrow> env \<Rightarrow> ast_expr \<Rightarrow> ast_expr \<Rightarrow> fault option" where
  "assign_fault m env lhs e =
     or_else (expr_fault m env e) (if expr_type m env e = None then None else expr_fault m env lhs)"

text \<open>
  The statements the theorem is about: all but declarations, imports, \<^verbatim>\<open>goto\<close> and labels, over
  expressions the elaborator decides, with names and array references as places.
\<close>

definition place_expr :: "type_mgr \<Rightarrow> env \<Rightarrow> ast_expr \<Rightarrow> bool" where
  "place_expr m env e \<longleftrightarrow> is_primary e \<and> plain m env e"

fun plain_stmt :: "type_mgr \<Rightarrow> env \<Rightarrow> ast_stmt \<Rightarrow> bool" where
  "plain_stmt m env (BlockStmt sts) = list_all (plain_stmt m env) sts"
| "plain_stmt m env Break = True"
| "plain_stmt m env Continue = True"
| "plain_stmt m env NullStmt = True"
| "plain_stmt m env (Incr lhs) = place_expr m env lhs"
| "plain_stmt m env (Decr lhs) = place_expr m env lhs"
| "plain_stmt m env (Assignment lhs e) = (place_expr m env lhs \<and> plain m env e)"
| "plain_stmt m env (InplaceOp opcode lhs e) = (place_expr m env lhs \<and> plain m env e)"
| "plain_stmt m env (ExprStmt e) = plain m env e"
| "plain_stmt m env (ReturnStmt e) = (case e of None \<Rightarrow> True | Some e \<Rightarrow> plain m env e)"
| "plain_stmt m env (DoWhile body e) = (plain_stmt m env body \<and> plain m env e)"
| "plain_stmt m env (While e body) = (plain_stmt m env body \<and> plain m env e)"
| "plain_stmt m env (For ini e next_stmt body) =
     (plain_stmt m env ini \<and> plain m env e \<and> plain_stmt m env next_stmt \<and> plain_stmt m env body)"
| "plain_stmt m env (If e then_stmt else_stmt) =
     (plain m env e \<and> plain_stmt m env then_stmt \<and>
      (case else_stmt of None \<Rightarrow> True | Some st \<Rightarrow> plain_stmt m env st))"
| "plain_stmt m env (Switch e cases) = (plain m env e \<and> list_all (\<lambda>(_, st). plain_stmt m env st) cases)"
| "plain_stmt m env _ = False"

text \<open>
  The first fault of such a statement, in the order of elaboration. The missing \<^verbatim>\<open>else\<close> of an \<^verbatim>\<open>if\<close> is
  a null pointer.
\<close>

lemma first_hit_cong [fundef_cong]:
  "xs = ys \<Longrightarrow> (\<And>x. x \<in> set ys \<Longrightarrow> f x = g x) \<Longrightarrow> first_hit f xs = first_hit g ys"
  by hypsubst (rule first_hit_eq)

fun stmt_fault :: "type_mgr \<Rightarrow> env \<Rightarrow> ast_stmt \<Rightarrow> fault option" where
  "stmt_fault m env (BlockStmt sts) = first_hit (stmt_fault m env) sts"
| "stmt_fault m env (Incr lhs) = expr_fault m env lhs"
| "stmt_fault m env (Decr lhs) = expr_fault m env lhs"
| "stmt_fault m env (Assignment lhs e) = assign_fault m env lhs e"
| "stmt_fault m env (InplaceOp opcode lhs e) = assign_fault m env lhs e"
| "stmt_fault m env (ExprStmt e) = expr_fault m env e"
| "stmt_fault m env (ReturnStmt e) = (case e of None \<Rightarrow> None | Some e \<Rightarrow> expr_fault m env e)"
| "stmt_fault m env (DoWhile body e) = or_else (stmt_fault m env body) (cond_fault m env e)"
| "stmt_fault m env (While e body) = or_else (cond_fault m env e) (stmt_fault m env body)"
| "stmt_fault m env (For ini e next_stmt body) =
     or_else (stmt_fault m env ini) (or_else (cond_fault m env e)
       (or_else (stmt_fault m env body) (stmt_fault m env next_stmt)))"
| "stmt_fault m env (If e then_stmt else_stmt) =
     or_else (cond_fault m env e) (or_else (stmt_fault m env then_stmt)
       (case else_stmt of None \<Rightarrow> Some NullDeref | Some st \<Rightarrow> stmt_fault m env st))"
| "stmt_fault m env (Switch e cases) =
     or_else (expr_fault m env e) (first_hit (\<lambda>(_, st). stmt_fault m env st) cases)"
| "stmt_fault m env _ = None"

lemma plain_structured: "plain_stmt m env st \<Longrightarrow> structured st"
proof (induction st)
  case (Switch e cases)
  then show ?case by (fastforce simp: list_all_iff split: prod.splits)
qed (auto simp: list_all_iff split: option.splits)

section \<open>Outcomes of statements\<close>

lemma outcome_expr:
  assumes "plain m env e"
    and "\<And>r. \<not> crashes m env e \<Longrightarrow> r = None \<longleftrightarrow> expr_type m env e = None \<Longrightarrow> outcome hash m b scope env out (f r)"
  shows "outcome hash m b scope env (or_else (expr_fault m env e) out) (el_bind (elab_expr hash e scope) f)"
proof (cases "crashes m env e")
  case True
  then show ?thesis
    using elab_expr_crashes(1) [of hash _ scope e] assms(1)
    by (auto simp: outcome_def view_def expr_fault_def)
next
  case False
  have "outcome hash m b scope env out (el_bind (elab_expr hash e scope) f)"
    unfolding outcome_def
  proof (intro allI impI)
    fix s
    assume v: "view hash m b scope env s"
    obtain r where r: "elab_expr hash e scope s = Inr (r, s)" "node_ok m env e r"
      using elab_expr_types [of hash s scope e] assms(1) v False by (auto simp: view_def)
    then have "r = None \<longleftrightarrow> expr_type m env e = None"
      by (auto simp: node_ok_def split: option.splits)
    note run = assms(2) [OF False this]
    have "el_bind (elab_expr hash e scope) f s = f r s" using r(1) by simp
    then show "case out of None \<Rightarrow> \<exists>s'. el_bind (elab_expr hash e scope) f s = Inr ((), s') \<and> keeps hash b s s'
        | Some e' \<Rightarrow> el_bind (elab_expr hash e scope) f s = Inl e'"
      using run v by (cases out) (simp_all add: outcome_def)
  qed
  with False show ?thesis by (simp add: expr_fault_def)
qed

text \<open>A condition: the statement goes on with a node, or fails at the branch.\<close>

lemma outcome_cond:
  assumes "plain m env e" and "\<And>n. outcome hash m b scope env out (f (Some n))"
    and "outcome hash m b scope env (Some AssertFail) (f None)"
  shows "outcome hash m b scope env (or_else (cond_fault m env e) out) (el_bind (elab_expr hash e scope) f)"
proof -
  let ?out = "if expr_type m env e = None then Some AssertFail else out"
  have "outcome hash m b scope env ?out (f r)" if "r = None \<longleftrightarrow> expr_type m env e = None" for r
    using that assms(2,3) by (cases r) auto
  then have "outcome hash m b scope env (or_else (expr_fault m env e) ?out) (el_bind (elab_expr hash e scope) f)"
    by (intro outcome_expr [OF assms(1)])
  then show ?thesis by (cases "crashes m env e") (auto simp: cond_fault_def expr_fault_def)
qed

lemma outcome_expr_ptr:
  assumes "plain m env e" and "\<And>x. outcome hash m b scope env out (f x)"
  shows "outcome hash m b scope env
    (or_else (expr_fault m env e) (if expr_type m env e = None then None else out))
    (el_ptr (elab_expr hash e scope) f)"
  unfolding el_ptr_def
proof (rule outcome_expr [OF assms(1)])
  fix r :: "ir_node option"
  assume "r = None \<longleftrightarrow> expr_type m env e = None"
  then show "outcome hash m b scope env (if expr_type m env e = None then None else out)
      (case r of None \<Rightarrow> el_ret () | Some x \<Rightarrow> f x)"
    using assms(2) outcome_ret by (cases r) auto
qed

lemma outcome_place:
  assumes "place_expr m env e" and "\<And>x. outcome hash m b scope env None (f x)"
  shows "outcome hash m b scope env (expr_fault m env e) (el_ptr (elab_primary hash e scope) f)"
proof (cases "crashes m env e")
  case True
  then show ?thesis
    using elab_expr_crashes(2) [of hash _ scope e] assms(1)
    by (auto simp: outcome_def view_def expr_fault_def place_expr_def el_ptr_def)
next
  case False
  have e: "is_primary e" "plain m env e" using assms(1) by (simp_all add: place_expr_def)
  have "outcome hash m b scope env None (el_ptr (elab_primary hash e scope) f)"
    unfolding outcome_def option.case
  proof (intro allI impI)
    fix s
    assume v: "view hash m b scope env s"
    obtain r where "elab_expr hash e scope s = Inr (r, s)"
      using elab_expr_types [of hash s scope e] e(2) v False by (auto simp: view_def)
    then obtain h where h: "elab_primary hash e scope s = Inr (h, s)"
      using primary_of [OF e(1)] by (cases r) fastforce+
    have "outcome hash m b scope env None (case h of None \<Rightarrow> el_ret () | Some x \<Rightarrow> f x)"
      using assms(2) outcome_ret by (cases h) auto
    with v h show "\<exists>s'. el_ptr (elab_primary hash e scope) f s = Inr ((), s') \<and> keeps hash b s s'"
      by (simp add: outcome_def el_ptr_def)
  qed
  with False show ?thesis by (simp add: expr_fault_def)
qed

lemma outcome_branch:
  "outcome hash m b scope env None (branch_true l (Some n) b)"
  "outcome hash m b scope env None (branch_false l (Some n) b)"
  "outcome hash m b scope env (Some AssertFail) (branch_true l None b)"
  "outcome hash m b scope env (Some AssertFail) (branch_false l None b)"
  by (simp_all add: branch_true_def branch_false_def new_BranchTrue_def new_BranchFalse_def not_null_def
      el_bind_res outcome_add_node outcome_fail)

lemma outcome_step:
  "place_expr m env lhs \<Longrightarrow>
    outcome hash m b scope env (expr_fault m env lhs) (elab_step opcode hash lhs scope b)"
  unfolding elab_step_def
  by (intro outcome_place; simp add: new_InplaceUniOp_def not_null_def el_bind_res outcome_add_node)

lemma outcome_assign:
  assumes "place_expr m env lhs" and "plain m env e"
  shows "outcome hash m b scope env (assign_fault m env lhs e) (elab_assign hash lhs e scope b)"
    and "outcome hash m b scope env (assign_fault m env lhs e) (elab_inplace opcode hash lhs e scope b)"
  unfolding elab_assign_def elab_inplace_def assign_fault_def
  by (intro outcome_expr_ptr outcome_place assms;
      simp add: new_InplaceBinOp_def new_Store_def not_null_def el_bind_res outcome_add_node)+

lemma outcome_jump_to: "outcome hash m b scope env None (jump_to l b)"
  by (cases l) (simp_all add: jump_to_def outcome_ret outcome_add_node)

lemma outcome_quiet_expr:
  assumes "plain m env e" and "\<And>r. outcome hash m b scope env out (f r)"
  shows "outcome hash m b scope env (or_else (expr_fault m env e) out) (el_bind (elab_expr hash e scope) f)"
  by (rule outcome_expr [OF assms(1)]) (rule assms(2))

lemma outcome_return:
  assumes "case e of None \<Rightarrow> True | Some e \<Rightarrow> plain m env e"
  shows "outcome hash m b scope env (case e of None \<Rightarrow> None | Some e \<Rightarrow> expr_fault m env e)
    (elab_return hash e scope b)"
proof (cases e)
  case None
  have "el_bind (el_ret None) f = f None" for f :: "ir_node option \<Rightarrow> unit elab"
    by (simp add: fun_eq_iff el_bind_def)
  with None show ?thesis by (simp add: elab_return_def outcome_add_node)
next
  case (Some e)
  with assms show ?thesis
    using outcome_quiet_expr [of m env e hash b scope None "\<lambda>r. add_node b (Some (Return r))"]
    by (simp add: elab_return_def outcome_add_node)
qed

text \<open>Sequences of which one step does not fail, and those whose first step does.\<close>

lemma outcome_first: "outcome hash m b scope env None f \<Longrightarrow> outcome hash m b scope env out g \<Longrightarrow>
    outcome hash m b scope env out (el_seq f g)"
  using outcome_seq [of hash m b scope env None f out g] by simp

lemma outcome_last: "outcome hash m b scope env out f \<Longrightarrow> outcome hash m b scope env None g \<Longrightarrow>
    outcome hash m b scope env out (el_seq f g)"
  using outcome_seq [of hash m b scope env out f None g] by simp

lemma outcome_stop: "outcome hash m b scope env (Some e) f \<Longrightarrow> outcome hash m b scope env (Some e) (el_seq f g)"
  by (simp add: outcome_def el_seq_def)

lemmas outcome_nodes = outcome_first [OF outcome_add_node] outcome_first [OF outcome_branch(1)]
  outcome_first [OF outcome_branch(2)] outcome_add_node

lemma outcome_do:
  assumes "plain m env e" and "\<And>l1 l2. outcome hash m b scope env out (body l1 l2)"
  shows "outcome hash m b scope env (or_else out (cond_fault m env e)) (elab_do hash e scope b body)"
proof -
  have "outcome hash m b scope env (or_else (cond_fault m env e) None) (el_bind (elab_expr hash e scope)
      (\<lambda>cond. el_seq (branch_true l1 cond b) (add_node b (Some (Label l2)))))" for l1 l2
    by (rule outcome_cond [OF assms(1)]) (intro outcome_nodes, intro outcome_stop outcome_branch)
  then show ?thesis
    unfolding elab_do_def by (intro outcome_new_Label outcome_nodes outcome_seq [OF assms(2)]) simp
qed

lemma outcome_while:
  assumes "plain m env e" and "\<And>l1 l2. outcome hash m b scope env out (body l1 l2)"
  shows "outcome hash m b scope env (or_else (cond_fault m env e) out) (elab_while hash e scope b body)"
proof -
  have "outcome hash m b scope env out (el_seq (branch_false l2 (Some n) b)
      (el_seq (body l1 l2) (el_seq (add_node b (Some (Jump l1))) (add_node b (Some (Label l2))))))" for l1 l2 n
    by (intro outcome_first [OF outcome_branch(2)] outcome_last [OF assms(2)] outcome_nodes)
  then show ?thesis
    unfolding elab_while_def
    by (intro outcome_new_Label outcome_nodes(1) outcome_cond [OF assms(1)] outcome_stop outcome_branch(4))
qed

lemma outcome_for:
  assumes "plain m env e" and "\<And>sc. outcome hash m b sc env o1 (ini sc)"
    and "\<And>sc l1 l2. outcome hash m b sc env o3 (next_stmt sc l1 l2)"
    and "\<And>sc l1 l2. outcome hash m b sc env o2 (body sc l1 l2)"
  shows "outcome hash m b scope env (or_else o1 (or_else (cond_fault m env e) (or_else o2 o3)))
    (elab_for hash e scope b ini next_stmt body)"
proof -
  have "outcome hash m b sc env (or_else o2 o3) (el_seq (branch_false l2 (Some n) b)
      (el_seq (body sc l1 l2) (el_seq (next_stmt sc l1 l2)
        (el_seq (add_node b (Some (Jump l1))) (add_node b (Some (Label l2)))))))" for sc l1 l2 n
    by (intro outcome_first [OF outcome_branch(2)] outcome_seq [OF assms(4)] outcome_last [OF assms(3)] outcome_nodes)
  then show ?thesis
    unfolding elab_for_def
    by (intro outcome_open_scope outcome_seq [OF assms(2)] outcome_new_Label outcome_nodes(1) outcome_cond [OF assms(1)]
        outcome_stop outcome_branch(4))
qed

lemma outcome_if:
  assumes "plain m env e" and "outcome hash m b scope env o1 then_stmt"
    and "outcome hash m b scope env o2 (case else_stmt of None \<Rightarrow> el_fail NullDeref | Some st \<Rightarrow> st)"
  shows "outcome hash m b scope env (or_else (cond_fault m env e) (or_else o1 o2))
    (elab_if hash e scope b then_stmt else_stmt)"
proof -
  have "outcome hash m b scope env (or_else o1 o2) (el_seq (branch_false l1 (Some n) b)
      (el_seq then_stmt (el_seq (add_node b (Some (Jump l2))) (el_seq (add_node b (Some (Label l1)))
        (el_seq (case else_stmt of None \<Rightarrow> el_fail NullDeref | Some st \<Rightarrow> st)
          (add_node b (Some (Label l2))))))))" for l1 l2 n
    by (intro outcome_first [OF outcome_branch(2)] outcome_seq [OF assms(2)] outcome_first [OF outcome_add_node]
        outcome_last [OF assms(3)] outcome_add_node)
  then show ?thesis
    unfolding elab_if_def
    by (intro outcome_cond [OF assms(1)] outcome_new_Label outcome_stop outcome_branch(4))
qed

lemma outcome_else:
  assumes "\<And>st. else_stmt = Some st \<Longrightarrow> outcome hash m b scope env (out st) (f st)"
  shows "outcome hash m b scope env (case else_stmt of None \<Rightarrow> Some NullDeref | Some st \<Rightarrow> out st)
    (case (case else_stmt of None \<Rightarrow> None | Some st \<Rightarrow> Some (f st)) of None \<Rightarrow> el_fail NullDeref | Some st \<Rightarrow> st)"
  using assms outcome_fail by (cases else_stmt) auto

lemma or_else_hit: "first_hit f (x # xs) = or_else (f x) (first_hit f xs)"
  by (cases "f x") simp_all

lemma outcome_stmts:
  "plain_stmt m env st \<Longrightarrow>
    outcome hash m b scope env (stmt_fault m env st) (elab_stmt hash st scope start_label end_label b)"
  "list_all (plain_stmt m env) sts \<Longrightarrow>
    outcome hash m b scope env (first_hit (stmt_fault m env) sts)
      (elab_stmts hash sts scope start_label end_label b)"
  "list_all (\<lambda>(_, st). plain_stmt m env st) cs \<Longrightarrow>
    outcome hash m b scope env (first_hit (\<lambda>(_, st). stmt_fault m env st) cs)
      (elab_cases hash cs scope start_label end_label b)"
proof (induction hash st scope start_label end_label b and hash sts scope start_label end_label b
    and hash cs scope start_label end_label b rule: elab_stmt_elab_stmts_elab_cases.induct)
  case (1 hash stmts scope start_label end_label b)
  then show ?case unfolding elab_stmt.simps stmt_fault.simps by (intro outcome_open_scope) simp
next
  case (6 hash body e scope start_label end_label b)
  then show ?case unfolding elab_stmt.simps stmt_fault.simps by (intro outcome_do) simp_all
next
  case (10 hash e scope start_label end_label b)
  then show ?case
    using outcome_quiet_expr [of m env e hash b scope None "add_node b"] by (simp add: outcome_add_node)
next
  case (11 hash ini e next_stmt body scope start_label end_label b)
  then show ?case unfolding elab_stmt.simps stmt_fault.simps by (intro outcome_for) simp_all
next
  case (14 hash e then_stmt else_stmt scope start_label end_label b)
  show ?case unfolding elab_stmt.simps stmt_fault.simps
  proof (intro outcome_if outcome_else)
    fix st
    assume "else_stmt = Some st"
    then show "outcome hash m b scope env (stmt_fault m env st) (elab_stmt hash st scope start_label end_label b)"
      using 14 by simp
  qed (use 14(1,3) in simp_all)
next
  case (20 hash e cases scope start_label end_label b)
  then show ?case unfolding elab_stmt.simps stmt_fault.simps by (intro outcome_quiet_expr) simp_all
next
  case (23 hash e body scope start_label end_label b)
  then show ?case unfolding elab_stmt.simps stmt_fault.simps by (intro outcome_while) simp_all
next
  case (25 hash st sts scope start_label end_label b)
  then show ?case unfolding elab_stmts.simps or_else_hit by (intro outcome_seq) simp_all
next
  case (27 hash c st cs scope start_label end_label b)
  then show ?case unfolding elab_cases.simps or_else_hit by (simp, intro outcome_seq) simp_all
qed (simp_all add: outcome_ret outcome_jump_to outcome_step outcome_assign outcome_return)

section \<open>Code of structured statements\<close>

text \<open>
  C9: structured control flow becomes jump code. Take a statement of blocks, loops, conditionals,
  \<^verbatim>\<open>switch\<close>, assignments, \<^verbatim>\<open>break\<close>, \<^verbatim>\<open>continue\<close>, \<^verbatim>\<open>return\<close> and expression statements, without
  declarations, \<^verbatim>\<open>goto\<close> and labels, over expressions without calls and members. Its elaboration fails
  exactly where \<open>stmt_fault\<close> finds a fault, and with the first one found: an index without a type or
  the missing \<^verbatim>\<open>else\<close> of an \<^verbatim>\<open>if\<close> is a null pointer that is dereferenced, and a condition without a
  type fails an assertion. Otherwise the elaboration returns and appends nodes to the block it
  writes to, whichever that is; the labels among them are exactly those made for the statement,
  each placed once; and every jump and branch goes to one of these or to the start or end label of
  the enclosing loop.
\<close>

theorem structured_code:
  assumes "in_scope hash s scope" and "block_of b (toplevel_block s) = Inr c"
    and "plain_stmt (mTypeMgr s) (scope_env hash s scope) st"
  shows "case stmt_fault (mTypeMgr s) (scope_env hash s scope) st of
      Some f \<Rightarrow> elab_stmt hash st scope start_label end_label b s = Inl f
    | None \<Rightarrow> \<exists>s' c' ns. elab_stmt hash st scope start_label end_label b s = Inr ((), s') \<and>
        block_of b (toplevel_block s') = Inr c' \<and> mNodeList c' = mNodeList c @ ns \<and>
        distinct (placed_labels ns) \<and>
        set (placed_labels ns) = {length (label_defined s)..<length (label_defined s')} \<and>
        set (targets ns) \<subseteq> set (placed_labels ns) \<union> set_option start_label \<union> set_option end_label"
proof -
  let ?n = "length (label_defined s)" and ?L = "set_option start_label \<union> set_option end_label"
  have "view hash (mTypeMgr s) b scope (scope_env hash s scope) s"
    using assms(1,2) by (simp add: view_def)
  then have run: "case stmt_fault (mTypeMgr s) (scope_env hash s scope) st of
      None \<Rightarrow> \<exists>s'. elab_stmt hash st scope start_label end_label b s = Inr ((), s') \<and> keeps hash b s s'
    | Some f \<Rightarrow> elab_stmt hash st scope start_label end_label b s = Inl f"
    using outcome_stmts(1) [OF assms(3)] unfolding outcome_def by blast
  show ?thesis
  proof (cases "stmt_fault (mTypeMgr s) (scope_env hash s scope) st")
    case (Some f)
    then show ?thesis using run by simp
  next
    case None
    then obtain s' where s': "elab_stmt hash st scope start_label end_label b s = Inr ((), s')"
      using run by auto
    obtain ns k where ns: "emit b ns k s s'" "mset (placed_labels ns) = mset [?n..<?n + k]"
      "set (targets ns) \<subseteq> ?L \<union> {?n..<?n + k}"
      using flows_stmts(1) [OF plain_structured [OF assms(3)] order_refl] s'
      unfolding flows_def by fastforce
    obtain c' where c': "block_of b (toplevel_block s') = Inr c'" "mNodeList c' = mNodeList c @ ns"
      using ns(1) assms(2) unfolding emit_def by blast
    have "distinct (placed_labels ns)"
      using mset_eq_imp_distinct_iff [OF ns(2)] by simp
    moreover have "set (placed_labels ns) = {?n..<length (label_defined s')}"
      using mset_eq_setD [OF ns(2)] emit_length [OF ns(1)] by simp
    ultimately show ?thesis
      unfolding None option.case
      using s' c' ns(3) emit_length [OF ns(1)]
      by (intro exI [of _ s'] exI [of _ c'] exI [of _ ns]) auto
  qed
qed

text \<open>
  \<^verbatim>\<open>while ( n ) { x = n; if ( true ) break; else ++ x; }\<close> at the top level of the sample module is
  elaborated; without the \<^verbatim>\<open>else\<close> it crashes the elaborator.
\<close>

theorem structured_code_witness:
  "(\<exists>s' c' ns. elab_stmt (\<lambda>_. 0) (While (SymbolE ''n'') (BlockStmt
      [Assignment (SymbolE ''x'') (SymbolE ''n''), If TrueE Break (Some (Incr (SymbolE ''x'')))]))
      0 None None TopBlock demo_ir = Inr ((), s') \<and>
    block_of TopBlock (toplevel_block s') = Inr c' \<and> mNodeList c' = ns \<and>
    distinct (placed_labels ns) \<and> set (targets ns) \<subseteq> set (placed_labels ns)) \<and>
  elab_stmt (\<lambda>_. 0) (While (SymbolE ''n'') (BlockStmt
      [Assignment (SymbolE ''x'') (SymbolE ''n''), If TrueE Break None]))
      0 None None TopBlock demo_ir = Inl NullDeref"
proof -
  let ?st = "\<lambda>other. While (SymbolE ''n'') (BlockStmt
      [Assignment (SymbolE ''x'') (SymbolE ''n''), If TrueE Break other])"
  let ?m = "mTypeMgr demo_ir" and ?env = "scope_env (\<lambda>_. 0) demo_ir 0" and ?incr = "Some (Incr (SymbolE ''x''))"
  have block: "block_of TopBlock (toplevel_block demo_ir) = Inr \<lparr>mVarList = [], mNodeList = []\<rparr>"
    by (simp add: block_of_def demo_ir_def)
  have plain: "plain_stmt ?m ?env (?st ?incr)" "plain_stmt ?m ?env (?st None)"
    and fault: "stmt_fault ?m ?env (?st ?incr) = None" "stmt_fault ?m ?env (?st None) = Some NullDeref"
    by (simp_all add: place_expr_def demo_env demo_valid expr_fault_def cond_fault_def assign_fault_def)
  from structured_code [OF demo_in_scope block plain(1), of None None, unfolded fault(1) option.case]
    structured_code [OF demo_in_scope block plain(2), of None None, unfolded fault(2) option.case]
  show ?thesis by (simp del: elab_stmt.simps) blast
qed

end
