(* ===== verification/Parser_Token.thy ===== *)
theory Parser_Token
  imports Ymsl_Prelude
begin

text \<open>
  The tokens of the language in the groups of \<^verbatim>\<open>src/parser/grammer.yy\<close>: punctuation, reserved words,
  operators, tokens with a value. \<open>EOF\<close> is the end of file of the C library. \<open>CONST'\<close> and
  \<open>INT'\<close> are \<^verbatim>\<open>CONST\<close> and \<^verbatim>\<open>INT\<close>.
\<close>

datatype (plugins only: code) punct_token =
    COLON | SEMI | COMMA | DOT | QST | PLUSPLUS | MINUSMINUS
  | EQ | EQPLUS | EQMINUS | EQMULT | EQDIV | EQMOD | EQLSHIFT | EQRSHIFT
  | EQBITAND | EQBITOR | EQBITXOR
  | LP | RP | LCB | RCB | LBK | RBK

datatype (plugins only: code) word_token =
    ARRAY | AS | BOOLEAN | BREAK | CASE | CLASS | CONST' | CONTINUE | DEFAULT | DO | ELIF | ELSE
  | ENUM | FALSE | FLOAT | FOR | FUNCTION | GOTO | IF | IMPORT | INT' | MAP | RETURN | SET | STRING
  | SWITCH | TRUE | VAR | VOID | WHILE

datatype (plugins only: code) op_token =
    ITE | LOGOR | LOGAND | LSHIFT | RSHIFT | BITOR | BITXOR | BITAND
  | EQEQ | NOTEQ | LT | LE | GT | GE | PLUS | MINUS | MULT | DIV | MOD | LOGNOT | BITNEG | UOP

datatype token =
    Punct punct_token
  | Word word_token
  | Oper op_token
  | SYMBOL | INT_VAL | FLOAT_VAL | STRING_VAL
  | DUMMY | ERROR | EOF

end
