(* ===== verification/Parser_Dic.thy ===== *)
theory Parser_Dic
  imports Ymsl_Hash Parser_Token
begin

text \<open>
  The table of reserved words (\<^verbatim>\<open>src/parser/RsrvWordDic.h\<close>, \<^verbatim>\<open>src/parser/RsrvWordDic.cc\<close>).
  The numbers of the tokens are given by the parser generator, so they are a parameter \<open>code\<close>.
\<close>

section \<open>The table of reserved words\<close>

definition init_data :: "(string \<times> token) list" where
  "init_data = [
    ('':'', Punct COLON), ('';'', Punct SEMI), ('','', Punct COMMA), (''.'', Punct DOT),
    (''?'', Punct QST), (''++'', Punct PLUSPLUS), (''--'', Punct MINUSMINUS), (''='', Punct EQ),
    (''+='', Punct EQPLUS), (''-='', Punct EQMINUS), (''*='', Punct EQMULT),
    (''/='', Punct EQDIV), (''%='', Punct EQMOD), (''<<='', Punct EQLSHIFT),
    (''>>='', Punct EQRSHIFT), (''&='', Punct EQBITAND), (''|='', Punct EQBITOR),
    (''^='', Punct EQBITXOR), (''('', Punct LP), ('')'', Punct RP), (''{'', Punct LCB),
    (''}'', Punct RCB), (''['', Punct LBK), ('']'', Punct RBK), (''+'', Oper PLUS),
    (''-'', Oper MINUS), (''*'', Oper MULT), (''/'', Oper DIV), (''%'', Oper MOD),
    (''not'', Oper LOGNOT), (''and'', Oper LOGAND), (''or'', Oper LOGOR), (''~'', Oper BITNEG),
    (''&'', Oper BITAND), (''|'', Oper BITOR), (''^'', Oper BITXOR), (''<<'', Oper LSHIFT),
    (''>>'', Oper RSHIFT), (''=='', Oper EQEQ), (''!='', Oper NOTEQ), (''<'', Oper LT),
    (''>'', Oper GT), (''<='', Oper LE), (''>='', Oper GE), (''array'', Word ARRAY),
    (''as'', Word AS), (''boolean'', Word BOOLEAN), (''break'', Word BREAK),
    (''case'', Word CASE), (''const'', Word CONST'), (''continue'', Word CONTINUE),
    (''default'', Word DEFAULT), (''do'', Word DO), (''elif'', Word ELIF), (''else'', Word ELSE),
    (''enum'', Word ENUM), (''false'', Word FALSE), (''float'', Word FLOAT), (''for'', Word FOR),
    (''function'', Word FUNCTION), (''goto'', Word GOTO), (''if'', Word IF),
    (''import'', Word IMPORT), (''int'', Word INT'), (''map'', Word MAP),
    (''return'', Word RETURN), (''set'', Word SET), (''string'', Word STRING),
    (''switch'', Word SWITCH), (''true'', Word TRUE), (''var'', Word VAR), (''void'', Word VOID),
    (''while'', Word WHILE), (''_int_'', INT_VAL), (''_dummy_'', DUMMY), (''_error_'', ERROR),
    (''_float_'', FLOAT_VAL), (''_string_'', STRING_VAL), (''_symbol_'', SYMBOL)]"

text \<open>
  A table is an array of chains of cells; a cell is its word and its token. \<open>of_schar\<close> is the
  conversion of a \<^verbatim>\<open>char\<close>, which is signed, to \<^verbatim>\<open>ymuint\<close>.
\<close>

definition of_schar :: "char \<Rightarrow> u32" where
  "of_schar c = signed_take_bit 7 (of_char c)"

definition hash_func1 :: "string \<Rightarrow> u32" where
  "hash_func1 str = foldl (\<lambda>h c. h * 37 + of_schar c) 0 str"

record rsrv_dic =
  mTable1 :: "(string \<times> token) list list"
  mTable2 :: "(string \<times> token) list list"
  mSize :: u32

definition is_ascii :: "char \<Rightarrow> bool" where
  "is_ascii c \<longleftrightarrow> of_char c < (128 :: nat)"

definition push_cell :: "u32 \<Rightarrow> 'a \<Rightarrow> 'a list list \<Rightarrow> 'a list list res" where
  "push_cell pos cell tbl =
     res_bind (arr_get tbl (uint pos)) (\<lambda>chain. arr_set tbl (uint pos) (cell # chain))"

definition add_word :: "(token \<Rightarrow> u32) \<Rightarrow> string \<times> token \<Rightarrow> rsrv_dic \<Rightarrow> rsrv_dic res" where
  "add_word code p d =
     res_bind
       (case fst p of
          [] \<Rightarrow> Inr (mTable1 d)
        | c # _ \<Rightarrow>
            if is_ascii c then
              res_bind (u_mod (hash_func1 (fst p)) (mSize d)) (\<lambda>pos1. push_cell pos1 p (mTable1 d))
            else Inr (mTable1 d)) (\<lambda>t1.
     res_bind (u_mod (code (snd p)) (mSize d)) (\<lambda>pos2.
     res_bind (push_cell pos2 p (mTable2 d)) (\<lambda>t2.
       Inr (d\<lparr>mTable1 := t1, mTable2 := t2\<rparr>))))"

fun add_words :: "(token \<Rightarrow> u32) \<Rightarrow> (string \<times> token) list \<Rightarrow> rsrv_dic \<Rightarrow> rsrv_dic res" where
  "add_words code [] d = Inr d"
| "add_words code (p # ps) d = res_bind (add_word code p d) (add_words code ps)"

definition RsrvWordDic_new :: "(token \<Rightarrow> u32) \<Rightarrow> rsrv_dic res" where
  "RsrvWordDic_new code =
     add_words code init_data
       \<lparr>mTable1 = replicate (length init_data) [], mTable2 = replicate (length init_data) [],
        mSize = of_nat (length init_data)\<rparr>"

definition dic_token :: "rsrv_dic \<Rightarrow> string \<Rightarrow> token res" where
  "dic_token d str =
     res_bind (u_mod (hash_func1 str) (mSize d)) (\<lambda>pos.
     res_bind (arr_get (mTable1 d) (uint pos)) (\<lambda>chain.
       Inr (case find (\<lambda>(w, t). str = w) chain of None \<Rightarrow> SYMBOL | Some (w, t) \<Rightarrow> t)))"

definition dic_str :: "(token \<Rightarrow> u32) \<Rightarrow> rsrv_dic \<Rightarrow> token \<Rightarrow> string option res" where
  "dic_str code d token =
     res_bind (u_mod (code token) (mSize d)) (\<lambda>pos.
     res_bind (arr_get (mTable2 d) (uint pos)) (\<lambda>chain.
       Inr (map_option fst (find (\<lambda>(w, t). code token = code t) chain))))"


section \<open>The tables hold the words\<close>

definition dic_chain :: "u32 \<Rightarrow> ('a \<Rightarrow> u32) \<Rightarrow> 'a list \<Rightarrow> nat \<Rightarrow> 'a list" where
  "dic_chain n h ps pos = filter (\<lambda>p. unat (h p mod n) = pos) (rev ps)"

definition ascii_word :: "string \<times> token \<Rightarrow> bool" where
  "ascii_word p \<longleftrightarrow> fst p \<noteq> [] \<and> is_ascii (hd (fst p))"

definition dic_of :: "(token \<Rightarrow> u32) \<Rightarrow> u32 \<Rightarrow> (string \<times> token) list \<Rightarrow> rsrv_dic" where
  "dic_of code n ps =
     \<lparr>mTable1 = map (dic_chain n (\<lambda>p. hash_func1 (fst p)) ps) [0..<unat n],
      mTable2 = map (dic_chain n (\<lambda>p. code (snd p)) ps) [0..<unat n], mSize = n\<rparr>"

lemma push_chain:
  assumes "n \<noteq> 0"
  shows "push_cell (h p mod n) p (map (dic_chain n h ps) [0..<unat n]) =
    Inr (map (dic_chain n h (ps @ [p])) [0..<unat n])"
proof -
  have less: "unat (h p mod n) < unat n"
    using assms by (simp add: unat_mod unat_gt_0)
  then have "(map (dic_chain n h ps) [0..<unat n])
      [unat (h p mod n) := p # dic_chain n h ps (unat (h p mod n))] =
    map (dic_chain n h (ps @ [p])) [0..<unat n]"
    by (auto intro!: nth_equalityI simp: dic_chain_def nth_list_update)
  then show ?thesis using less
    by (simp add: push_cell_def)
qed

lemma add_words_dic_of:
  assumes "n \<noteq> 0" and "\<forall>p\<in>set ps. ascii_word p"
  shows "add_words code ps (dic_of code n qs) = Inr (dic_of code n (qs @ ps))"
  using assms(2)
proof (induction ps arbitrary: qs)
  case (Cons p ps)
  obtain c w where "fst p = c # w" "is_ascii c"
    using Cons.prems by (cases "fst p") (auto simp: ascii_word_def)
  then have "add_word code p (dic_of code n qs) = Inr (dic_of code n (qs @ [p]))"
    using assms(1) push_chain [OF assms(1), where h = "\<lambda>p. hash_func1 (fst p)" and p = p and ps = qs]
      push_chain [OF assms(1), where h = "\<lambda>p. code (snd p)" and p = p and ps = qs]
    by (simp add: add_word_def dic_of_def u_mod_def)
  with Cons show ?case by simp
qed simp

lemma find_chain:
  assumes "\<And>p. P p \<Longrightarrow> h p = k"
  shows "find P (dic_chain n h ps (unat (k mod n))) = find P (rev ps)"
proof -
  have "find P (filter (\<lambda>p. unat (h p mod n) = unat (k mod n)) qs) = find P qs" for qs
    using assms by (induction qs) auto
  then show ?thesis by (simp add: dic_chain_def)
qed

lemma find_rev_distinct:
  assumes "distinct (map f xs)" and "x \<in> set xs"
  shows "find (\<lambda>y. f x = f y) (rev xs) = Some x"
proof -
  have "find (\<lambda>y. f x = f y) (rev xs) \<noteq> None"
    using assms(2) by (auto simp: find_None_iff)
  then obtain y where y: "find (\<lambda>y. f x = f y) (rev xs) = Some y" by blast
  then have "y \<in> set xs" "f x = f y"
    by (auto simp: find_Some_iff) (metis length_rev nth_mem set_rev)
  with assms y show ?thesis
    by (simp add: distinct_map inj_on_def)
qed

lemma init_data_distinct: "distinct (map fst init_data)" "distinct (map snd init_data)"
  by code_simp+

lemma init_data_ascii: "\<forall>p\<in>set init_data. ascii_word p"
  by (simp add: init_data_def ascii_word_def is_ascii_def)

lemma init_data_length: "length init_data = 79"
  by (simp add: init_data_def)


lemma dic_of_init: "RsrvWordDic_new code = Inr (dic_of code 79 init_data)"
proof -
  have "RsrvWordDic_new code = add_words code init_data (dic_of code 79 [])"
    by (simp add: RsrvWordDic_new_def dic_of_def dic_chain_def [abs_def] init_data_length
        map_replicate_const)
  then show ?thesis
    using add_words_dic_of [OF _ init_data_ascii, where n = 79 and qs = "[]"] by simp
qed

lemma dic_token_run:
  "dic_token (dic_of code 79 init_data) w =
    Inr (case find (\<lambda>p. w = fst p) (rev init_data) of None \<Rightarrow> SYMBOL | Some p \<Rightarrow> snd p)"
  using find_chain [where P = "\<lambda>p. w = fst p" and h = "\<lambda>p. hash_func1 (fst p)"
      and k = "hash_func1 w" and n = 79 and ps = init_data]
  by (simp add: dic_token_def dic_of_def u_mod_def unat_mod case_prod_beta' split: option.split)

lemma dic_str_run:
  "dic_str code (dic_of code 79 init_data) t =
    Inr (map_option fst (find (\<lambda>p. code t = code (snd p)) (rev init_data)))"
  using find_chain [where P = "\<lambda>p. code t = code (snd p)" and h = "\<lambda>p. code (snd p)"
      and k = "code t" and n = 79 and ps = init_data]
  by (simp add: dic_str_def dic_of_def u_mod_def unat_mod case_prod_beta')


section \<open>Words and tokens\<close>

text \<open>What the tables promise: the list of reserved words, read in both directions.\<close>

definition word_token_of :: "string \<Rightarrow> token" where
  "word_token_of w = (case map_of init_data w of None \<Rightarrow> SYMBOL | Some t \<Rightarrow> t)"

lemma find_rev_None: "find P (rev xs) = None \<longleftrightarrow> (\<forall>x\<in>set xs. \<not> P x)"
  by (auto simp: find_None_iff)

lemma dic_token_word: "dic_token (dic_of code 79 init_data) w = Inr (word_token_of w)"
proof (cases "map_of init_data w")
  case None
  then have "find (\<lambda>p. w = fst p) (rev init_data) = None"
    by (auto simp: find_rev_None map_of_eq_None_iff)
  with None show ?thesis
    by (simp add: dic_token_run word_token_of_def)
next
  case (Some t)
  then have "(w, t) \<in> set init_data" by (rule map_of_SomeD)
  from find_rev_distinct [OF init_data_distinct(1) this] Some show ?thesis
    by (simp add: dic_token_run word_token_of_def)
qed

lemma dic_str_token:
  assumes "inj code"
  shows "dic_str code (dic_of code 79 init_data) t = Inr (Some w) \<longleftrightarrow> (w, t) \<in> set init_data"
proof
  assume "(w, t) \<in> set init_data"
  from find_rev_distinct [OF init_data_distinct(2) this]
  show "dic_str code (dic_of code 79 init_data) t = Inr (Some w)"
    using assms by (simp add: dic_str_run inj_eq)
next
  assume "dic_str code (dic_of code 79 init_data) t = Inr (Some w)"
  then obtain p where p: "find (\<lambda>p. code t = code (snd p)) (rev init_data) = Some p" "w = fst p"
    by (auto simp: dic_str_run)
  then have "p \<in> set init_data" "t = snd p"
    using assms by (auto simp: find_Some_iff inj_eq) (metis length_rev nth_mem set_rev)
  with p(2) show "(w, t) \<in> set init_data" by simp
qed

lemma word_token_of_eq:
  "word_token_of w = t \<longleftrightarrow> (w, t) \<in> set init_data \<or> t = SYMBOL \<and> w \<notin> fst ` set init_data"
proof (cases "map_of init_data w")
  case None
  then have "w \<notin> fst ` set init_data" by (simp add: map_of_eq_None_iff)
  moreover from this have "(w, t) \<notin> set init_data" by force
  ultimately show ?thesis using None by (auto simp: word_token_of_def)
next
  case (Some u)
  then have u: "(w, u) \<in> set init_data" by (rule map_of_SomeD)
  then have "(w, t) \<in> set init_data \<longleftrightarrow> t = u"
    using map_of_is_SomeI [OF init_data_distinct(1), of w t] Some by auto
  with Some u show ?thesis by (force simp: word_token_of_def)
qed

text \<open>
  C29: the table of reserved words is a dictionary in both directions. Its construction succeeds
  whatever numbers the parser generator gives to the tokens; \<^verbatim>\<open>token\<close> answers the token of a
  reserved word and \<^verbatim>\<open>SYMBOL\<close> for any other word, \<^verbatim>\<open>str\<close> the word of a token, provided different
  tokens have different numbers. So reading the word printed for a token gives the token back.
\<close>

theorem reserved_words_roundtrip:
  assumes "inj code"
  shows "\<exists>d. RsrvWordDic_new code = Inr d \<and>
    (\<forall>w t. dic_token d w = Inr t \<longleftrightarrow>
       (w, t) \<in> set init_data \<or> t = SYMBOL \<and> w \<notin> fst ` set init_data) \<and>
    (\<forall>w t. dic_str code d t = Inr (Some w) \<longleftrightarrow> (w, t) \<in> set init_data) \<and>
    (\<forall>w t. dic_str code d t = Inr (Some w) \<longrightarrow> dic_token d w = Inr t)"
  by (simp add: dic_of_init dic_token_word dic_str_token [OF assms] word_token_of_eq)

text \<open>Numbers as a parser generator gives them: in the order of declaration.\<close>

definition token_list :: "token list" where
  "token_list =
    [Punct COLON, Punct SEMI, Punct COMMA, Punct DOT, Punct QST, Punct PLUSPLUS, Punct MINUSMINUS,
     Punct EQ, Punct EQPLUS, Punct EQMINUS, Punct EQMULT, Punct EQDIV, Punct EQMOD,
     Punct EQLSHIFT, Punct EQRSHIFT, Punct EQBITAND, Punct EQBITOR, Punct EQBITXOR, Punct LP,
     Punct RP, Punct LCB, Punct RCB, Punct LBK, Punct RBK,
     Word ARRAY, Word AS, Word BOOLEAN, Word BREAK, Word CASE, Word CLASS, Word CONST',
     Word CONTINUE, Word DEFAULT, Word DO, Word ELIF, Word ELSE, Word ENUM, Word FALSE,
     Word FLOAT, Word FOR, Word FUNCTION, Word GOTO, Word IF, Word IMPORT, Word INT', Word MAP,
     Word RETURN, Word SET, Word STRING, Word SWITCH, Word TRUE, Word VAR, Word VOID, Word WHILE,
     SYMBOL, INT_VAL, FLOAT_VAL, STRING_VAL, DUMMY, ERROR,
     Oper ITE, Oper LOGOR, Oper LOGAND, Oper LSHIFT, Oper RSHIFT, Oper BITOR, Oper BITXOR,
     Oper BITAND, Oper EQEQ, Oper NOTEQ, Oper LT, Oper LE, Oper GT, Oper GE, Oper PLUS,
     Oper MINUS, Oper MULT, Oper DIV, Oper MOD, Oper LOGNOT, Oper BITNEG, Oper UOP, EOF]"

definition token_code :: "token \<Rightarrow> u32" where
  "token_code t = 258 + of_nat (length (takeWhile (\<lambda>u. u \<noteq> t) token_list))"

lemma token_list_UNIV: "t \<in> set token_list"
proof (cases t)
  case (Punct p)
  then show ?thesis by (cases p) (simp_all add: token_list_def)
next
  case (Word w)
  then show ?thesis by (cases w) (simp_all add: token_list_def)
next
  case (Oper p)
  then show ?thesis by (cases p) (simp_all add: token_list_def)
qed (simp_all add: token_list_def)

lemma inj_token_code: "inj token_code"
proof (rule injI)
  fix t u
  have less: "length (takeWhile (\<lambda>u. u \<noteq> v) token_list) < 2 ^ 32" for v
    by (rule le_less_trans [OF length_takeWhile_le]) (simp add: token_list_def)
  have nth: "token_list ! length (takeWhile (\<lambda>u. u \<noteq> v) token_list) = v" for v
    using nth_length_takeWhile [of "\<lambda>u. u \<noteq> v" token_list] token_list_UNIV [of v]
    by (metis (mono_tags, lifting) length_takeWhile_le linorder_not_le nle_le takeWhile_eq_all_conv
        takeWhile_eq_take take_all)
  have unat: "unat (of_nat n :: u32) = n" if "n < 2 ^ 32" for n
    using that by (simp add: unat_of_nat)
  assume "token_code t = token_code u"
  then have "length (takeWhile (\<lambda>v. v \<noteq> t) token_list) = length (takeWhile (\<lambda>v. v \<noteq> u) token_list)"
    unfolding token_code_def add_left_cancel
    using unat [OF less [of t]] unat [OF less [of u]] by metis
  then have "token_list ! length (takeWhile (\<lambda>v. v \<noteq> t) token_list) =
      token_list ! length (takeWhile (\<lambda>v. v \<noteq> u) token_list)"
    by (rule arg_cong)
  then show "t = u" unfolding nth .
qed

theorem reserved_words_roundtrip_witness:
  "\<exists>d. RsrvWordDic_new token_code = Inr d \<and> dic_token d ''while'' = Inr (Word WHILE) \<and>
    dic_token d ''whale'' = Inr SYMBOL \<and> dic_str token_code d (Oper LSHIFT) = Inr (Some ''<<'')"
proof -
  obtain d where d: "RsrvWordDic_new token_code = Inr d"
    "\<And>w t. dic_token d w = Inr t \<longleftrightarrow>
       (w, t) \<in> set init_data \<or> t = SYMBOL \<and> w \<notin> fst ` set init_data"
    "\<And>w t. dic_str token_code d t = Inr (Some w) \<longleftrightarrow> (w, t) \<in> set init_data"
    using reserved_words_roundtrip [OF inj_token_code] by blast
  have "(''while'', Word WHILE) \<in> set init_data" "(''<<'', Oper LSHIFT) \<in> set init_data"
    "''whale'' \<notin> fst ` set init_data"
    by code_simp+
  with d show ?thesis by blast
qed

end
