(* ===== verification/Ymsl_Scanner.thy ===== *)
theory Ymsl_Scanner
  imports Parser_Dic
begin

text \<open>
  The scanner (\<^verbatim>\<open>include/YmslScanner.h\<close>, \<^verbatim>\<open>src/parser/YmslScanner.cc\<close>). Its base class belongs to the
  utility library: \<^verbatim>\<open>get\<close>, \<^verbatim>\<open>peek\<close> and \<^verbatim>\<open>accept\<close> are operations on a source of characters, a
  parameter; no character is the end of file. Each label \<open>ST_...\<close> of \<^verbatim>\<open>scan\<close> is a definition that
  says what happens up to the next jump or return. Messages and file positions are left out.
\<close>

section \<open>The character source\<close>

record 's source =
  get :: "'s \<Rightarrow> char option \<times> 's"
  peek :: "'s \<Rightarrow> char option \<times> 's"
  accept :: "'s \<Rightarrow> 's"

text \<open>
  What the scanner relies on: \<open>rest\<close> are the characters to come, \<^verbatim>\<open>get\<close> takes the next one,
  \<^verbatim>\<open>peek\<close> only looks at it, and an \<^verbatim>\<open>accept\<close> after a \<^verbatim>\<open>peek\<close> takes it.
\<close>

definition reads :: "'s source \<Rightarrow> ('s \<Rightarrow> string) \<Rightarrow> bool" where
  "reads src rest \<longleftrightarrow>
     (\<forall>s. case rest s of
        [] \<Rightarrow> fst (get src s) = None \<and> rest (snd (get src s)) = []
      | c # cs \<Rightarrow> fst (get src s) = Some c \<and> rest (snd (get src s)) = cs) \<and>
     (\<forall>s. fst (peek src s) = (case rest s of [] \<Rightarrow> None | c # _ \<Rightarrow> Some c) \<and>
        rest (snd (peek src s)) = rest s \<and>
        rest (accept src (snd (peek src s))) = tl (rest s))"

section \<open>The states of the scanner\<close>

text \<open>\<^verbatim>\<open>isdigit\<close>, and letters of \<^verbatim>\<open>isalpha\<close> or \<^verbatim>\<open>_\<close>, by their numbers.\<close>

definition is_digit :: "char \<Rightarrow> bool" where
  "is_digit c \<longleftrightarrow> 48 \<le> (of_char c :: nat) \<and> (of_char c :: nat) \<le> 57"

definition is_symbol :: "char \<Rightarrow> bool" where
  "is_symbol c \<longleftrightarrow>
     97 \<le> (of_char c :: nat) \<and> (of_char c :: nat) \<le> 122 \<or>
     65 \<le> (of_char c :: nat) \<and> (of_char c :: nat) \<le> 90 \<or> c = CHR ''_''"

datatype (plugins only: code) lex_state =
    ST_INIT | ST_DOT | ST_PLUS | ST_MINUS | ST_MULT | ST_MOD | ST_NOT | ST_AND | ST_OR | ST_XOR
  | ST_EQ | ST_LT | ST_GT | ST_NUM1 | ST_NUMDOT | ST_NUM2 | ST_NUM3 | ST_NUM4 | ST_ID | ST_DQ
  | ST_DIV | ST_COMMENT2 | ST_COMMENT3 | ST_COMMENT4 | ST_EOF

text \<open>The outcome of a state: the token returned or the label jumped to, \<^verbatim>\<open>mCurString\<close>, the source.\<close>

type_synonym 's outcome = "(token + lex_state) \<times> string \<times> 's"

definition return_tok :: "token \<Rightarrow> string \<Rightarrow> 's \<Rightarrow> 's outcome" where
  "return_tok t buf s = (Inl t, buf, s)"

definition goto_st :: "lex_state \<Rightarrow> string \<Rightarrow> 's \<Rightarrow> 's outcome" where
  "goto_st st buf s = (Inr st, buf, s)"

text \<open>\<open>c\<close> is the character peeked at, \<open>s\<close> the source after it, not accepted yet.\<close>

definition on_peek :: "'s source \<Rightarrow> 's \<Rightarrow> (char option \<Rightarrow> 's \<Rightarrow> 'a) \<Rightarrow> 'a" where
  "on_peek src s f = (case peek src s of (c, s') \<Rightarrow> f c s')"

definition on_get :: "'s source \<Rightarrow> 's \<Rightarrow> (char option \<Rightarrow> 's \<Rightarrow> 'a) \<Rightarrow> 'a" where
  "on_get src s f = (case get src s of (c, s') \<Rightarrow> f c s')"

definition first_char :: "char \<Rightarrow> token + lex_state" where
  "first_char c =
     (if c \<in> {CHR '' '', CHR 0x09, CHR 0x0A} then Inr ST_INIT
      else if c = CHR 0x22 then Inr ST_DQ
      else if c = CHR ''/'' then Inr ST_DIV
      else if c = CHR '':'' then Inl (Punct COLON)
      else if c = CHR '';'' then Inl (Punct SEMI)
      else if c = CHR '','' then Inl (Punct COMMA)
      else if c = CHR ''?'' then Inl (Punct QST)
      else if c = CHR ''+'' then Inr ST_PLUS
      else if c = CHR ''-'' then Inr ST_MINUS
      else if c = CHR ''*'' then Inr ST_MULT
      else if c = CHR ''%'' then Inr ST_MOD
      else if c = CHR ''!'' then Inr ST_NOT
      else if c = CHR ''&'' then Inr ST_AND
      else if c = CHR ''|'' then Inr ST_OR
      else if c = CHR ''~'' then Inl (Oper BITNEG)
      else if c = CHR ''^'' then Inr ST_XOR
      else if c = CHR ''='' then Inr ST_EQ
      else if c = CHR ''<'' then Inr ST_LT
      else if c = CHR ''>'' then Inr ST_GT
      else if c = CHR ''('' then Inl (Punct LP)
      else if c = CHR '')'' then Inl (Punct RP)
      else if c = CHR ''{'' then Inl (Punct LCB)
      else if c = CHR ''}'' then Inl (Punct RCB)
      else if c = CHR ''['' then Inl (Punct LBK)
      else if c = CHR '']'' then Inl (Punct RBK)
      else Inl ERROR)"

definition st_init :: "'s source \<Rightarrow> string \<Rightarrow> 's \<Rightarrow> 's outcome" where
  "st_init src buf s =
     on_get src s (\<lambda>p s. case p of
         None \<Rightarrow> return_tok EOF buf s
       | Some c \<Rightarrow>
           if is_symbol c then goto_st ST_ID (buf @ [c]) s
           else if is_digit c then goto_st ST_NUM1 (buf @ [c]) s
           else if c = CHR ''.'' then goto_st ST_DOT (buf @ [c]) s
           else if c = CHR 0x5C then
             on_peek src s (\<lambda>p s.
               if p = Some (CHR 0x0A) then goto_st ST_INIT buf (accept src s)
               else goto_st ST_INIT buf s)
           else (first_char c, buf, s))"

definition st_dot :: "'s source \<Rightarrow> string \<Rightarrow> 's \<Rightarrow> 's outcome" where
  "st_dot src buf s =
     on_peek src s (\<lambda>p s. case p of
         Some c \<Rightarrow>
           if is_digit c then goto_st ST_NUM2 (buf @ [CHR ''.'', c]) (accept src s)
           else return_tok (Punct DOT) buf s
       | None \<Rightarrow> return_tok (Punct DOT) buf s)"

text \<open>States that return: one token if the next character is \<open>c\<close>, another one otherwise.\<close>

definition one_more :: "char \<Rightarrow> token \<Rightarrow> token \<Rightarrow> 's source \<Rightarrow> string \<Rightarrow> 's \<Rightarrow> 's outcome" where
  "one_more c t1 t2 src buf s =
     on_peek src s (\<lambda>p s.
       if p = Some c then return_tok t1 buf (accept src s) else return_tok t2 buf s)"

definition st_plus :: "'s source \<Rightarrow> string \<Rightarrow> 's \<Rightarrow> 's outcome" where
  "st_plus src buf s =
     on_peek src s (\<lambda>p s.
       if p = Some (CHR ''='') then return_tok (Punct EQPLUS) buf (accept src s)
       else if p = Some (CHR ''+'') then return_tok (Punct PLUSPLUS) buf (accept src s)
       else return_tok (Oper PLUS) buf s)"

definition st_minus :: "'s source \<Rightarrow> string \<Rightarrow> 's \<Rightarrow> 's outcome" where
  "st_minus src buf s =
     on_peek src s (\<lambda>p s.
       if p = Some (CHR ''='') then return_tok (Punct EQMINUS) buf (accept src s)
       else if p = Some (CHR ''-'') then return_tok (Punct MINUSMINUS) buf (accept src s)
       else case p of
           Some c \<Rightarrow>
             if is_digit c then goto_st ST_NUM1 (buf @ [CHR ''-'', c]) (accept src s)
             else return_tok (Oper MINUS) buf s
         | None \<Rightarrow> return_tok (Oper MINUS) buf s)"

definition st_mult :: "'s source \<Rightarrow> string \<Rightarrow> 's \<Rightarrow> 's outcome" where
  "st_mult = one_more (CHR ''='') (Punct EQMULT) (Oper MULT)"

definition st_mod :: "'s source \<Rightarrow> string \<Rightarrow> 's \<Rightarrow> 's outcome" where
  "st_mod = one_more (CHR ''='') (Punct EQMOD) (Oper MOD)"

definition st_not :: "'s source \<Rightarrow> string \<Rightarrow> 's \<Rightarrow> 's outcome" where
  "st_not = one_more (CHR ''='') (Oper NOTEQ) ERROR"

definition st_and :: "'s source \<Rightarrow> string \<Rightarrow> 's \<Rightarrow> 's outcome" where
  "st_and = one_more (CHR ''='') (Punct EQBITAND) (Oper BITAND)"

definition st_or :: "'s source \<Rightarrow> string \<Rightarrow> 's \<Rightarrow> 's outcome" where
  "st_or = one_more (CHR ''='') (Punct EQBITOR) (Oper BITOR)"

definition st_xor :: "'s source \<Rightarrow> string \<Rightarrow> 's \<Rightarrow> 's outcome" where
  "st_xor = one_more (CHR ''='') (Punct EQBITXOR) (Oper BITXOR)"

definition st_eq :: "'s source \<Rightarrow> string \<Rightarrow> 's \<Rightarrow> 's outcome" where
  "st_eq = one_more (CHR ''='') (Oper EQEQ) (Punct EQ)"

definition st_lt :: "'s source \<Rightarrow> string \<Rightarrow> 's \<Rightarrow> 's outcome" where
  "st_lt src buf s =
     on_peek src s (\<lambda>p s.
       if p = Some (CHR ''='') then return_tok (Oper LE) buf (accept src s)
       else if p = Some (CHR ''<'') then
         one_more (CHR ''='') (Punct EQLSHIFT) (Oper LSHIFT) src buf (accept src s)
       else return_tok (Oper LT) buf s)"

definition st_gt :: "'s source \<Rightarrow> string \<Rightarrow> 's \<Rightarrow> 's outcome" where
  "st_gt src buf s =
     on_peek src s (\<lambda>p s.
       if p = Some (CHR ''='') then return_tok (Oper GE) buf (accept src s)
       else if p = Some (CHR ''>'') then
         one_more (CHR ''='') (Punct EQRSHIFT) (Oper RSHIFT) src buf (accept src s)
       else return_tok (Oper GT) buf s)"

text \<open>States of a number; \<open>digit_next\<close> says that the next character is a digit.\<close>

definition digit_next :: "char option \<Rightarrow> bool" where
  "digit_next p = (case p of None \<Rightarrow> False | Some c \<Rightarrow> is_digit c)"

definition st_num1 :: "'s source \<Rightarrow> string \<Rightarrow> 's \<Rightarrow> 's outcome" where
  "st_num1 src buf s =
     on_peek src s (\<lambda>p s.
       if digit_next p then goto_st ST_NUM1 (buf @ [the p]) (accept src s)
       else if p = Some (CHR ''.'') then goto_st ST_NUMDOT (buf @ [CHR ''.'']) (accept src s)
       else return_tok INT_VAL buf s)"

definition st_numdot :: "'s source \<Rightarrow> string \<Rightarrow> 's \<Rightarrow> 's outcome" where
  "st_numdot src buf s =
     on_peek src s (\<lambda>p s.
       if digit_next p then goto_st ST_NUM2 (buf @ [the p]) (accept src s)
       else return_tok ERROR buf s)"

definition st_num2 :: "'s source \<Rightarrow> string \<Rightarrow> 's \<Rightarrow> 's outcome" where
  "st_num2 src buf s =
     on_peek src s (\<lambda>p s.
       if digit_next p then goto_st ST_NUM2 (buf @ [the p]) (accept src s)
       else if p = Some (CHR ''e'') \<or> p = Some (CHR ''E'') then
         goto_st ST_NUM3 (buf @ [the p]) (accept src s)
       else return_tok FLOAT_VAL buf s)"

definition st_num3 :: "'s source \<Rightarrow> string \<Rightarrow> 's \<Rightarrow> 's outcome" where
  "st_num3 src buf s =
     on_peek src s (\<lambda>p s.
       if digit_next p then goto_st ST_NUM4 (buf @ [the p]) (accept src s)
       else if p = Some (CHR ''+'') \<or> p = Some (CHR ''-'') then
         goto_st ST_NUM4 (buf @ [the p]) (accept src s)
       else return_tok ERROR buf s)"

definition st_num4 :: "'s source \<Rightarrow> string \<Rightarrow> 's \<Rightarrow> 's outcome" where
  "st_num4 src buf s =
     on_peek src s (\<lambda>p s.
       if digit_next p then goto_st ST_NUM4 (buf @ [the p]) (accept src s)
       else return_tok FLOAT_VAL buf s)"

definition st_id :: "rsrv_dic \<Rightarrow> 's source \<Rightarrow> string \<Rightarrow> 's \<Rightarrow> 's outcome res" where
  "st_id d src buf s =
     on_peek src s (\<lambda>p s. case p of
         Some c \<Rightarrow>
           if is_symbol c \<or> is_digit c then Inr (goto_st ST_ID (buf @ [c]) (accept src s))
           else res_bind (dic_token d buf) (\<lambda>t. Inr (return_tok t buf s))
       | None \<Rightarrow> res_bind (dic_token d buf) (\<lambda>t. Inr (return_tok t buf s)))"

text \<open>The end of file put into the string, after a backslash, is the byte 255.\<close>

definition st_dq :: "'s source \<Rightarrow> string \<Rightarrow> 's \<Rightarrow> 's outcome" where
  "st_dq src buf s =
     on_get src s (\<lambda>p s. case p of
         None \<Rightarrow> return_tok ERROR buf s
       | Some c \<Rightarrow>
           if c = CHR 0x22 then return_tok STRING_VAL buf s
           else if c = CHR 0x0A then return_tok ERROR buf s
           else if c = CHR 0x5C then
             on_get src s (\<lambda>p s.
               let buf1 = (if p \<noteq> Some (CHR 0x0A) then buf @ [CHR 0x5C] else buf)
               in goto_st ST_DQ (buf1 @ [case p of None \<Rightarrow> CHR 0xFF | Some c \<Rightarrow> c]) s)
           else goto_st ST_DQ (buf @ [c]) s)"

definition st_div :: "'s source \<Rightarrow> string \<Rightarrow> 's \<Rightarrow> 's outcome" where
  "st_div src buf s =
     on_peek src s (\<lambda>p s.
       if p = Some (CHR ''='') then return_tok (Punct EQDIV) buf (accept src s)
       else if p = Some (CHR ''/'') then goto_st ST_COMMENT2 buf (accept src s)
       else if p = Some (CHR ''*'') then goto_st ST_COMMENT3 buf (accept src s)
       else return_tok (Oper DIV) buf s)"

definition st_comment2 :: "'s source \<Rightarrow> string \<Rightarrow> 's \<Rightarrow> 's outcome" where
  "st_comment2 src buf s =
     on_get src s (\<lambda>p s.
       if p = Some (CHR 0x0A) then goto_st ST_INIT buf s
       else if p = None then return_tok EOF buf s
       else goto_st ST_COMMENT2 buf s)"

definition st_comment3 :: "'s source \<Rightarrow> string \<Rightarrow> 's \<Rightarrow> 's outcome" where
  "st_comment3 src buf s =
     on_get src s (\<lambda>p s.
       if p = None then goto_st ST_EOF buf s
       else if p = Some (CHR ''*'') then goto_st ST_COMMENT4 buf s
       else goto_st ST_COMMENT3 buf s)"

definition st_comment4 :: "'s source \<Rightarrow> string \<Rightarrow> 's \<Rightarrow> 's outcome" where
  "st_comment4 src buf s =
     on_get src s (\<lambda>p s.
       if p = None then goto_st ST_EOF buf s
       else if p = Some (CHR ''/'') then goto_st ST_INIT buf s
       else if p = Some (CHR ''*'') then goto_st ST_COMMENT4 buf s
       else goto_st ST_COMMENT3 buf s)"

definition scan_step ::
  "rsrv_dic \<Rightarrow> 's source \<Rightarrow> lex_state \<Rightarrow> string \<Rightarrow> 's \<Rightarrow> 's outcome res" where
  "scan_step d src st buf s =
     (case st of
        ST_INIT \<Rightarrow> Inr (st_init src buf s)
      | ST_DOT \<Rightarrow> Inr (st_dot src buf s)
      | ST_PLUS \<Rightarrow> Inr (st_plus src buf s)
      | ST_MINUS \<Rightarrow> Inr (st_minus src buf s)
      | ST_MULT \<Rightarrow> Inr (st_mult src buf s)
      | ST_MOD \<Rightarrow> Inr (st_mod src buf s)
      | ST_NOT \<Rightarrow> Inr (st_not src buf s)
      | ST_AND \<Rightarrow> Inr (st_and src buf s)
      | ST_OR \<Rightarrow> Inr (st_or src buf s)
      | ST_XOR \<Rightarrow> Inr (st_xor src buf s)
      | ST_EQ \<Rightarrow> Inr (st_eq src buf s)
      | ST_LT \<Rightarrow> Inr (st_lt src buf s)
      | ST_GT \<Rightarrow> Inr (st_gt src buf s)
      | ST_NUM1 \<Rightarrow> Inr (st_num1 src buf s)
      | ST_NUMDOT \<Rightarrow> Inr (st_numdot src buf s)
      | ST_NUM2 \<Rightarrow> Inr (st_num2 src buf s)
      | ST_NUM3 \<Rightarrow> Inr (st_num3 src buf s)
      | ST_NUM4 \<Rightarrow> Inr (st_num4 src buf s)
      | ST_ID \<Rightarrow> st_id d src buf s
      | ST_DQ \<Rightarrow> Inr (st_dq src buf s)
      | ST_DIV \<Rightarrow> Inr (st_div src buf s)
      | ST_COMMENT2 \<Rightarrow> Inr (st_comment2 src buf s)
      | ST_COMMENT3 \<Rightarrow> Inr (st_comment3 src buf s)
      | ST_COMMENT4 \<Rightarrow> Inr (st_comment4 src buf s)
      | ST_EOF \<Rightarrow> Inr (return_tok ERROR buf s))"

text \<open>Jumping from label to label, at most \<open>fuel\<close> of them; \<open>None\<close> when the fuel is used up.\<close>

fun scan_from :: "rsrv_dic \<Rightarrow> 's source \<Rightarrow> nat \<Rightarrow> lex_state \<Rightarrow> string \<Rightarrow> 's \<Rightarrow>
    (token \<times> string \<times> 's) res option" where
  "scan_from d src 0 st buf s = None"
| "scan_from d src (Suc fuel) st buf s =
     (case scan_step d src st buf s of
        Inl e \<Rightarrow> Some (Inl e)
      | Inr (Inl t, buf', s') \<Rightarrow> Some (Inr (t, buf', s'))
      | Inr (Inr st', buf', s') \<Rightarrow> scan_from d src fuel st' buf' s')"

definition scan :: "rsrv_dic \<Rightarrow> 's source \<Rightarrow> nat \<Rightarrow> 's \<Rightarrow> (token \<times> string \<times> 's) res option" where
  "scan d src fuel s = scan_from d src fuel ST_INIT '''' s"

section \<open>The interface of the scanner\<close>

text \<open>\<open>DUMMY\<close> in \<open>mUngetToken\<close> says that no token has been put back.\<close>

record 's scanner =
  mCurString :: string
  mDic :: rsrv_dic
  mUngetToken :: token
  input :: 's

definition YmslScanner_new :: "(token \<Rightarrow> u32) \<Rightarrow> 's \<Rightarrow> 's scanner res" where
  "YmslScanner_new code s =
     res_bind (RsrvWordDic_new code) (\<lambda>d.
       Inr \<lparr>mCurString = '''', mDic = d, mUngetToken = DUMMY, input = s\<rparr>)"

definition read_token :: "'s source \<Rightarrow> nat \<Rightarrow> 's scanner \<Rightarrow> (token \<times> 's scanner) res option" where
  "read_token src fuel sc =
     (if mUngetToken sc \<noteq> DUMMY then Some (Inr (mUngetToken sc, sc\<lparr>mUngetToken := DUMMY\<rparr>))
      else map_option (\<lambda>r. res_bind r (\<lambda>(t, buf, s). Inr (t, sc\<lparr>mCurString := buf, input := s\<rparr>)))
        (scan (mDic sc) src fuel (input sc)))"

definition unget_token :: "token \<Rightarrow> 's scanner \<Rightarrow> 's scanner res" where
  "unget_token t sc =
     res_bind (assert_cond (mUngetToken sc = DUMMY)) (\<lambda>_. Inr (sc\<lparr>mUngetToken := t\<rparr>))"

text \<open>
  \<^verbatim>\<open>strtol\<close> on the text of a number: an optional sign, the leading digits, and the nearest
  \<^verbatim>\<open>long\<close>; \<^verbatim>\<open>cur_int\<close> converts it to \<^verbatim>\<open>Ymsl_INT\<close>.
\<close>

definition digits_val :: "string \<Rightarrow> int" where
  "digits_val ds = foldl (\<lambda>v c. v * 10 + (int (of_char c) - 48)) 0 ds"

definition strtol :: "string \<Rightarrow> int" where
  "strtol str =
     (if take 1 str = ''-'' then max (- (2 ^ 63)) (- digits_val (takeWhile is_digit (tl str)))
      else min (2 ^ 63 - 1) (digits_val (takeWhile is_digit str)))"

definition cur_int :: "'s scanner \<Rightarrow> i32" where
  "cur_int sc = word_of_int (strtol (mCurString sc))"

end
