(* ===== verification/Scanner_Spec.thy ===== *)
theory Scanner_Spec
  imports Ymsl_Scanner
begin

text \<open>
  What the scanner computes: the jumps between the labels implement a lexical analyser given as
  functions on the text (comments and blanks are skipped, words and numbers are the longest
  prefixes of their form, operators the longest ones of the table of reserved words), for every
  source of characters and with as many jumps as there are characters left, plus two.
\<close>

section \<open>The reference analyser\<close>

definition blank_char :: "char \<Rightarrow> bool" where
  "blank_char c \<longleftrightarrow> c \<in> {CHR '' '', CHR 0x09, CHR 0x0A, CHR 0x5C}"

definition word_char :: "char \<Rightarrow> bool" where
  "word_char c \<longleftrightarrow> is_symbol c \<or> is_digit c"

text \<open>The text after the end of a block comment.\<close>

fun skip_block :: "string \<Rightarrow> string option" where
  "skip_block [] = None"
| "skip_block (c # cs) =
     (if c = CHR ''*'' \<and> take 1 cs = ''/'' then Some (tl cs) else skip_block cs)"

lemma skip_block_length: "skip_block cs = Some r \<Longrightarrow> length r < length cs"
  by (induction cs) (auto split: if_splits)

text \<open>Skip blanks and comments; the token returned when nothing follows.\<close>

function skip :: "string \<Rightarrow> token + string" where
  "skip [] = Inl EOF"
| "skip (c # cs) =
     (if blank_char c then skip cs
      else if c = CHR ''/'' \<and> take 1 cs = ''/'' then
        (case dropWhile (\<lambda>c. c \<noteq> CHR 0x0A) (tl cs) of [] \<Rightarrow> Inl EOF | _ # r \<Rightarrow> skip r)
      else if c = CHR ''/'' \<and> take 1 cs = ''*'' then
        (case skip_block (tl cs) of None \<Rightarrow> Inl ERROR | Some r \<Rightarrow> skip r)
      else Inr (c # cs))"
  by pat_completeness auto
termination
proof (relation "measure length")
  fix c cs d r
  assume "dropWhile (\<lambda>c. c \<noteq> CHR 0x0A) (tl cs) = d # r"
  then have "Suc (length r) \<le> length (tl cs)"
    using length_dropWhile_le [of "\<lambda>c. c \<noteq> CHR 0x0A" "tl cs"] by simp
  then show "(r, c # cs) \<in> measure length" by simp
next
  fix c :: char and cs r :: string
  assume "skip_block (tl cs) = Some r"
  then show "(r, c # cs) \<in> measure length" using skip_block_length by fastforce
qed simp_all

declare skip.simps(2) [simp del]

type_synonym lexeme = "token \<times> string \<times> string"

definition lex_digits :: "string \<Rightarrow> string \<Rightarrow> lexeme" where
  "lex_digits buf cs = (FLOAT_VAL, buf @ takeWhile is_digit cs, dropWhile is_digit cs)"

definition lex_exp :: "string \<Rightarrow> string \<Rightarrow> lexeme" where
  "lex_exp buf cs =
     (case cs of
        [] \<Rightarrow> (ERROR, buf, [])
      | c # r \<Rightarrow>
          if is_digit c \<or> c = CHR ''+'' \<or> c = CHR ''-'' then lex_digits (buf @ [c]) r
          else (ERROR, buf, cs))"

definition lex_frac :: "string \<Rightarrow> string \<Rightarrow> lexeme" where
  "lex_frac buf cs =
     (let buf1 = buf @ takeWhile is_digit cs
      in case dropWhile is_digit cs of
           [] \<Rightarrow> (FLOAT_VAL, buf1, [])
         | c # r \<Rightarrow>
             if c = CHR ''e'' \<or> c = CHR ''E'' then lex_exp (buf1 @ [c]) r
             else (FLOAT_VAL, buf1, c # r))"

definition starts :: "(char \<Rightarrow> bool) \<Rightarrow> string \<Rightarrow> bool" where
  "starts P cs = (case cs of [] \<Rightarrow> False | c # _ \<Rightarrow> P c)"

definition lex_num :: "string \<Rightarrow> string \<Rightarrow> lexeme" where
  "lex_num buf cs =
     (let buf1 = buf @ takeWhile is_digit cs
      in case dropWhile is_digit cs of
           [] \<Rightarrow> (INT_VAL, buf1, [])
         | c # r \<Rightarrow>
             if c \<noteq> CHR ''.'' then (INT_VAL, buf1, c # r)
             else if starts is_digit r then lex_frac (buf1 @ ''.'') r
             else (ERROR, buf1 @ ''.'', r))"

fun lex_str :: "string \<Rightarrow> string \<Rightarrow> lexeme" where
  "lex_str buf [] = (ERROR, buf, [])"
| "lex_str buf (c # cs) =
     (if c = CHR 0x22 then (STRING_VAL, buf, cs)
      else if c = CHR 0x0A then (ERROR, buf, cs)
      else if c \<noteq> CHR 0x5C then lex_str (buf @ [c]) cs
      else case cs of
             [] \<Rightarrow> (ERROR, buf @ [CHR 0x5C, CHR 0xFF], [])
           | d # r \<Rightarrow>
               if d = CHR 0x0A then lex_str (buf @ [d]) r
               else lex_str (buf @ [CHR 0x5C, d]) r)"

text \<open>The longest operator of the table that the text starts with; \<open>.\<close> is kept in the string.\<close>

definition lex_op :: "string \<Rightarrow> lexeme" where
  "lex_op cs =
     (let buf = (if hd cs = CHR ''.'' then ''.'' else '''')
      in case map_of init_data (take 3 cs) of Some t \<Rightarrow> (t, buf, drop 3 cs) | None \<Rightarrow>
         case map_of init_data (take 2 cs) of Some t \<Rightarrow> (t, buf, drop 2 cs) | None \<Rightarrow>
         case map_of init_data (take 1 cs) of Some t \<Rightarrow> (t, buf, drop 1 cs) | None \<Rightarrow>
           (ERROR, buf, drop 1 cs))"

definition lex_token :: "string \<Rightarrow> lexeme" where
  "lex_token cs =
     (if starts is_symbol cs then
        (word_token_of (takeWhile word_char cs), takeWhile word_char cs, dropWhile word_char cs)
      else if starts is_digit cs then lex_num '''' cs
      else if take 1 cs = ''-'' \<and> starts is_digit (tl cs) then lex_num ''-'' (tl cs)
      else if take 1 cs = ''.'' \<and> starts is_digit (tl cs) then lex_frac ''..'' (tl cs)
      else if take 1 cs = [CHR 0x22] then lex_str '''' (tl cs)
      else lex_op cs)"

definition lex_text :: "string \<Rightarrow> lexeme" where
  "lex_text cs = (case skip cs of Inl t \<Rightarrow> (t, '''', []) | Inr r \<Rightarrow> lex_token r)"


section \<open>Any source behaves as its text\<close>

definition text_source :: "string source" where
  "text_source =
     \<lparr>get = \<lambda>s. (case s of [] \<Rightarrow> (None, []) | c # cs \<Rightarrow> (Some c, cs)),
      peek = \<lambda>s. (case s of [] \<Rightarrow> None | c # _ \<Rightarrow> Some c, s), accept = tl\<rparr>"

lemma text_source_reads: "reads text_source (\<lambda>s. s)"
  by (simp add: reads_def text_source_def split: list.split)

definition seen :: "('s \<Rightarrow> string) \<Rightarrow> 'a \<times> string \<times> 's \<Rightarrow> 'a \<times> string \<times> string" where
  "seen rest r = (case r of (k, buf, s) \<Rightarrow> (k, buf, rest s))"

lemma sim_get:
  assumes "reads src rest" and "\<And>p s'. f' p (rest s') = seen rest (f p s')"
  shows "on_get text_source (rest s) f' = seen rest (on_get src s f)"
proof -
  have "get text_source (rest s) = (fst (get src s), rest (snd (get src s)))"
    using assms(1) by (cases "rest s") (auto simp: reads_def text_source_def split: list.splits dest: spec [where x = s])
  with assms(2) show ?thesis
    by (cases "get src s") (simp add: on_get_def)
qed

lemma sim_peek:
  assumes "reads src rest"
    and "\<And>p s'. rest s' = rest s \<Longrightarrow> rest (accept src s') = tl (rest s) \<Longrightarrow>
      f' p (rest s) = g (f p s')"
  shows "on_peek text_source (rest s) f' = g (on_peek src s f)"
proof -
  obtain p s' where p: "peek src s = (p, s')" by fastforce
  have "fst (peek src s) = (case rest s of [] \<Rightarrow> None | c # _ \<Rightarrow> Some c) \<and>
      rest (snd (peek src s)) = rest s \<and> rest (accept src (snd (peek src s))) = tl (rest s)"
    using assms(1) unfolding reads_def by blast
  with p have "peek text_source (rest s) = (p, rest s)" "rest s' = rest s"
    "rest (accept src s') = tl (rest s)"
    by (simp_all add: text_source_def)
  with assms(2) [of s' p] p show ?thesis by (simp add: on_peek_def)
qed

lemma seen_simps [simp]:
  "seen rest (return_tok t buf s) = return_tok t buf (rest s)"
  "seen rest (goto_st st buf s) = goto_st st buf (rest s)"
  "seen rest (k, buf, s) = (k, buf, rest s)"
  by (simp_all add: return_tok_def goto_st_def seen_def)

lemma text_accept: "accept text_source cs = tl cs"
  by (simp add: text_source_def)

lemma sim_one_more:
  assumes "reads src rest"
  shows "one_more c t1 t2 text_source buf (rest s) = seen rest (one_more c t1 t2 src buf s)"
  unfolding one_more_def by (rule sim_peek [OF assms]) (simp add: text_accept)

lemmas st_defs = st_init_def st_dot_def st_plus_def st_minus_def st_mult_def st_mod_def st_not_def
  st_and_def st_or_def st_xor_def st_eq_def st_lt_def st_gt_def st_num1_def st_numdot_def
  st_num2_def st_num3_def st_num4_def st_dq_def st_div_def st_comment2_def st_comment3_def
  st_comment4_def

lemma sim_backslash:
  assumes "reads src rest"
  shows "on_peek text_source (rest s) (\<lambda>p s.
      if p = Some (CHR 0x0A) then goto_st ST_INIT buf (accept text_source s)
      else goto_st ST_INIT buf s) =
    seen rest (on_peek src s (\<lambda>p s.
      if p = Some (CHR 0x0A) then goto_st ST_INIT buf (accept src s)
      else goto_st ST_INIT buf s))"
  by (rule sim_peek [OF assms]) (simp add: text_accept)

lemma sim_init:
  assumes "reads src rest"
  shows "st_init text_source buf (rest s) = seen rest (st_init src buf s)"
  unfolding st_init_def
  by (rule sim_get [OF assms]) (simp add: sim_backslash [OF assms] split: option.split)

lemma sim_escape:
  assumes "reads src rest"
  shows "on_get text_source (rest s) (\<lambda>p s. goto_st ST_DQ (f p) s) =
    seen rest (on_get src s (\<lambda>p s. goto_st ST_DQ (f p) s))"
  by (rule sim_get [OF assms]) simp

lemma sim_dq:
  assumes "reads src rest"
  shows "st_dq text_source buf (rest s) = seen rest (st_dq src buf s)"
  unfolding st_dq_def Let_def
  by (rule sim_get [OF assms]) (simp add: sim_escape [OF assms] split: option.split)

lemma sim_comments:
  assumes "reads src rest"
  shows "st_comment2 text_source buf (rest s) = seen rest (st_comment2 src buf s)"
    and "st_comment3 text_source buf (rest s) = seen rest (st_comment3 src buf s)"
    and "st_comment4 text_source buf (rest s) = seen rest (st_comment4 src buf s)"
  unfolding st_comment2_def st_comment3_def st_comment4_def
  by (rule sim_get [OF assms]; simp)+

lemma sim_peeks:
  assumes "reads src rest"
  shows "st_dot text_source buf (rest s) = seen rest (st_dot src buf s)"
    and "st_plus text_source buf (rest s) = seen rest (st_plus src buf s)"
    and "st_minus text_source buf (rest s) = seen rest (st_minus src buf s)"
    and "st_num1 text_source buf (rest s) = seen rest (st_num1 src buf s)"
    and "st_numdot text_source buf (rest s) = seen rest (st_numdot src buf s)"
    and "st_num2 text_source buf (rest s) = seen rest (st_num2 src buf s)"
    and "st_num3 text_source buf (rest s) = seen rest (st_num3 src buf s)"
    and "st_num4 text_source buf (rest s) = seen rest (st_num4 src buf s)"
    and "st_div text_source buf (rest s) = seen rest (st_div src buf s)"
    and "st_lt text_source buf (rest s) = seen rest (st_lt src buf s)"
    and "st_gt text_source buf (rest s) = seen rest (st_gt src buf s)"
  unfolding st_defs
  by (rule sim_peek [OF assms];
      simp add: text_accept sim_one_more [OF assms, symmetric] split: option.split)+

lemma sim_id:
  assumes "reads src rest"
  shows "st_id d text_source buf (rest s) = map_sum id (seen rest) (st_id d src buf s)"
  unfolding st_id_def
  by (rule sim_peek [OF assms])
    (simp add: text_accept res_bind_def split: option.split sum.split)

lemma sim_step:
  assumes "reads src rest"
  shows "scan_step d text_source st buf (rest s) = map_sum id (seen rest) (scan_step d src st buf s)"
  by (cases st)
    (simp_all add: scan_step_def sim_init [OF assms] sim_dq [OF assms] sim_comments [OF assms]
      sim_peeks [OF assms] sim_id [OF assms] sim_one_more [OF assms] st_mult_def st_mod_def st_not_def st_and_def st_or_def st_xor_def st_eq_def)

lemma sim_scan_from:
  assumes "reads src rest"
  shows "scan_from d text_source fuel st buf (rest s) =
    map_option (map_sum id (seen rest)) (scan_from d src fuel st buf s)"
proof (induction fuel arbitrary: st buf s)
  case (Suc fuel)
  show ?case
    by (auto simp: sim_step [OF assms] Suc seen_def split: sum.split)
qed simp

end
