(* ===== verification/Scanner_Correct.thy ===== *)
theory Scanner_Correct
  imports Scanner_Spec
begin

text \<open>
  The correctness of the scanner: every run of \<^verbatim>\<open>YmslScanner::scan\<close> with enough fuel returns the
  lexeme of the reference analyser, and what follows for the tokens of a whole text.
\<close>

section \<open>Runs from a label\<close>

definition dic :: "(token \<Rightarrow> u32) \<Rightarrow> rsrv_dic" where
  "dic code = dic_of code 79 init_data"

definition runs :: "(token \<Rightarrow> u32) \<Rightarrow> lex_state \<Rightarrow> string \<Rightarrow> string \<Rightarrow> lexeme \<Rightarrow> bool" where
  "runs code st buf cs r \<longleftrightarrow>
     (\<forall>fuel \<ge> length cs + 2. scan_from (dic code) text_source fuel st buf cs = Some (Inr r))"

lemma runs_stop:
  assumes "scan_step (dic code) text_source st buf cs = Inr (Inl t, buf', cs')"
  shows "runs code st buf cs (t, buf', cs')"
  unfolding runs_def
proof (intro allI impI)
  fix fuel
  assume "length cs + 2 \<le> fuel"
  then obtain n where "fuel = Suc n" by (cases fuel) auto
  with assms show "scan_from (dic code) text_source fuel st buf cs = Some (Inr (t, buf', cs'))"
    by simp
qed

lemma runs_goto:
  assumes "scan_step (dic code) text_source st buf cs = Inr (Inr st', buf', cs')"
    and "length cs' < length cs" and "runs code st' buf' cs' r"
  shows "runs code st buf cs r"
  unfolding runs_def
proof (intro allI impI)
  fix fuel
  assume "length cs + 2 \<le> fuel"
  then obtain n where n: "fuel = Suc n" "length cs' + 2 \<le> n"
    using assms(2) by (cases fuel) auto
  then have "scan_from (dic code) text_source n st' buf' cs' = Some (Inr r)"
    using assms(3) unfolding runs_def by blast
  with n(1) assms(1) show "scan_from (dic code) text_source fuel st buf cs = Some (Inr r)"
    by simp
qed

lemma runs_eof:
  assumes "scan_step (dic code) text_source st buf [] = Inr (Inr ST_EOF, buf, [])"
  shows "runs code st buf [] (ERROR, buf, [])"
  unfolding runs_def
proof (intro allI impI)
  fix fuel :: nat
  assume "length [] + 2 \<le> fuel"
  then obtain n where "fuel = Suc (Suc n)"
    by (metis add_2_eq_Suc le_Suc_ex list.size(3) add_0)
  with assms show "scan_from (dic code) text_source fuel st buf [] = Some (Inr (ERROR, buf, []))"
    by (simp add: scan_step_def return_tok_def)
qed

lemma runs_by:
  assumes "case scan_step (dic code) text_source st buf cs of
      Inl e \<Rightarrow> False
    | Inr (Inl t, buf', cs') \<Rightarrow> r = (t, buf', cs')
    | Inr (Inr st', buf', cs') \<Rightarrow> length cs' < length cs \<and> runs code st' buf' cs' r"
  shows "runs code st buf cs r"
proof (cases "scan_step (dic code) text_source st buf cs")
  case (Inr x)
  obtain k buf' cs' where x: "x = (k, buf', cs')" by (cases x)
  show ?thesis
  proof (cases k)
    case (Inl t)
    with x assms \<open>_ = Inr x\<close> show ?thesis by (auto intro: runs_stop)
  next
    case (Inr st')
    with x assms \<open>_ = Inr x\<close> show ?thesis by (auto intro: runs_goto)
  qed
qed (use assms in simp)

lemma on_text:
  "on_get text_source [] f = f None []"
  "on_get text_source (c # cs) f = f (Some c) cs"
  "on_peek text_source [] f = f None []"
  "on_peek text_source (c # cs) f = f (Some c) (c # cs)"
  "accept text_source cs = tl cs"
  by (simp_all add: on_get_def on_peek_def text_source_def)

lemmas run_simps = on_text scan_step_def return_tok_def goto_st_def digit_next_def one_more_def

section \<open>Numbers, words, strings and comments\<close>

lemma runs_num4: "runs code ST_NUM4 buf cs (lex_digits buf cs)"
proof (induction cs arbitrary: buf)
  case Nil
  show ?case by (intro runs_by) (auto simp: run_simps st_num4_def lex_digits_def)
next
  case (Cons c cs)
  show ?case
  proof (cases "is_digit c")
    case True
    then have "lex_digits buf (c # cs) = lex_digits (buf @ [c]) cs" by (simp add: lex_digits_def)
    with True Cons [of "buf @ [c]"] show ?thesis
      by (intro runs_by) (auto simp: run_simps st_num4_def)
  next
    case False
    then show ?thesis
      by (intro runs_by) (auto simp: run_simps st_num4_def lex_digits_def)
  qed
qed

lemma runs_num3: "runs code ST_NUM3 buf cs (lex_exp buf cs)"
proof (cases cs)
  case Nil
  then show ?thesis by (intro runs_by) (auto simp: run_simps st_num3_def lex_exp_def)
next
  case (Cons c r)
  then show ?thesis
    using runs_num4 [of code "buf @ [c]" r]
    by (intro runs_by)
      (auto simp: run_simps st_num3_def lex_exp_def)
qed

lemma lex_frac_step: "is_digit c \<Longrightarrow> lex_frac buf (c # cs) = lex_frac (buf @ [c]) cs"
  by (simp add: lex_frac_def)

lemma lex_num_step: "is_digit c \<Longrightarrow> lex_num buf (c # cs) = lex_num (buf @ [c]) cs"
  by (simp add: lex_num_def)

lemma runs_num2: "runs code ST_NUM2 buf cs (lex_frac buf cs)"
proof (induction cs arbitrary: buf)
  case Nil
  show ?case by (intro runs_by) (auto simp: run_simps st_num2_def lex_frac_def)
next
  case (Cons c cs)
  consider "is_digit c" | "\<not> is_digit c" "c = CHR ''e'' \<or> c = CHR ''E''"
    | "\<not> is_digit c" "c \<noteq> CHR ''e''" "c \<noteq> CHR ''E''" by blast
  then show ?case
  proof cases
    case 1
    with Cons [of "buf @ [c]"] show ?thesis
      by (intro runs_by) (auto simp: run_simps st_num2_def lex_frac_step)
  next
    case 2
    with runs_num3 [of code "buf @ [c]" cs] show ?thesis
      by (intro runs_by) (auto simp: run_simps st_num2_def lex_frac_def)
  next
    case 3
    then show ?thesis
      by (intro runs_by) (auto simp: run_simps st_num2_def lex_frac_def)
  qed
qed

lemma runs_numdot:
  "runs code ST_NUMDOT buf cs (if starts is_digit cs then lex_frac buf cs else (ERROR, buf, cs))"
proof (cases cs)
  case Nil
  then show ?thesis by (intro runs_by) (auto simp: run_simps st_numdot_def starts_def)
next
  case (Cons c r)
  then show ?thesis
    using runs_num2 [of code "buf @ [c]" r]
    by (intro runs_by)
      (auto simp: run_simps st_numdot_def starts_def lex_frac_step)
qed

lemma runs_num1: "runs code ST_NUM1 buf cs (lex_num buf cs)"
proof (induction cs arbitrary: buf)
  case Nil
  show ?case by (intro runs_by) (auto simp: run_simps st_num1_def lex_num_def)
next
  case (Cons c cs)
  consider "is_digit c" | "\<not> is_digit c" "c = CHR ''.''" | "\<not> is_digit c" "c \<noteq> CHR ''.''"
    by blast
  then show ?case
  proof cases
    case 1
    with Cons [of "buf @ [c]"] show ?thesis
      by (intro runs_by) (auto simp: run_simps st_num1_def lex_num_step)
  next
    case 2
    with runs_numdot [of code "buf @ ''.''" cs] show ?thesis
      by (intro runs_by) (auto simp: run_simps st_num1_def lex_num_def)
  next
    case 3
    then show ?thesis
      by (intro runs_by) (auto simp: run_simps st_num1_def lex_num_def)
  qed
qed

lemma runs_id:
  "runs code ST_ID buf cs
    (word_token_of (buf @ takeWhile word_char cs), buf @ takeWhile word_char cs,
     dropWhile word_char cs)"
proof (induction cs arbitrary: buf)
  case Nil
  show ?case
    by (intro runs_by) (auto simp: run_simps st_id_def dic_def dic_token_word)
next
  case (Cons c cs)
  show ?case
  proof (cases "word_char c")
    case True
    with Cons [of "buf @ [c]"] show ?thesis
      by (intro runs_by) (auto simp: run_simps st_id_def word_char_def [symmetric])
  next
    case False
    then show ?thesis
      by (intro runs_by) (auto simp: run_simps st_id_def word_char_def dic_def dic_token_word)
  qed
qed

lemma runs_dq: "runs code ST_DQ buf cs (lex_str buf cs)"
proof (induction buf cs rule: lex_str.induct)
  case (1 buf)
  show ?case by (intro runs_by) (auto simp: run_simps st_dq_def)
next
  case (2 buf c cs)
  consider "c = CHR 0x22 \<or> c = CHR 0x0A" | "c \<noteq> CHR 0x22" "c \<noteq> CHR 0x0A" "c \<noteq> CHR 0x5C"
    | "c = CHR 0x5C" by blast
  then show ?case
  proof cases
    case 1
    then show ?thesis by (intro runs_by) (auto simp: run_simps st_dq_def)
  next
    case c: 2
    with 2 show ?thesis
      by (intro runs_by) (auto simp: run_simps st_dq_def)
  next
    case c: 3
    show ?thesis
    proof (cases cs)
      case Nil
      have "runs code ST_DQ (buf @ [CHR 0x5C, CHR 0xFF]) [] (lex_str (buf @ [CHR 0x5C, CHR 0xFF]) [])"
        by (intro runs_by) (auto simp: run_simps st_dq_def)
      with c Nil show ?thesis
        by (intro runs_by) (auto simp: run_simps st_dq_def)
    next
      case (Cons d r)
      with c 2(2,3) show ?thesis
        by (intro runs_by) (auto simp: run_simps st_dq_def)
    qed
  qed
qed

lemma runs_comment2:
  assumes "case dropWhile (\<lambda>c. c \<noteq> CHR 0x0A) cs of
      [] \<Rightarrow> r = (EOF, buf, []) | _ # cs' \<Rightarrow> runs code ST_INIT buf cs' r"
  shows "runs code ST_COMMENT2 buf cs r"
  using assms by (induction cs; intro runs_by) (auto simp: run_simps st_comment2_def)

lemma runs_comment_block:
  "(case skip_block cs of None \<Rightarrow> r = (ERROR, buf, []) | Some cs' \<Rightarrow> runs code ST_INIT buf cs' r)
     \<Longrightarrow> runs code ST_COMMENT3 buf cs r"
  "(case skip_block (CHR ''*'' # cs) of
      None \<Rightarrow> r = (ERROR, buf, []) | Some cs' \<Rightarrow> runs code ST_INIT buf cs' r)
     \<Longrightarrow> runs code ST_COMMENT4 buf cs r"
proof (induction cs)
  case Nil
  {
    case 1
    then show ?case by (auto simp: run_simps st_comment3_def intro!: runs_eof)
  next
    case 2
    then show ?case by (auto simp: run_simps st_comment4_def intro!: runs_eof)
  }
next
  case (Cons c cs)
  {
    case 1
    with Cons show ?case
      by (cases "c = CHR ''*''"; intro runs_by) (auto simp: run_simps st_comment3_def)
  next
    case 2
    with Cons show ?case
      by (cases "c = CHR ''*''"; intro runs_by) (auto simp: run_simps st_comment4_def)
  }
qed

section \<open>Operators\<close>

text \<open>The words of the table with a given first character.\<close>

lemma map_of_first:
  "map_of xs (c # w) = map_of (filter (\<lambda>p. fst p \<noteq> [] \<and> hd (fst p) = c) xs) (c # w)"
  by (induction xs) auto


lemma table_words:
  "map_of init_data (CHR ''+'' # w) =
     (if w = '''' then Some (Oper PLUS) else if w = ''+'' then Some (Punct PLUSPLUS)
      else if w = ''='' then Some (Punct EQPLUS) else None)"
  "map_of init_data (CHR ''-'' # w) =
     (if w = '''' then Some (Oper MINUS) else if w = ''-'' then Some (Punct MINUSMINUS)
      else if w = ''='' then Some (Punct EQMINUS) else None)"
  "map_of init_data (CHR ''*'' # w) =
     (if w = '''' then Some (Oper MULT) else if w = ''='' then Some (Punct EQMULT) else None)"
  "map_of init_data (CHR ''%'' # w) =
     (if w = '''' then Some (Oper MOD) else if w = ''='' then Some (Punct EQMOD) else None)"
  "map_of init_data (CHR ''/'' # w) =
     (if w = '''' then Some (Oper DIV) else if w = ''='' then Some (Punct EQDIV) else None)"
  "map_of init_data (CHR ''&'' # w) =
     (if w = '''' then Some (Oper BITAND) else if w = ''='' then Some (Punct EQBITAND) else None)"
  "map_of init_data (CHR ''|'' # w) =
     (if w = '''' then Some (Oper BITOR) else if w = ''='' then Some (Punct EQBITOR) else None)"
  "map_of init_data (CHR ''^'' # w) =
     (if w = '''' then Some (Oper BITXOR) else if w = ''='' then Some (Punct EQBITXOR) else None)"
  "map_of init_data (CHR ''!'' # w) = (if w = ''='' then Some (Oper NOTEQ) else None)"
  "map_of init_data (CHR ''='' # w) =
     (if w = '''' then Some (Punct EQ) else if w = ''='' then Some (Oper EQEQ) else None)"
  "map_of init_data (CHR ''<'' # w) =
     (if w = '''' then Some (Oper LT) else if w = ''='' then Some (Oper LE)
      else if w = ''<'' then Some (Oper LSHIFT)
      else if w = ''<='' then Some (Punct EQLSHIFT) else None)"
  "map_of init_data (CHR ''>'' # w) =
     (if w = '''' then Some (Oper GT) else if w = ''='' then Some (Oper GE)
      else if w = ''>'' then Some (Oper RSHIFT)
      else if w = ''>='' then Some (Punct EQRSHIFT) else None)"
  "map_of init_data (CHR ''.'' # w) = (if w = '''' then Some (Punct DOT) else None)"
  unfolding map_of_first [of init_data] by (simp_all add: init_data_def)

lemma table_single:
  "map_of init_data (CHR '':'' # w) = (if w = '''' then Some (Punct COLON) else None)"
  "map_of init_data (CHR '';'' # w) = (if w = '''' then Some (Punct SEMI) else None)"
  "map_of init_data (CHR '','' # w) = (if w = '''' then Some (Punct COMMA) else None)"
  "map_of init_data (CHR ''?'' # w) = (if w = '''' then Some (Punct QST) else None)"
  "map_of init_data (CHR ''~'' # w) = (if w = '''' then Some (Oper BITNEG) else None)"
  "map_of init_data (CHR ''('' # w) = (if w = '''' then Some (Punct LP) else None)"
  "map_of init_data (CHR '')'' # w) = (if w = '''' then Some (Punct RP) else None)"
  "map_of init_data (CHR ''{'' # w) = (if w = '''' then Some (Punct LCB) else None)"
  "map_of init_data (CHR ''}'' # w) = (if w = '''' then Some (Punct RCB) else None)"
  "map_of init_data (CHR ''['' # w) = (if w = '''' then Some (Punct LBK) else None)"
  "map_of init_data (CHR '']'' # w) = (if w = '''' then Some (Punct RBK) else None)"
  unfolding map_of_first [of init_data] by (simp_all add: init_data_def)

definition op_first :: "char set" where
  "op_first = set ''+-*%/&|^!=<>.:;,?~(){}[]''"

lemma table_none:
  assumes "c \<notin> op_first" and "\<not> is_symbol c"
  shows "map_of init_data (c # w) = None"
proof -
  have "\<forall>p\<in>set init_data. hd (fst p) \<in> op_first \<or> is_symbol (hd (fst p))"
    by (simp add: init_data_def op_first_def is_symbol_def)
  with assms have "(c # w) \<notin> fst ` set init_data" by force
  then show ?thesis by (simp add: map_of_eq_None_iff)
qed

lemma take_Cons_numeral:
  "take 3 (c # cs) = c # take 2 cs" "take 2 (c # cs) = c # take 1 cs" "take 1 (c # cs) = [c]"
  "drop 3 (c # cs) = drop 2 cs" "drop 2 (c # cs) = drop 1 cs" "drop 1 (c # cs) = cs"
  by (simp_all add: numeral_eq_Suc)

lemma runs_one_more:
  assumes "(st, c) \<in> {(ST_MULT, CHR ''*''), (ST_MOD, CHR ''%''), (ST_NOT, CHR ''!''),
      (ST_AND, CHR ''&''), (ST_OR, CHR ''|''), (ST_XOR, CHR ''^''), (ST_EQ, CHR ''='')}"
  shows "runs code st '''' cs (lex_op (c # cs))"
  using assms
  by (cases cs; intro runs_by)
    (auto simp: run_simps st_mult_def st_mod_def st_not_def st_and_def st_or_def st_xor_def
      st_eq_def lex_op_def Let_def take_Cons_numeral table_words simp del: One_nat_def)


lemma runs_one_more_each:
  "runs code ST_MULT '''' cs (lex_op (CHR ''*'' # cs))"
  "runs code ST_MOD '''' cs (lex_op (CHR ''%'' # cs))"
  "runs code ST_NOT '''' cs (lex_op (CHR ''!'' # cs))"
  "runs code ST_AND '''' cs (lex_op (CHR ''&'' # cs))"
  "runs code ST_OR '''' cs (lex_op (CHR ''|'' # cs))"
  "runs code ST_XOR '''' cs (lex_op (CHR ''^'' # cs))"
  "runs code ST_EQ '''' cs (lex_op (CHR ''='' # cs))"
  by (rule runs_one_more; simp)+

lemmas op_simps = run_simps lex_op_def Let_def take_Cons_numeral table_words

lemma runs_plus: "runs code ST_PLUS '''' cs (lex_op (CHR ''+'' # cs))"
  by (cases cs; intro runs_by) (auto simp: st_plus_def op_simps simp del: One_nat_def)

lemma runs_div:
  assumes "take 1 cs \<noteq> ''/''" and "take 1 cs \<noteq> ''*''"
  shows "runs code ST_DIV '''' cs (lex_op (CHR ''/'' # cs))"
  using assms
  by (cases cs; intro runs_by) (auto simp: st_div_def op_simps simp del: One_nat_def)

lemma runs_minus:
  "runs code ST_MINUS '''' cs
    (if starts is_digit cs then lex_num ''-'' cs else lex_op (CHR ''-'' # cs))"
proof (cases cs)
  case Nil
  then show ?thesis
    by (intro runs_by) (auto simp: st_minus_def starts_def op_simps simp del: One_nat_def)
next
  case (Cons c r)
  have "\<not> is_digit (CHR ''='')" "\<not> is_digit (CHR ''-'')" by (simp_all add: is_digit_def)
  then show ?thesis
    using Cons runs_num1 [of code "[CHR ''-'', c]" r]
    by (intro runs_by)
      (auto simp: st_minus_def starts_def lex_num_step op_simps simp del: One_nat_def)
qed

lemma runs_dot:
  "runs code ST_DOT ''.'' cs
    (if starts is_digit cs then lex_frac ''..'' cs else lex_op (CHR ''.'' # cs))"
proof (cases cs)
  case Nil
  then show ?thesis
    by (intro runs_by) (auto simp: st_dot_def starts_def op_simps simp del: One_nat_def)
next
  case (Cons c r)
  with runs_num2 [of code "[CHR ''.'', CHR ''.'', c]" r] show ?thesis
    by (intro runs_by)
      (auto simp: st_dot_def starts_def lex_frac_step op_simps simp del: One_nat_def)
qed

lemma runs_shift:
  "runs code ST_LT '''' cs (lex_op (CHR ''<'' # cs))"
  "runs code ST_GT '''' cs (lex_op (CHR ''>'' # cs))"
proof -
  consider "cs = []" | c where "cs = [c]" | c d r where "cs = c # d # r"
    by (cases cs; cases "tl cs") auto
  then show "runs code ST_LT '''' cs (lex_op (CHR ''<'' # cs))"
    "runs code ST_GT '''' cs (lex_op (CHR ''>'' # cs))"
    by (cases; intro runs_by;
        auto simp: st_lt_def st_gt_def op_simps simp del: One_nat_def)+
qed


section \<open>A run of the scanner\<close>

lemma lex_blank: "blank_char c \<Longrightarrow> lex_text (c # cs) = lex_text cs"
  by (simp add: lex_text_def skip.simps(2))

lemma lex_line_comment:
  "lex_text (CHR ''/'' # CHR ''/'' # cs) =
    (case dropWhile (\<lambda>c. c \<noteq> CHR 0x0A) cs of [] \<Rightarrow> (EOF, '''', []) | _ # r \<Rightarrow> lex_text r)"
  by (simp add: lex_text_def skip.simps(2) blank_char_def del: dropWhile_eq_Nil_conv split: list.split)

lemma lex_block_comment:
  "lex_text (CHR ''/'' # CHR ''*'' # cs) =
    (case skip_block cs of None \<Rightarrow> (ERROR, '''', []) | Some r \<Rightarrow> lex_text r)"
  by (simp add: lex_text_def skip.simps(2) blank_char_def split: option.split)

lemma lex_significant:
  assumes "\<not> blank_char c" and "c = CHR ''/'' \<longrightarrow> take 1 cs \<noteq> ''/'' \<and> take 1 cs \<noteq> ''*''"
  shows "lex_text (c # cs) = lex_token (c # cs)"
  using assms by (cases "c = CHR ''/''") (simp_all add: lex_text_def skip.simps(2))

lemma lex_op_single:
  "lex_op (CHR '':'' # cs) = (Punct COLON, '''', cs)"
  "lex_op (CHR '';'' # cs) = (Punct SEMI, '''', cs)"
  "lex_op (CHR '','' # cs) = (Punct COMMA, '''', cs)"
  "lex_op (CHR ''?'' # cs) = (Punct QST, '''', cs)"
  "lex_op (CHR ''~'' # cs) = (Oper BITNEG, '''', cs)"
  "lex_op (CHR ''('' # cs) = (Punct LP, '''', cs)"
  "lex_op (CHR '')'' # cs) = (Punct RP, '''', cs)"
  "lex_op (CHR ''{'' # cs) = (Punct LCB, '''', cs)"
  "lex_op (CHR ''}'' # cs) = (Punct RCB, '''', cs)"
  "lex_op (CHR ''['' # cs) = (Punct LBK, '''', cs)"
  "lex_op (CHR '']'' # cs) = (Punct RBK, '''', cs)"
  by (cases cs; simp add: lex_op_def take_Cons_numeral table_single del: One_nat_def)+

definition plain_first :: "char \<Rightarrow> bool" where
  "plain_first c \<longleftrightarrow> \<not> blank_char c \<and> \<not> is_symbol c \<and> \<not> is_digit c \<and>
     c \<notin> {CHR ''.'', CHR ''/'', CHR 0x22, CHR ''-''}"

lemma lex_plain: "plain_first c \<Longrightarrow> lex_text (c # cs) = lex_op (c # cs)"
  using lex_significant [of c cs]
  by (auto simp: plain_first_def lex_token_def starts_def)

lemma runs_plain:
  assumes "plain_first c"
  shows "runs code ST_INIT '''' (c # cs) (lex_text (c # cs))"
proof -
  have c: "\<not> is_symbol c" "\<not> is_digit c" "c \<noteq> CHR ''.''" "c \<noteq> CHR 0x5C"
    using assms by (auto simp: plain_first_def blank_char_def)
  then have step: "scan_step (dic code) text_source ST_INIT '''' (c # cs) = Inr (first_char c, '''', cs)"
    by (simp add: run_simps st_init_def)
  consider
      "c \<in> set ''*%!&|^=''" | "c = CHR ''+''" | "c = CHR ''<'' \<or> c = CHR ''>''"
    | "c \<in> set '':;,?~(){}[]''" | "c \<notin> op_first"
    using assms by (auto simp: op_first_def plain_first_def)
  then have "case first_char c of
      Inl t \<Rightarrow> lex_op (c # cs) = (t, '''', cs)
    | Inr st \<Rightarrow> runs code st '''' cs (lex_op (c # cs))"
  proof cases
    case 1
    then have "c = CHR ''*'' \<or> c = CHR ''%'' \<or> c = CHR ''!'' \<or> c = CHR ''&'' \<or> c = CHR ''|'' \<or>
        c = CHR ''^'' \<or> c = CHR ''=''" by simp
    then show ?thesis
      by (elim disjE) (simp_all add: first_char_def runs_one_more_each)
  next
    case 2
    then show ?thesis by (simp add: first_char_def runs_plus)
  next
    case 3
    then show ?thesis by (auto simp: first_char_def runs_shift)
  next
    case 4
    then have "c = CHR '':'' \<or> c = CHR '';'' \<or> c = CHR '','' \<or> c = CHR ''?'' \<or> c = CHR ''~'' \<or>
        c = CHR ''('' \<or> c = CHR '')'' \<or> c = CHR ''{'' \<or> c = CHR ''}'' \<or> c = CHR ''['' \<or>
        c = CHR '']''" by simp
    then show ?thesis
      by (elim disjE) (simp_all add: first_char_def lex_op_single)
  next
    case 5
    with assms c have "first_char c = Inl ERROR"
      by (simp add: first_char_def op_first_def plain_first_def blank_char_def)
    moreover have "lex_op (c # cs) = (ERROR, '''', cs)"
      using c(3) by (simp add: lex_op_def take_Cons_numeral table_none [OF 5 c(1)] del: One_nat_def)
    ultimately show ?thesis by simp
  qed
  then have "runs code ST_INIT '''' (c # cs) (lex_op (c # cs))"
    by (intro runs_by) (simp add: step split: sum.splits)
  with lex_plain [OF assms] show ?thesis by simp
qed


lemma runs_init: "runs code ST_INIT '''' cs (lex_text cs)"
proof (induction cs rule: length_induct)
  case (1 cs)
  then have IH: "runs code ST_INIT '''' r (lex_text r)" if "length r < length cs" for r
    using that by blast
  show ?case
  proof (cases cs)
    case Nil
    then show ?thesis by (intro runs_by) (simp add: run_simps st_init_def lex_text_def)
  next
    case (Cons c r)
    have comment2: "runs code ST_COMMENT2 '''' q
        (case dropWhile (\<lambda>c. c \<noteq> CHR 0x0A) q of [] \<Rightarrow> (EOF, '''', []) | _ # r \<Rightarrow> lex_text r)"
      if "length q < length cs" for q
      using that IH length_dropWhile_le [of "\<lambda>c. c \<noteq> CHR 0x0A" q]
      by (intro runs_comment2) (auto simp del: dropWhile_eq_Nil_conv split: list.split)
    have comment3: "runs code ST_COMMENT3 '''' q
        (case skip_block q of None \<Rightarrow> (ERROR, '''', []) | Some r \<Rightarrow> lex_text r)"
      if "length q < length cs" for q
      using that IH skip_block_length [of q]
      by (intro runs_comment_block(1)) (auto split: option.split)
    consider "is_symbol c" | "is_digit c" "\<not> is_symbol c" | "c = CHR 0x5C" | "c = CHR 0x22"
      | "c = CHR ''.''" | "c = CHR ''-''" | "c = CHR ''/''"
      | "blank_char c" "c \<noteq> CHR 0x5C" | "plain_first c"
      by (auto simp: plain_first_def)
    then show ?thesis
    proof cases
      case 1
      then have "\<not> blank_char c" "c \<noteq> CHR ''/''" "word_char c"
        by (auto simp: blank_char_def is_symbol_def word_char_def)
      with 1 Cons runs_id [of code "[c]" r] show ?thesis
        by (intro runs_by)
          (auto simp: run_simps st_init_def lex_significant lex_token_def starts_def)
    next
      case 2
      then have "\<not> blank_char c" "c \<noteq> CHR ''/''"
        by (auto simp: blank_char_def is_digit_def)
      with 2 Cons runs_num1 [of code "[c]" r] show ?thesis
        by (intro runs_by)
          (auto simp: run_simps st_init_def lex_significant lex_token_def starts_def lex_num_step)
    next
      case 3
      then have c: "blank_char c" "\<not> is_symbol c" "\<not> is_digit c" "c \<noteq> CHR ''.''"
        by (auto simp: blank_char_def is_symbol_def is_digit_def)
      show ?thesis
      proof (cases r)
        case Nil
        with 3 c Cons IH [of r] show ?thesis
          by (intro runs_by) (simp add: run_simps st_init_def lex_blank)
      next
        case (Cons d q)
        have "lex_text (CHR 0x0A # q) = lex_text q" by (simp add: lex_blank blank_char_def)
        with Cons 3 c \<open>cs = c # r\<close> IH [of r] IH [of q] show ?thesis
          by (intro runs_by) (auto simp: run_simps st_init_def lex_blank)
      qed
    next
      case 4
      then have "\<not> blank_char c" "\<not> is_symbol c" "\<not> is_digit c"
        by (auto simp: blank_char_def is_symbol_def is_digit_def)
      with 4 Cons runs_dq [of code "''''" r] show ?thesis
        by (intro runs_by)
          (auto simp: run_simps st_init_def first_char_def lex_significant lex_token_def starts_def)
    next
      case 5
      then have "\<not> blank_char c" "\<not> is_symbol c" "\<not> is_digit c"
        by (auto simp: blank_char_def is_symbol_def is_digit_def)
      with 5 Cons runs_dot [of code r] show ?thesis
        by (intro runs_by)
          (auto simp: run_simps st_init_def lex_significant lex_token_def starts_def)
    next
      case 6
      then have "\<not> blank_char c" "\<not> is_symbol c" "\<not> is_digit c"
        by (auto simp: blank_char_def is_symbol_def is_digit_def)
      with 6 Cons runs_minus [of code r] show ?thesis
        by (intro runs_by)
          (auto simp: run_simps st_init_def first_char_def lex_significant lex_token_def starts_def)
    next
      case 7
      then have c: "\<not> blank_char c" "\<not> is_symbol c" "\<not> is_digit c" "c \<noteq> CHR ''.''"
        by (auto simp: blank_char_def is_symbol_def is_digit_def)
      have "runs code ST_DIV '''' r (lex_text (c # r))"
      proof (cases "take 1 r = ''/'' \<or> take 1 r = ''*''")
        case True
        then obtain d q where r: "r = d # q" "d = CHR ''/'' \<or> d = CHR ''*''"
          by (cases r) auto
        with 7 Cons comment2 [of q] comment3 [of q] show ?thesis
          by (intro runs_by)
            (auto simp: run_simps st_div_def lex_line_comment lex_block_comment)
      next
        case False
        then have "lex_text (c # r) = lex_op (c # r)"
          using 7 c by (simp add: lex_significant lex_token_def starts_def)
        with False 7 runs_div [of r] show ?thesis by simp
      qed
      with 7 c Cons show ?thesis
        by (intro runs_by) (auto simp: run_simps st_init_def first_char_def)
    next
      case 8
      then have "\<not> is_symbol c" "\<not> is_digit c" "first_char c = Inr ST_INIT" "c \<noteq> CHR ''.''"
        by (auto simp: blank_char_def is_symbol_def is_digit_def first_char_def)
      with 8 Cons IH [of r] show ?thesis
        by (intro runs_by) (auto simp: run_simps st_init_def lex_blank)
    next
      case 9
      with Cons runs_plain show ?thesis by simp
    qed
  qed
qed
end
