(* ===== verification/Scanner_Tokens.thy ===== *)
theory Scanner_Tokens
  imports Scanner_Correct
begin

text \<open>
  The properties of the scanner: it returns and computes the reference analyser, reading on reaches
  the end of the file, the text of a token list is read back, and what the values of integer
  literals are.
\<close>

section \<open>One call\<close>

lemma dic_new: "RsrvWordDic_new code = Inr d \<Longrightarrow> d = dic code"
  by (simp add: dic_of_init dic_def)

lemma scan_run:
  assumes "reads src rest" and "length (rest s) + 2 \<le> fuel"
  shows "\<exists>t buf s'. scan (dic code) src fuel s = Some (Inr (t, buf, s')) \<and>
    lex_text (rest s) = (t, buf, rest s')"
proof -
  have "scan_from (dic code) text_source fuel ST_INIT '''' (rest s) = Some (Inr (lex_text (rest s)))"
    using runs_init [of code "rest s"] assms(2) unfolding runs_def by blast
  then have "map_option (map_sum id (seen rest)) (scan (dic code) src fuel s) =
      Some (Inr (lex_text (rest s)))"
    by (simp add: sim_scan_from [OF assms(1)] scan_def)
  then obtain z where z: "scan (dic code) src fuel s = Some z"
    "map_sum id (seen rest) z = Inr (lex_text (rest s))" by auto
  then obtain y where "z = Inr y" "seen rest y = lex_text (rest s)" by (cases z) auto
  with z(1) show ?thesis by (cases y) (auto simp: seen_def)
qed

text \<open>
  C22: the scanner implements the lexical analyser. From any source of characters, with any numbering
  of the tokens, a call of \<^verbatim>\<open>scan\<close> returns after at most two jumps more than there are characters
  left, with the token and the string of the reference analyser (blanks and comments skipped, the
  longest word, number or operator taken), and the source stands behind them.
\<close>

theorem scan_implements_lexer:
  assumes "reads src rest" and "RsrvWordDic_new code = Inr d" and "length (rest s) + 2 \<le> fuel"
  shows "\<exists>t buf s'. scan d src fuel s = Some (Inr (t, buf, s')) \<and>
    lex_text (rest s) = (t, buf, rest s')"
  using scan_run [OF assms(1,3)] dic_new [OF assms(2)] by simp

section \<open>Progress\<close>

lemma lex_digits_rest: "lex_digits buf cs = (t, b, r) \<Longrightarrow> length r \<le> length cs \<and> t \<noteq> EOF"
  by (auto simp: lex_digits_def length_dropWhile_le)

lemma lex_exp_rest: "lex_exp buf cs = (t, b, r) \<Longrightarrow> length r \<le> length cs \<and> t \<noteq> EOF"
  by (auto simp: lex_exp_def split: list.splits if_splits dest: lex_digits_rest)

lemma dropWhile_Cons_length: "dropWhile P cs = c # r \<Longrightarrow> Suc (length r) \<le> length cs"
  using length_dropWhile_le [of P cs] by simp

lemma lex_frac_rest: "lex_frac buf cs = (t, b, r) \<Longrightarrow> length r \<le> length cs \<and> t \<noteq> EOF"
  by (auto simp: lex_frac_def Let_def length_dropWhile_le simp del: dropWhile_eq_Nil_conv split: list.splits if_splits
      dest!: lex_exp_rest dest: dropWhile_Cons_length)

lemma lex_num_rest: "lex_num buf cs = (t, b, r) \<Longrightarrow> length r \<le> length cs \<and> t \<noteq> EOF"
  by (auto simp: lex_num_def Let_def length_dropWhile_le simp del: dropWhile_eq_Nil_conv split: list.splits if_splits
      dest!: lex_frac_rest dest: dropWhile_Cons_length)

lemma lex_str_rest: "lex_str buf cs = (t, b, r) \<Longrightarrow> length r \<le> length cs \<and> t \<noteq> EOF"
  by (induction buf cs rule: lex_str.induct) (fastforce split: if_splits list.splits)+

lemma init_data_no_EOF: "EOF \<notin> snd ` set init_data" "[] \<notin> fst ` set init_data"
  by (simp_all add: init_data_def)

lemma map_of_no_EOF: "map_of init_data w = Some t \<Longrightarrow> t \<noteq> EOF"
  using init_data_no_EOF(1) map_of_SomeD by force

lemma lex_op_rest: "lex_op (c # cs) = (t, b, r) \<Longrightarrow> length r \<le> length cs \<and> t \<noteq> EOF"
  by (auto simp: lex_op_def Let_def take_Cons_numeral split: option.splits dest: map_of_no_EOF)

lemma word_token_no_EOF: "word_token_of w \<noteq> EOF"
  by (auto simp: word_token_of_def split: option.split dest: map_of_no_EOF)

lemma starts_Cons: "starts P (c # cs) = P c"
  by (simp add: starts_def)

lemma lex_token_rest:
  assumes "lex_token (c # cs) = (t, b, r)"
  shows "length r < length (c # cs) \<and> t \<noteq> EOF"
proof (cases "is_symbol c")
  case True
  then have "word_char c" by (simp add: word_char_def)
  then show ?thesis
    using assms True word_token_no_EOF length_dropWhile_le [of word_char cs]
    by (auto simp: lex_token_def starts_Cons)
next
  case no_symbol: False
  show ?thesis
  proof (cases "is_digit c")
    case True
    then show ?thesis
      using assms no_symbol lex_num_rest [of "[c]" cs t b r]
      by (simp add: lex_token_def starts_Cons lex_num_step)
  next
    case False
    then show ?thesis
      using assms no_symbol
      by (auto simp: lex_token_def starts_Cons simp del: One_nat_def split: if_splits
          dest!: lex_num_rest lex_frac_rest lex_str_rest lex_op_rest)
  qed
qed

lemma skip_rest: "skip cs = Inr r \<Longrightarrow> r \<noteq> [] \<and> length r \<le> length cs"
proof (induction cs rule: skip.induct)
  case (2 c cs)
  then show ?case
    by (subst (asm) skip.simps(2))
      (fastforce simp del: dropWhile_eq_Nil_conv split: if_splits list.splits option.splits
        dest: dropWhile_Cons_length skip_block_length)
qed simp

lemma lex_text_rest:
  assumes "lex_text cs = (t, b, r)" and "t \<noteq> EOF"
  shows "length r < length cs"
proof (cases "skip cs")
  case (Inl u)
  with assms have "cs \<noteq> []" "r = []" by (auto simp: lex_text_def)
  then show ?thesis by simp
next
  case (Inr q)
  with skip_rest [OF Inr] assms lex_token_rest show ?thesis
    by (cases q) (fastforce simp: lex_text_def)+
qed

section \<open>All tokens of a text\<close>

text \<open>
  Read until the end of the file: the tokens with their strings. The reference reads the text.
\<close>

fun read_tokens ::
  "'s source \<Rightarrow> nat \<Rightarrow> nat \<Rightarrow> 's scanner \<Rightarrow> (token \<times> string) list res option" where
  "read_tokens src fuel 0 sc = None"
| "read_tokens src fuel (Suc n) sc =
     (case read_token src fuel sc of
        None \<Rightarrow> None
      | Some (Inl e) \<Rightarrow> Some (Inl e)
      | Some (Inr (t, sc')) \<Rightarrow>
          if t = EOF then Some (Inr [])
          else map_option (map_sum id ((#) (t, mCurString sc'))) (read_tokens src fuel n sc'))"

function text_tokens :: "string \<Rightarrow> (token \<times> string) list" where
  "text_tokens cs =
     (case lex_text cs of (t, buf, r) \<Rightarrow> if t = EOF then [] else (t, buf) # text_tokens r)"
  by pat_completeness auto
termination
  by (relation "measure length") (auto dest: lex_text_rest sym)

declare text_tokens.simps [simp del]

lemma read_tokens_text:
  assumes "reads src rest" and "mDic sc = dic code" and "mUngetToken sc = DUMMY"
    and "length (rest (input sc)) < n" and "length (rest (input sc)) + 2 \<le> fuel"
  shows "read_tokens src fuel n sc = Some (Inr (text_tokens (rest (input sc))))"
  using assms(2-)
proof (induction n arbitrary: sc)
  case (Suc n)
  from scan_run [OF assms(1) Suc.prems(4)] obtain t buf s' where
    run: "scan (dic code) src fuel (input sc) = Some (Inr (t, buf, s'))"
      "lex_text (rest (input sc)) = (t, buf, rest s')" by blast
  let ?sc = "sc\<lparr>mCurString := buf, input := s'\<rparr>"
  have step: "read_token src fuel sc = Some (Inr (t, ?sc))"
    using Suc.prems run(1) by (simp add: read_token_def)
  show ?case
  proof (cases "t = EOF")
    case True
    with step run(2) show ?thesis by (simp add: text_tokens.simps)
  next
    case False
    then have "length (rest s') < length (rest (input sc))"
      using lex_text_rest [OF run(2)] by simp
    then have "read_tokens src fuel n ?sc = Some (Inr (text_tokens (rest s')))"
      using Suc.IH [of ?sc] Suc.prems by simp
    with step run(2) False show ?thesis
      by (simp add: text_tokens.simps [of "rest (input sc)"])
  qed
qed simp

text \<open>
  C23: reading on reaches the end of the file. On a new scanner \<^verbatim>\<open>read_token\<close> returns \<^verbatim>\<open>EOF\<close> after at
  most one call more than there are characters; every call returns, and the tokens and strings on
  the way are those of the text. So the parser that reads until \<^verbatim>\<open>EOF\<close> never waits for ever.
\<close>

theorem reading_reaches_eof:
  assumes "reads src rest" and "YmslScanner_new code s = Inr sc"
    and "length (rest s) < n" and "length (rest s) + 2 \<le> fuel"
  shows "read_tokens src fuel n sc = Some (Inr (text_tokens (rest s)))"
proof -
  have "mDic sc = dic code" "mUngetToken sc = DUMMY" "input sc = s"
    using assms(2) by (auto simp: YmslScanner_new_def dest: dic_new)
  with read_tokens_text [OF assms(1)] assms(3,4) show ?thesis by blast
qed


section \<open>Round trip\<close>

text \<open>How a token and its string are spelled.\<close>

inductive spelled :: "string \<Rightarrow> token \<times> string \<Rightarrow> bool" where
  spelled_word: "\<lbrakk>(w, t) \<in> set init_data; starts is_symbol w\<rbrakk> \<Longrightarrow> spelled w (t, w)"
| spelled_op: "\<lbrakk>(w, t) \<in> set init_data; \<not> starts is_symbol w\<rbrakk> \<Longrightarrow>
    spelled w (t, if w = ''.'' then w else '''')"
| spelled_name: "\<lbrakk>w \<notin> fst ` set init_data; starts is_symbol w; list_all word_char w\<rbrakk> \<Longrightarrow>
    spelled w (SYMBOL, w)"
| spelled_int: "\<lbrakk>ds \<noteq> []; list_all is_digit ds; sign = '''' \<or> sign = ''-''\<rbrakk> \<Longrightarrow>
    spelled (sign @ ds) (INT_VAL, sign @ ds)"
| spelled_float: "\<lbrakk>ds \<noteq> []; list_all is_digit ds; es \<noteq> []; list_all is_digit es;
      sign = '''' \<or> sign = ''-''\<rbrakk> \<Longrightarrow>
    spelled (sign @ ds @ ''.'' @ es) (FLOAT_VAL, sign @ ds @ ''.'' @ es)"
| spelled_string: "list_all (\<lambda>c. c \<notin> {CHR 0x22, CHR 0x0A, CHR 0x5C}) v \<Longrightarrow>
    spelled ([CHR 0x22] @ v @ [CHR 0x22]) (STRING_VAL, v)"

lemma takeWhile_blank:
  assumes "list_all P w" and "\<not> P (CHR '' '')"
  shows "takeWhile P (w @ CHR '' '' # r) = w" "dropWhile P (w @ CHR '' '' # r) = CHR '' '' # r"
  using assms by (induction w) auto

lemma char_classes:
  "\<not> is_digit (CHR '' '')" "\<not> word_char (CHR '' '')" "\<not> is_symbol (CHR '' '')"
  "\<not> is_digit (CHR ''.'')" "\<not> is_symbol (CHR ''-'')" "\<not> is_digit (CHR ''-'')"
  "\<not> is_symbol (CHR 0x22)" "\<not> is_digit (CHR 0x22)"
  "\<not> blank_char (CHR ''-'')" "\<not> blank_char (CHR 0x22)"
  by (simp_all add: is_digit_def word_char_def is_symbol_def blank_char_def)

lemma symbol_first:
  "is_symbol c \<Longrightarrow> \<not> blank_char c \<and> c \<noteq> CHR ''/'' \<and> word_char c"
  by (auto simp: is_symbol_def blank_char_def word_char_def)

lemma digit_first:
  "is_digit c \<Longrightarrow> \<not> blank_char c \<and> c \<noteq> CHR ''/'' \<and> \<not> is_symbol c"
  by (auto simp: is_symbol_def blank_char_def is_digit_def)

lemma lex_word:
  assumes "starts is_symbol w" and "list_all word_char w"
  shows "lex_text (w @ CHR '' '' # r) = (word_token_of w, w, CHR '' '' # r)"
proof -
  obtain c v where w: "w = c # v" "is_symbol c" using assms(1) by (cases w) (auto simp: starts_def)
  then have "lex_text (w @ CHR '' '' # r) = lex_token (w @ CHR '' '' # r)"
    using symbol_first by (simp add: lex_significant)
  moreover have "starts is_symbol (w @ CHR '' '' # r)" using w by (simp add: starts_Cons)
  ultimately show ?thesis
    by (simp add: lex_token_def takeWhile_blank [OF assms(2) char_classes(2)])
qed

lemma lex_num_digits:
  "list_all is_digit ds \<Longrightarrow> lex_num buf (ds @ CHR '' '' # r) = (INT_VAL, buf @ ds, CHR '' '' # r)"
  "\<lbrakk>list_all is_digit ds; es \<noteq> []; list_all is_digit es\<rbrakk> \<Longrightarrow>
    lex_num buf (ds @ CHR ''.'' # es @ CHR '' '' # r) = (FLOAT_VAL, buf @ ds @ CHR ''.'' # es, CHR '' '' # r)"
proof -
  show "list_all is_digit ds \<Longrightarrow> lex_num buf (ds @ CHR '' '' # r) = (INT_VAL, buf @ ds, CHR '' '' # r)"
    by (simp add: lex_num_def takeWhile_blank char_classes)
  have es: "lex_frac b (es @ CHR '' '' # r) = (FLOAT_VAL, b @ es, CHR '' '' # r)"
    if "list_all is_digit es" for b
    using that by (simp add: lex_frac_def takeWhile_blank char_classes)
  have "lex_num buf (ds @ CHR ''.'' # q) =
      (if starts is_digit q then lex_frac (buf @ ds @ ''.'') q else (ERROR, buf @ ds @ ''.'', q))"
    if "list_all is_digit ds" for q
  proof -
    have "takeWhile is_digit (ds @ CHR ''.'' # q) = ds" "dropWhile is_digit (ds @ CHR ''.'' # q) = CHR ''.'' # q"
      using that by (induction ds) (auto simp: char_classes)
    then show ?thesis by (simp add: lex_num_def)
  qed
  then show "\<lbrakk>list_all is_digit ds; es \<noteq> []; list_all is_digit es\<rbrakk> \<Longrightarrow>
      lex_num buf (ds @ CHR ''.'' # es @ CHR '' '' # r) = (FLOAT_VAL, buf @ ds @ CHR ''.'' # es, CHR '' '' # r)"
    using es by (cases es) (simp_all add: starts_Cons)
qed

lemma lex_signed:
  assumes "starts is_digit q" and "sign = '''' \<or> sign = ''-''"
  shows "lex_text (sign @ q) = lex_num sign q"
proof -
  obtain c v where q: "q = c # v" "is_digit c" using assms(1) by (cases q) (auto simp: starts_def)
  then show ?thesis
    using assms(2) digit_first [OF q(2)]
    by (auto simp: lex_significant lex_token_def starts_Cons char_classes)
qed


lemma lex_str_plain:
  "list_all (\<lambda>c. c \<notin> {CHR 0x22, CHR 0x0A, CHR 0x5C}) v \<Longrightarrow>
    lex_str buf (v @ CHR 0x22 # q) = (STRING_VAL, buf @ v, q)"
  by (induction v arbitrary: buf) auto

lemma no_blank_word:
  "CHR '' '' \<in> set w \<Longrightarrow> map_of init_data w = None"
proof -
  have "\<forall>p\<in>set init_data. CHR '' '' \<notin> set (fst p)" by (simp add: init_data_def)
  then show "CHR '' '' \<in> set w \<Longrightarrow> map_of init_data w = None"
    by (force simp: map_of_eq_None_iff)
qed

lemma op_word_forms:
  assumes "(w, t) \<in> set init_data" and "\<not> starts is_symbol w"
  shows "w \<noteq> []" and "length w \<le> 3" and "\<not> blank_char (hd w)" and "\<not> is_digit (hd w)"
    and "hd w \<noteq> CHR 0x22" and "list_all (\<lambda>c. \<not> is_digit c) w"
    and "hd w = CHR ''/'' \<Longrightarrow> w = ''/'' \<or> w = ''/=''" and "hd w = CHR ''.'' \<longleftrightarrow> w = ''.''"
proof -
  have "\<forall>p\<in>set init_data. starts is_symbol (fst p) \<or>
      fst p \<noteq> [] \<and> length (fst p) \<le> 3 \<and> \<not> blank_char (hd (fst p)) \<and> \<not> is_digit (hd (fst p)) \<and>
      hd (fst p) \<noteq> CHR 0x22 \<and> list_all (\<lambda>c. \<not> is_digit c) (fst p) \<and>
      (hd (fst p) = CHR ''/'' \<longrightarrow> fst p = ''/'' \<or> fst p = ''/='') \<and>
      (hd (fst p) = CHR ''.'' \<longleftrightarrow> fst p = ''.'')"
    by (simp add: init_data_def starts_def is_symbol_def is_digit_def blank_char_def)
  from bspec [OF this assms(1)] assms(2) show "w \<noteq> []" "length w \<le> 3" "\<not> blank_char (hd w)"
    "\<not> is_digit (hd w)" "hd w \<noteq> CHR 0x22" "list_all (\<lambda>c. \<not> is_digit c) w"
    "hd w = CHR ''/'' \<Longrightarrow> w = ''/'' \<or> w = ''/=''" "hd w = CHR ''.'' \<longleftrightarrow> w = ''.''"
    by auto
qed

lemma lex_op_word:
  assumes "(w, t) \<in> set init_data" and "\<not> starts is_symbol w"
  shows "lex_op (w @ CHR '' '' # r) = (t, if w = ''.'' then w else '''', CHR '' '' # r)"
proof -
  note w = op_word_forms [OF assms]
  have t: "map_of init_data w = Some t"
    using assms(1) map_of_is_SomeI [OF init_data_distinct(1)] by blast
  have buf: "hd (w @ CHR '' '' # r) = CHR ''.'' \<longleftrightarrow> w = ''.''"
    using w(1,8) by simp
  have long: "map_of init_data (take n (w @ CHR '' '' # r)) = None" if "length w < n" for n
    using that by (intro no_blank_word) (simp add: take_Cons')
  have "0 < length w" using w(1) by simp
  with w(2) have "length w = 1 \<or> length w = 2 \<or> length w = 3" by arith
  then consider "length w = 1" | "length w = 2" | "length w = 3" by blast
  then show ?thesis
  proof cases
    case 1
    then have "take 1 (w @ CHR '' '' # r) = w" "drop 1 (w @ CHR '' '' # r) = CHR '' '' # r"
      by simp_all
    with t long [of 2] long [of 3] 1 buf show ?thesis
      by (simp add: lex_op_def del: One_nat_def)
  next
    case 2
    then have "take 2 (w @ CHR '' '' # r) = w" "drop 2 (w @ CHR '' '' # r) = CHR '' '' # r"
      by simp_all
    with t long [of 3] 2 buf show ?thesis by (auto simp: lex_op_def)
  next
    case 3
    then have "take 3 (w @ CHR '' '' # r) = w" "drop 3 (w @ CHR '' '' # r) = CHR '' '' # r"
      by simp_all
    with t 3 buf show ?thesis by (auto simp: lex_op_def)
  qed
qed

lemma lex_op_text:
  assumes "(w, t) \<in> set init_data" and "\<not> starts is_symbol w"
  shows "lex_text (w @ CHR '' '' # r) = (t, if w = ''.'' then w else '''', CHR '' '' # r)"
proof -
  note w = op_word_forms [OF assms]
  obtain c v where v: "w = c # v" using w(1) by (cases w) auto
  have no_digit: "\<not> starts is_digit (v @ CHR '' '' # r)"
    using w(6) v by (cases v) (auto simp: starts_Cons char_classes)
  have "lex_text (w @ CHR '' '' # r) = lex_token (w @ CHR '' '' # r)"
    using w(3,7) v by (cases v) (auto simp: lex_significant)
  also have "\<dots> = lex_op (w @ CHR '' '' # r)"
    using w(4,5) v no_digit assms(2) by (auto simp: lex_token_def starts_Cons)
  finally show ?thesis by (simp add: lex_op_word [OF assms])
qed

lemma reserved_words_chars:
  "(w, t) \<in> set init_data \<Longrightarrow> starts is_symbol w \<Longrightarrow> list_all word_char w"
proof -
  have "\<forall>p\<in>set init_data. starts is_symbol (fst p) \<longrightarrow> list_all word_char (fst p)"
    by (simp add: init_data_def starts_def is_symbol_def word_char_def is_digit_def)
  then show "(w, t) \<in> set init_data \<Longrightarrow> starts is_symbol w \<Longrightarrow> list_all word_char w"
    by fastforce
qed

lemma starts_digits: "ds \<noteq> [] \<Longrightarrow> list_all is_digit ds \<Longrightarrow> starts is_digit (ds @ q)"
  by (cases ds) (auto simp: starts_Cons)

lemma spelled_lex:
  assumes "spelled w (t, b)"
  shows "lex_text (w @ CHR '' '' # r) = (t, b, CHR '' '' # r) \<and> t \<noteq> EOF"
  using assms
proof cases
  case spelled_word
  then have "word_token_of w = t" by (simp add: word_token_of_eq)
  with spelled_word word_token_no_EOF [of w] show ?thesis
    using lex_word [OF _ reserved_words_chars] by auto
next
  case spelled_op
  then show ?thesis using lex_op_text init_data_no_EOF(1) by force
next
  case spelled_name
  then have "word_token_of w = t" by (simp add: word_token_of_eq)
  with spelled_name show ?thesis using lex_word by simp
next
  case (spelled_int ds sign)
  then show ?thesis
    using lex_signed [OF starts_digits, of ds sign "CHR '' '' # r"] lex_num_digits(1) by simp
next
  case (spelled_float ds es sign)
  then show ?thesis
    using lex_signed [OF starts_digits, of ds sign "CHR ''.'' # es @ CHR '' '' # r"]
      lex_num_digits(2) by simp
next
  case spelled_string
  then show ?thesis
    by (simp add: lex_significant lex_token_def starts_Cons char_classes lex_str_plain)
qed

definition spaced :: "string list \<Rightarrow> string" where
  "spaced ws = concat (map (\<lambda>w. w @ '' '') ws)"

lemma text_tokens_spaced:
  "list_all2 spelled ws ts \<Longrightarrow> text_tokens (spaced ws) = ts"
proof (induction ws ts rule: list_all2_induct)
  case Nil
  show ?case by (simp add: spaced_def text_tokens.simps lex_text_def)
next
  case (Cons w ws x ts)
  obtain t b where x: "x = (t, b)" by (cases x)
  have "text_tokens (CHR '' '' # spaced ws) = text_tokens (spaced ws)"
    by (subst (1 2) text_tokens.simps) (simp add: lex_blank blank_char_def)
  with Cons x spelled_lex [of w t b "spaced ws"] show ?case
    by (simp add: spaced_def text_tokens.simps [of "w @ _"])
qed

text \<open>
  C28: spelling and scanning are inverse. A list of reserved words, operators, names, decimal
  literals and strings, spelled with a blank after each, is read back as the same tokens with the
  same strings, and then the end of the file.
\<close>

theorem spelling_scanned_back:
  assumes "list_all2 spelled ws ts" and "reads src rest" and "rest s = spaced ws"
    and "YmslScanner_new code s = Inr sc"
    and "length (spaced ws) < n" and "length (spaced ws) + 2 \<le> fuel"
  shows "read_tokens src fuel n sc = Some (Inr ts)"
proof -
  have "mDic sc = dic code" "mUngetToken sc = DUMMY" "input sc = s"
    using assms(4) by (auto simp: YmslScanner_new_def dest: dic_new)
  with read_tokens_text [OF assms(2)] assms(3,5,6) text_tokens_spaced [OF assms(1)]
  show ?thesis by simp
qed


section \<open>Numbers\<close>

lemma new_scanner:
  "YmslScanner_new code s = Inr sc \<Longrightarrow> mDic sc = dic code \<and> mUngetToken sc = DUMMY \<and> input sc = s"
  by (auto simp: YmslScanner_new_def dest: dic_new)

lemma read_token_run:
  assumes "reads src rest" and "YmslScanner_new code s = Inr sc"
    and "length (rest s) + 2 \<le> fuel" and "lex_text (rest s) = (t, buf, r)"
  shows "\<exists>sc'. read_token src fuel sc = Some (Inr (t, sc')) \<and> mCurString sc' = buf \<and>
    rest (input sc') = r"
proof -
  obtain s' where "scan (dic code) src fuel s = Some (Inr (t, buf, s'))" "rest s' = r"
    using scan_run [OF assms(1,3), of code] assms(4) by auto
  with new_scanner [OF assms(2)] show ?thesis
    by (intro exI [of _ "sc\<lparr>mCurString := buf, input := s'\<rparr>"]) (simp add: read_token_def)
qed

lemma takeWhile_digits:
  assumes "list_all is_digit ds" and "\<not> starts is_digit r"
  shows "takeWhile is_digit (ds @ r) = ds" "dropWhile is_digit (ds @ r) = r"
  using assms by (induction ds) (cases r; auto simp: starts_def)+

lemma lex_literal:
  assumes "list_all is_digit ds" and "ds \<noteq> []"
    and "\<not> starts (\<lambda>c. is_digit c \<or> c = CHR ''.'') r" and "sign = '''' \<or> sign = ''-''"
  shows "lex_text (sign @ ds @ r) = (INT_VAL, sign @ ds, r)"
proof -
  have r: "\<not> starts is_digit r" using assms(3) by (cases r) (auto simp: starts_def)
  have "lex_text (sign @ ds @ r) = lex_num sign (ds @ r)"
    by (rule lex_signed [OF starts_digits [OF assms(2,1)] assms(4)])
  also have "\<dots> = (INT_VAL, sign @ ds, r)"
    unfolding lex_num_def Let_def takeWhile_digits [OF assms(1) r]
    using assms(3) by (cases r) (simp_all add: starts_def)
  finally show ?thesis .
qed

lemma digits_val_nonneg: "list_all is_digit ds \<Longrightarrow> 0 \<le> digits_val ds"
proof -
  have "0 \<le> v \<Longrightarrow> list_all is_digit ds \<Longrightarrow> 0 \<le> foldl (\<lambda>v c. v * 10 + (int (of_char c) - 48)) v ds" for v
    by (induction ds arbitrary: v) (auto simp: is_digit_def)
  then show "list_all is_digit ds \<Longrightarrow> 0 \<le> digits_val ds" by (simp add: digits_val_def)
qed

lemma strtol_digits:
  assumes "list_all is_digit ds" and "ds \<noteq> []"
  shows "strtol ds = min (2 ^ 63 - 1) (digits_val ds)"
    and "strtol (''-'' @ ds) = max (- (2 ^ 63)) (- digits_val ds)"
proof -
  have t: "takeWhile is_digit ds = ds" using assms(1) by (simp add: list_all_iff)
  obtain c v where "ds = c # v" "c \<noteq> CHR ''-''"
    using assms char_classes(6) by (cases ds) auto
  then show "strtol ds = min (2 ^ 63 - 1) (digits_val ds)"
    using t by (auto simp: strtol_def)
  show "strtol (''-'' @ ds) = max (- (2 ^ 63)) (- digits_val ds)"
    unfolding strtol_def by (simp del: takeWhile_eq_all_conv add: t)
qed

lemma sint_wrap: "sint (word_of_int k :: i32) = (k + 2 ^ 31) mod 2 ^ 32 - 2 ^ 31"
  by (simp add: sint_sbintrunc' signed_take_bit_eq_take_bit_shift take_bit_eq_mod)

text \<open>
  C30: the value of an integer literal. A decimal literal below \<open>2^31\<close> has its value; from there to
  \<open>2^63\<close> it silently wraps around, and above it is \<open>-1\<close>; with a sign, the values below \<open>-2^63\<close> are
  all \<open>0\<close>. No literal is refused for its size.
\<close>

theorem int_literal_value:
  assumes "reads src rest" and "YmslScanner_new code s = Inr sc" and "rest s = sign @ ds @ r"
    and "list_all is_digit ds" and "ds \<noteq> []" and "sign = '''' \<or> sign = ''-''"
    and "\<not> starts (\<lambda>c. is_digit c \<or> c = CHR ''.'') r" and "length (rest s) + 2 \<le> fuel"
  shows "\<exists>sc'. read_token src fuel sc = Some (Inr (INT_VAL, sc')) \<and> rest (input sc') = r \<and>
    sint (cur_int sc') =
      (if sign = '''' then
         (if digits_val ds < 2 ^ 31 then digits_val ds
          else if digits_val ds < 2 ^ 63 then (digits_val ds + 2 ^ 31) mod 2 ^ 32 - 2 ^ 31
          else -1)
       else
         (if digits_val ds \<le> 2 ^ 31 then - digits_val ds
          else if digits_val ds \<le> 2 ^ 63 then (2 ^ 31 - digits_val ds) mod 2 ^ 32 - 2 ^ 31
          else 0))"
proof -
  have "lex_text (rest s) = (INT_VAL, sign @ ds, r)"
    using lex_literal [OF assms(4,5,7,6)] assms(3) by simp
  from read_token_run [OF assms(1,2,8) this] obtain sc' where
    sc': "read_token src fuel sc = Some (Inr (INT_VAL, sc'))" "mCurString sc' = sign @ ds"
      "rest (input sc') = r" by blast
  have "sint (cur_int sc') = (strtol (sign @ ds) + 2 ^ 31) mod 2 ^ 32 - 2 ^ 31"
    by (simp add: cur_int_def sc'(2) sint_wrap)
  moreover have "0 \<le> digits_val ds" by (rule digits_val_nonneg [OF assms(4)])
  ultimately show ?thesis
    using sc'(1,3) strtol_digits [OF assms(4,5)] assms(6)
    by (intro exI [of _ sc']) auto
qed


lemma lex_minus_blank: "lex_text (''- '' @ q) = (Oper MINUS, '''', CHR '' '' # q)"
  using lex_op_text [of "''-''" "Oper MINUS" q]
  by (simp add: starts_def is_symbol_def) (simp add: init_data_def)

lemma lex_word_stop:
  assumes "starts is_symbol w" and "list_all word_char w" and "\<not> starts word_char r"
  shows "lex_text (w @ r) = (word_token_of w, w, r)"
proof -
  obtain c v where w: "w = c # v" "is_symbol c" using assms(1) by (cases w) (auto simp: starts_def)
  have run: "takeWhile word_char (w @ r) = w" "dropWhile word_char (w @ r) = r"
    using assms(2,3) by (induction w) (cases r; auto simp: starts_def)+
  have "lex_text (w @ r) = lex_token (w @ r)"
    using w symbol_first by (simp add: lex_significant)
  moreover have "starts is_symbol (w @ r)" using w by (simp add: starts_Cons)
  ultimately show ?thesis unfolding lex_token_def run by simp
qed

lemma text_tokens_Cons:
  "lex_text cs = (t, b, r) \<Longrightarrow> t \<noteq> EOF \<Longrightarrow> text_tokens cs = (t, b) # text_tokens r"
  by (simp add: text_tokens.simps)

lemma text_tokens_Nil: "text_tokens '''' = []"
  by (simp add: text_tokens.simps lex_text_def)

lemma text_tokens_digits:
  assumes "list_all is_digit ds" and "ds \<noteq> []" and "sign = '''' \<or> sign = ''-''"
  shows "text_tokens (sign @ ds) = [(INT_VAL, sign @ ds)]"
  using lex_literal [OF assms(1,2) _ assms(3), of "[]"]
  by (simp add: text_tokens_Cons text_tokens_Nil starts_def)

lemma text_tokens_minus:
  assumes "starts is_symbol w" and "list_all word_char w" and "list_all is_digit ds" and "ds \<noteq> []"
    and "gap = '''' \<or> gap = '' ''"
  shows "text_tokens (w @ ''-'' @ gap @ ds) = (word_token_of w, w) #
    (if gap = '''' then [(INT_VAL, ''-'' @ ds)] else [(Oper MINUS, ''''), (INT_VAL, ds)])"
proof -
  have "text_tokens (w @ ''-'' @ q) = (word_token_of w, w) # text_tokens (''-'' @ q)" for q
    using lex_word_stop [OF assms(1,2), of "''-'' @ q"] word_token_no_EOF
    by (simp add: text_tokens_Cons starts_def word_char_def char_classes)
  moreover have "text_tokens (''- '' @ ds) = [(Oper MINUS, ''''), (INT_VAL, ds)]"
  proof -
    have "text_tokens (CHR '' '' # ds) = text_tokens ds"
      by (subst (1 2) text_tokens.simps) (simp add: lex_blank blank_char_def)
    then show ?thesis
      using text_tokens_Cons [OF lex_minus_blank, of ds] text_tokens_digits [OF assms(3,4), of "''''"]
      by simp
  qed
  ultimately show ?thesis
    using assms(5) text_tokens_digits [OF assms(3,4), of "''-''"] by auto
qed

text \<open>
  C38: a minus sign belongs to the number behind it. Written together, a name, a minus sign and a
  decimal number are read as the name and a negative literal, two tokens with no operator between
  them; with a blank before the number they are the name, the operator and the literal.
\<close>

theorem minus_joins_number:
  assumes "reads src rest" and "YmslScanner_new code s = Inr sc"
    and "rest s = w @ ''-'' @ gap @ ds" and "gap = '''' \<or> gap = '' ''"
    and "starts is_symbol w" and "list_all word_char w" and "list_all is_digit ds" and "ds \<noteq> []"
    and "length (rest s) < n" and "length (rest s) + 2 \<le> fuel"
  shows "read_tokens src fuel n sc = Some (Inr ((word_token_of w, w) #
    (if gap = '''' then [(INT_VAL, ''-'' @ ds)] else [(Oper MINUS, ''''), (INT_VAL, ds)])))"
proof -
  have "read_tokens src fuel n sc = Some (Inr (text_tokens (rest s)))"
    using read_tokens_text [OF assms(1)] new_scanner [OF assms(2)] assms(9,10) by blast
  then show ?thesis
    unfolding assms(3) text_tokens_minus [OF assms(5,6,7,8,4)] .
qed

text \<open>
  A number that starts with its decimal point is kept with the point doubled: for a point and
  digits, a \<^verbatim>\<open>FLOAT_VAL\<close> is returned with the string \<^verbatim>\<open>..\<close> and the digits, which \<^verbatim>\<open>strtod\<close> cannot
  read as the number.
\<close>

theorem leading_dot_doubled:
  assumes "reads src rest" and "YmslScanner_new code s = Inr sc"
    and "rest s = ''.'' @ ds @ r" and "list_all is_digit ds" and "ds \<noteq> []"
    and "\<not> starts (\<lambda>c. is_digit c \<or> c = CHR ''e'' \<or> c = CHR ''E'') r"
    and "length (rest s) + 2 \<le> fuel"
  shows "\<exists>sc'. read_token src fuel sc = Some (Inr (FLOAT_VAL, sc')) \<and>
    mCurString sc' = ''..'' @ ds \<and> rest (input sc') = r"
proof (rule read_token_run [OF assms(1,2,7)])
  have r: "\<not> starts is_digit r" using assms(6) by (cases r) (auto simp: starts_def)
  have frac: "lex_frac ''..'' (ds @ r) = (FLOAT_VAL, ''..'' @ ds, r)"
    unfolding lex_frac_def Let_def takeWhile_digits [OF assms(4) r]
    using assms(6) by (cases r) (simp_all add: starts_def)
  have "\<not> is_symbol (CHR ''.'')" "\<not> blank_char (CHR ''.'')"
    by (simp_all add: is_symbol_def blank_char_def)
  with frac starts_digits [OF assms(5,4), of r] show "lex_text (rest s) = (FLOAT_VAL, ''..'' @ ds, r)"
    by (simp add: assms(3) lex_significant lex_token_def starts_Cons char_classes)
qed

section \<open>Witnesses\<close>

lemma sample_scanner:
  "YmslScanner_new token_code cs =
    Inr \<lparr>mCurString = '''', mDic = dic token_code, mUngetToken = DUMMY, input = cs\<rparr>"
  by (simp add: YmslScanner_new_def dic_of_init dic_def)

theorem scan_implements_lexer_witness:
  "\<exists>t buf s'. scan (dic token_code) text_source 20 ''/**/ while'' = Some (Inr (t, buf, s')) \<and>
    lex_text ''/**/ while'' = (t, buf, s')"
  using scan_implements_lexer [OF text_source_reads, of token_code "dic token_code" "''/**/ while''" 20]
  by (simp add: dic_of_init dic_def)

theorem reading_reaches_eof_witness:
  "\<exists>sc. YmslScanner_new token_code ''while (i)'' = Inr sc \<and>
    read_tokens text_source 20 20 sc = Some (Inr (text_tokens ''while (i)''))"
  using reading_reaches_eof [OF text_source_reads sample_scanner, of "''while (i)''" 20 20]
  by (simp add: sample_scanner)

theorem spelling_scanned_back_witness:
  "\<exists>sc. YmslScanner_new token_code ''x += -12 ; '' = Inr sc \<and>
    read_tokens text_source 20 20 sc = Some (Inr
      [(SYMBOL, ''x''), (Punct EQPLUS, ''''), (INT_VAL, ''-12''), (Punct SEMI, '''')])"
proof -
  have "spelled ''x'' (SYMBOL, ''x'')"
    by (rule spelled_name)
      (simp_all add: init_data_def starts_def word_char_def is_symbol_def is_digit_def)
  moreover have "spelled ''+='' (Punct EQPLUS, if ''+='' = ''.'' then ''+='' else '''')"
    by (rule spelled_op) (simp_all add: init_data_def starts_def is_symbol_def)
  moreover have "spelled (''-'' @ ''12'') (INT_VAL, ''-'' @ ''12'')"
    by (rule spelled_int) (simp_all add: is_digit_def)
  moreover have "spelled '';'' (Punct SEMI, if '';'' = ''.'' then '';'' else '''')"
    by (rule spelled_op) (simp_all add: init_data_def starts_def is_symbol_def)
  ultimately have "list_all2 spelled [''x'', ''+='', ''-12'', '';'']
      [(SYMBOL, ''x''), (Punct EQPLUS, ''''), (INT_VAL, ''-12''), (Punct SEMI, '''')]"
    by simp
  from spelling_scanned_back [OF this text_source_reads _ sample_scanner, of "''x += -12 ; ''" 20 20]
  show ?thesis by (simp add: sample_scanner spaced_def)
qed

theorem int_literal_value_witness:
  "\<exists>sc sc'. YmslScanner_new token_code ''4294967297)'' = Inr sc \<and>
    read_token text_source 20 sc = Some (Inr (INT_VAL, sc')) \<and> sint (cur_int sc') = 1"
  using int_literal_value [OF text_source_reads sample_scanner, of "''4294967297)''" "''''"
      "''4294967297''" "'')''" 20]
  by (simp add: sample_scanner is_digit_def starts_def digits_val_def) blast

theorem minus_joins_number_witness:
  "\<exists>sc. YmslScanner_new token_code ''a-1'' = Inr sc \<and>
    read_tokens text_source 20 20 sc = Some (Inr [(word_token_of ''a'', ''a''), (INT_VAL, ''-1'')])"
  using minus_joins_number [OF text_source_reads sample_scanner, of "''a-1''" "''a''" "''''" "''1''" 20 20]
  by (simp add: sample_scanner starts_def is_digit_def word_char_def is_symbol_def)

theorem leading_dot_doubled_witness:
  "\<exists>sc sc'. YmslScanner_new token_code ''.5;'' = Inr sc \<and>
    read_token text_source 20 sc = Some (Inr (FLOAT_VAL, sc')) \<and> mCurString sc' = ''..5''"
  using leading_dot_doubled [OF text_source_reads sample_scanner, of "''.5;''" "''5''" "'';''" 20]
  by (simp add: sample_scanner starts_def is_digit_def) blast

end
