(* ===== verification/Ast_List.thy ===== *)
theory Ast_List
  imports Ymsl_Prelude
begin

text \<open>
  The linked lists of the parser (\<^verbatim>\<open>include/AstList.h\<close>) and the loop of \<^verbatim>\<open>src/ast/AstMgr.cc\<close> that
  copies one to an array. The cells of a list live in its own store; a pointer is an index.
\<close>

section \<open>The list\<close>

record 'a ast_list =
  lCells :: "('a \<times> nat option) list"
  lSize :: u32
  lTop :: "nat option"
  lTail :: "nat option"

definition AstList_new :: "'a ast_list" where
  "AstList_new = \<lparr>lCells = [], lSize = 0, lTop = None, lTail = None\<rparr>"

definition list_add :: "'a ast_list \<Rightarrow> 'a \<Rightarrow> 'a ast_list res" where
  "list_add l item =
     (let cell = length (lCells l); cells = lCells l @ [(item, None)]
      in case lTail l of
           None \<Rightarrow>
             res_bind (assert_cond (lTop l = None)) (\<lambda>_.
               Inr (l\<lparr>lCells := cells, lSize := lSize l + 1, lTop := Some cell, lTail := Some cell\<rparr>))
         | Some t \<Rightarrow>
             res_bind (assert_cond (lTop l \<noteq> None)) (\<lambda>_.
             res_bind (arr_get cells (int t)) (\<lambda>(car, _).
             res_bind (arr_set cells (int t) (car, Some cell)) (\<lambda>cells'.
               Inr (l\<lparr>lCells := cells', lSize := lSize l + 1, lTail := Some cell\<rparr>)))))"

definition list_size :: "'a ast_list \<Rightarrow> u32" where
  "list_size l = lSize l"

section \<open>The iterator\<close>

text \<open>An iterator is a pointer to a cell; at the end it gives \<^verbatim>\<open>NULL\<close> and stays.\<close>

definition list_begin :: "'a ast_list \<Rightarrow> nat option" where
  "list_begin l = lTop l"

definition iter_deref :: "'a ast_list \<Rightarrow> nat option \<Rightarrow> 'a option res" where
  "iter_deref l it =
     (case it of
        None \<Rightarrow> Inr None
      | Some c \<Rightarrow> res_bind (arr_get (lCells l) (int c)) (\<lambda>(car, _). Inr (Some car)))"

definition is_end :: "nat option \<Rightarrow> bool" where
  "is_end it \<longleftrightarrow> it = None"

definition iter_next :: "'a ast_list \<Rightarrow> nat option \<Rightarrow> nat option res" where
  "iter_next l it =
     (case it of
        None \<Rightarrow> Inr None
      | Some c \<Rightarrow> res_bind (arr_get (lCells l) (int c)) (\<lambda>(_, cdr). Inr cdr))"

text \<open>
  The loop \<^verbatim>\<open>for ( p = list->begin(); !p.is_end(); p.next() ) array[pos ++] = *p\<close>, which ends for
  sure only when the cells form no cycle: \<open>None\<close> when the fuel is used up. A slot of the array is
  \<open>None\<close> until it is written.
\<close>

fun copy_loop ::
  "nat \<Rightarrow> 'a ast_list \<Rightarrow> nat option \<Rightarrow> u32 \<Rightarrow> 'a option list \<Rightarrow> 'a option list res option" where
  "copy_loop fuel l it pos array =
     (if is_end it then Some (Inr array)
      else case fuel of
             0 \<Rightarrow> None
           | Suc fuel \<Rightarrow>
               (case res_bind (iter_deref l it) (\<lambda>x.
                     res_bind (arr_set array (uint pos) x) (\<lambda>array'.
                     res_bind (iter_next l it) (\<lambda>it'. Inr (it', array')))) of
                  Inl e \<Rightarrow> Some (Inl e)
                | Inr (it', array') \<Rightarrow> copy_loop fuel l it' (pos + 1) array'))"

declare copy_loop.simps [simp del]

text \<open>The elements of an array all of whose slots have been written.\<close>

fun written :: "'a option list \<Rightarrow> 'a list res" where
  "written [] = Inr []"
| "written (None # xs) = Inl Uninit"
| "written (Some x # xs) = res_bind (written xs) (\<lambda>ys. Inr (x # ys))"

definition array_of :: "'a ast_list \<Rightarrow> 'a list res option" where
  "array_of l =
     map_option (\<lambda>r. res_bind r written)
       (copy_loop (length (lCells l)) l (list_begin l) 0 (replicate (unat (list_size l)) None))"

section \<open>A list represents what was added\<close>

text \<open>Cell \<open>i\<close> holds element \<open>i\<close> and points to cell \<open>i + 1\<close>.\<close>

definition cells_of :: "'a list \<Rightarrow> ('a \<times> nat option) list" where
  "cells_of xs =
     map (\<lambda>i. (xs ! i, if Suc i < length xs then Some (Suc i) else None)) [0..<length xs]"

definition list_rep :: "'a ast_list \<Rightarrow> 'a list \<Rightarrow> bool" where
  "list_rep l xs \<longleftrightarrow>
     lCells l = cells_of xs \<and> lSize l = of_nat (length xs) \<and> length xs < 2 ^ 32 \<and>
     lTop l = (if xs = [] then None else Some 0) \<and>
     lTail l = (if xs = [] then None else Some (length xs - 1))"

lemma length_cells_of [simp]: "length (cells_of xs) = length xs"
  by (simp add: cells_of_def)

lemma nth_cells_of [simp]:
  "i < length xs \<Longrightarrow> cells_of xs ! i = (xs ! i, if Suc i < length xs then Some (Suc i) else None)"
  by (simp add: cells_of_def)

lemma cells_of_snoc:
  "xs \<noteq> [] \<Longrightarrow> cells_of (xs @ [x]) =
    (cells_of xs @ [(x, None)])[length xs - 1 := (xs ! (length xs - 1), Some (length xs))]"
  by (rule nth_equalityI) (auto simp: cells_of_def nth_append nth_list_update)

lemma list_rep_new: "list_rep AstList_new []"
  by (simp add: list_rep_def AstList_new_def cells_of_def)

lemma list_rep_add:
  assumes "list_rep l xs" and "Suc (length xs) < 2 ^ 32"
  shows "\<exists>l'. list_add l x = Inr l' \<and> list_rep l' (xs @ [x])"
proof (cases "xs = []")
  case True
  with assms show ?thesis
    by (simp add: list_rep_def list_add_def cells_of_def)
next
  case False
  then obtain m where m: "length xs = Suc m" by (cases xs) auto
  have l: "lCells l = cells_of xs" "lSize l = of_nat (Suc m)" "lTop l = Some 0" "lTail l = Some m"
    using assms(1) False m by (simp_all add: list_rep_def)
  have "arr_get (cells_of xs @ [(x, None)]) (int m) = Inr (xs ! m, None)"
    using m by (simp add: nth_append)
  moreover have "arr_set (cells_of xs @ [(x, None)]) (int m) (xs ! m, Some (Suc m)) =
      Inr (cells_of (xs @ [x]))"
    using m False by (simp add: cells_of_snoc)
  ultimately have "list_add l x =
      Inr (l\<lparr>lCells := cells_of (xs @ [x]), lSize := lSize l + 1, lTail := Some (Suc m)\<rparr>)"
    using l m by (simp add: list_add_def Let_def)
  moreover have "of_nat (Suc m) + 1 = (of_nat (Suc (Suc m)) :: u32)" by simp
  ultimately show ?thesis
    using l(2,3) assms(2) m unfolding list_rep_def by (simp del: of_nat_Suc)
qed

lemma copy_loop_from:
  assumes "list_rep l xs" and "i \<le> length xs" and "length xs - i \<le> fuel"
  shows "copy_loop fuel l (if i < length xs then Some i else None) (of_nat i)
      (map Some (take i xs) @ replicate (length xs - i) None) = Some (Inr (map Some xs))"
  using assms(2,3)
proof (induction "length xs - i" arbitrary: i fuel)
  case 0
  then show ?case by (simp add: copy_loop.simps is_end_def)
next
  case (Suc n)
  then obtain k where fuel: "fuel = Suc k" by (cases fuel) auto
  have i: "i < length xs" "length xs < 2 ^ 32"
    using Suc.hyps(2) assms(1) by (auto simp: list_rep_def)
  then have pos: "uint (of_nat i :: u32) = int i"
    by (simp add: uint_nat unat_of_nat)
  have cell: "lCells l = cells_of xs" using assms(1) by (simp add: list_rep_def)
  have arr: "(map Some (take i xs) @ replicate (length xs - i) None)[i := Some (xs ! i)] =
      map Some (take (Suc i) xs) @ replicate (length xs - Suc i) None"
    using i(1) by (auto intro!: nth_equalityI simp: nth_append nth_list_update less_Suc_eq)
  have "copy_loop k l (if Suc i < length xs then Some (Suc i) else None) (of_nat (Suc i))
      (map Some (take (Suc i) xs) @ replicate (length xs - Suc i) None) = Some (Inr (map Some xs))"
    using Suc fuel i(1) by (intro Suc.hyps(1)) auto
  then show ?case
    using i(1) by (subst copy_loop.simps)
      (simp add: fuel is_end_def iter_deref_def iter_next_def cell pos arr ac_simps)
qed

lemma written_Some [simp]: "written (map Some xs) = Inr xs"
  by (induction xs) auto

lemma array_of_rep: "list_rep l xs \<Longrightarrow> array_of l = Some (Inr xs)"
  using copy_loop_from [of l xs 0 "length xs"]
  by (auto simp: array_of_def list_begin_def list_size_def list_rep_def unat_of_nat)

section \<open>The interface\<close>

text \<open>
  What the parser relies on: a container that starts empty, takes elements at its end while there
  are fewer than \<open>2^32\<close>, and can be turned into an array.
\<close>

locale collector =
  fixes new :: 'l
    and add :: "'l \<Rightarrow> 'a \<Rightarrow> 'l res"
    and array :: "'l \<Rightarrow> 'a list res option"
    and rep :: "'l \<Rightarrow> 'a list \<Rightarrow> bool"
  assumes new_rep: "rep new []"
    and add_rep: "rep l xs \<Longrightarrow> Suc (length xs) < 2 ^ 32 \<Longrightarrow> \<exists>l'. add l x = Inr l' \<and> rep l' (xs @ [x])"
    and array_rep: "rep l xs \<Longrightarrow> array l = Some (Inr xs)"
begin

fun add_all :: "'l \<Rightarrow> 'a list \<Rightarrow> 'l res" where
  "add_all l [] = Inr l"
| "add_all l (x # xs) = res_bind (add l x) (\<lambda>l'. add_all l' xs)"

lemma add_all_rep:
  assumes "rep l xs" and "length xs + length ys < 2 ^ 32"
  shows "\<exists>l'. add_all l ys = Inr l' \<and> rep l' (xs @ ys)"
  using assms
proof (induction ys arbitrary: l xs)
  case (Cons y ys)
  then obtain l' where "add l y = Inr l'" "rep l' (xs @ [y])"
    using add_rep [of l xs y] by auto
  then show ?case using Cons.IH [of l' "xs @ [y]"] Cons.prems(2) by simp
qed simp

lemma collected: "length xs < 2 ^ 32 \<Longrightarrow> \<exists>l. add_all new xs = Inr l \<and> array l = Some (Inr xs)"
  using add_all_rep [OF new_rep, of xs] array_rep by fastforce

end

interpretation al: collector AstList_new list_add array_of list_rep
  by unfold_locales (rule list_rep_new list_rep_add array_of_rep; assumption)+

end
