(* ===== verification/Ast_Mgr.thy ===== *)
theory Ast_Mgr
  imports Ast Ast_List Ymsl_Scanner
begin

text \<open>
  The manager of the syntax tree (\<^verbatim>\<open>src/ast/AstMgr.cc\<close>): the interface to the scanner and the
  constructors the parser calls. Memory comes from a pool that never fails, file positions are
  left out. A constructor that copies a list to an array inherits the result of that loop.
\<close>

section \<open>The interface to the scanner\<close>

text \<open>
  The semantic value of a token (the members of \<^verbatim>\<open>YYSTYPE\<close> that \<^verbatim>\<open>scan\<close> writes). A string
  passed as \<^verbatim>\<open>const char*\<close> ends at its first NUL. \<^verbatim>\<open>strtod\<close> is a parameter.
\<close>

datatype lval = NoVal | SymbolVal string | ExprVal ast_expr

type_synonym lexeme_val = "token \<times> lval"

definition c_str :: "string \<Rightarrow> string" where
  "c_str s = takeWhile (\<lambda>c. c \<noteq> CHR 0x00) s"

definition new_Symbol :: "string \<Rightarrow> string" where
  "new_Symbol str = c_str str"

definition new_StringConst :: "string \<Rightarrow> ast_expr" where
  "new_StringConst val = StringConstE (c_str val)"

definition new_IntConst :: "i32 \<Rightarrow> ast_expr" where
  "new_IntConst val = IntConstE val"

definition new_FloatConst :: "f64 \<Rightarrow> ast_expr" where
  "new_FloatConst val = FloatConstE val"

definition token_value :: "(string \<Rightarrow> f64) \<Rightarrow> token \<Rightarrow> 's scanner \<Rightarrow> lval" where
  "token_value strtod tok sc =
     (case tok of
        SYMBOL \<Rightarrow> SymbolVal (new_Symbol (mCurString sc))
      | STRING_VAL \<Rightarrow> ExprVal (new_StringConst (mCurString sc))
      | INT_VAL \<Rightarrow> ExprVal (new_IntConst (cur_int sc))
      | FLOAT_VAL \<Rightarrow> ExprVal (new_FloatConst (strtod (mCurString sc)))
      | _ \<Rightarrow> NoVal)"

definition ast_scan :: "(string \<Rightarrow> f64) \<Rightarrow> 's source \<Rightarrow> nat \<Rightarrow> 's scanner \<Rightarrow>
    (lexeme_val \<times> 's scanner) res option" where
  "ast_scan strtod src fuel sc =
     map_option (\<lambda>r. res_bind r (\<lambda>(t, sc'). Inr ((t, token_value strtod t sc'), sc')))
       (read_token src fuel sc)"

section \<open>Expressions\<close>

definition new_TrueConst :: ast_expr where "new_TrueConst = TrueE"

definition new_FalseConst :: ast_expr where "new_FalseConst = FalseE"

definition new_SymbolExpr :: "string \<Rightarrow> ast_expr" where
  "new_SymbolExpr symbol = SymbolE symbol"

definition new_MemberRef :: "ast_expr \<Rightarrow> string \<Rightarrow> ast_expr" where
  "new_MemberRef body member = MemberRefE body member"

definition new_ArrayRef :: "ast_expr \<Rightarrow> ast_expr \<Rightarrow> ast_expr" where
  "new_ArrayRef body index = ArrayRefE body index"

definition new_AstUniOp :: "op_code \<Rightarrow> ast_expr \<Rightarrow> ast_expr" where
  "new_AstUniOp opcode left = UniOpE opcode left"

definition new_AstBinOp :: "op_code \<Rightarrow> ast_expr \<Rightarrow> ast_expr \<Rightarrow> ast_expr" where
  "new_AstBinOp opcode left right = BinOpE opcode left right"

definition new_IteOp :: "ast_expr \<Rightarrow> ast_expr \<Rightarrow> ast_expr \<Rightarrow> ast_expr" where
  "new_IteOp opr1 opr2 opr3 = IteOpE opr1 opr2 opr3"

text \<open>A constructor that takes a list of the parser: what it builds from the elements.\<close>

definition with_array :: "('a list \<Rightarrow> 'b) \<Rightarrow> 'a ast_list \<Rightarrow> 'b res option" where
  "with_array f l = map_option (\<lambda>r. res_bind r (\<lambda>xs. Inr (f xs))) (array_of l)"

lemma with_array_rep [simp]: "list_rep l xs \<Longrightarrow> with_array f l = Some (Inr (f xs))"
  by (simp add: with_array_def al.array_rep)

definition new_FuncCall :: "ast_expr \<Rightarrow> ast_expr ast_list \<Rightarrow> ast_expr res option" where
  "new_FuncCall f expr_list = with_array (FuncCallE f) expr_list"

section \<open>Types\<close>

definition new_AstPrimType :: "type_id \<Rightarrow> ast_type" where "new_AstPrimType type = PrimT type"

definition new_NamedType :: "ast_expr \<Rightarrow> ast_type" where "new_NamedType name = NamedT name"

definition new_ArrayType :: "ast_type \<Rightarrow> ast_type" where "new_ArrayType elem = ArrayT elem"

definition new_SetType :: "ast_type \<Rightarrow> ast_type" where "new_SetType elem = SetT elem"

definition new_MapType :: "ast_type \<Rightarrow> ast_type \<Rightarrow> ast_type" where
  "new_MapType key elem = MapT key elem"

section \<open>Statements\<close>

definition new_Import :: "string \<Rightarrow> string option \<Rightarrow> ast_stmt" where
  "new_Import module alias = Import module alias"

definition new_EnumConst :: "string \<Rightarrow> ast_expr option \<Rightarrow> string \<times> ast_expr option" where
  "new_EnumConst name e = (name, e)"

definition new_EnumDecl :: "string \<Rightarrow> (string \<times> ast_expr option) ast_list \<Rightarrow> ast_stmt res option" where
  "new_EnumDecl name const_list = with_array (EnumDecl name) const_list"

definition new_VarDecl :: "string \<Rightarrow> ast_type \<Rightarrow> ast_expr option \<Rightarrow> ast_stmt" where
  "new_VarDecl name type init_expr = VarDecl name type init_expr"

definition new_ConstDecl :: "string \<Rightarrow> ast_type \<Rightarrow> ast_expr \<Rightarrow> ast_stmt" where
  "new_ConstDecl name type init_expr = ConstDecl name type init_expr"

definition new_Param ::
  "string \<Rightarrow> ast_type \<Rightarrow> ast_expr option \<Rightarrow> string \<times> ast_type \<times> ast_expr option" where
  "new_Param name type init_expr = (name, type, init_expr)"

definition new_FuncDecl :: "string \<Rightarrow> ast_type \<Rightarrow> (string \<times> ast_type \<times> ast_expr option) ast_list \<Rightarrow>
    ast_stmt \<Rightarrow> ast_stmt res option" where
  "new_FuncDecl name type param_list stmt =
     with_array (\<lambda>params. FuncDecl name type params stmt) param_list"

definition new_Assignment :: "ast_expr \<Rightarrow> ast_expr \<Rightarrow> ast_stmt" where
  "new_Assignment left right = Assignment left right"

definition new_InplaceOp :: "op_code \<Rightarrow> ast_expr \<Rightarrow> ast_expr \<Rightarrow> ast_stmt" where
  "new_InplaceOp opcode left right = InplaceOp opcode left right"

definition new_Incr :: "ast_expr \<Rightarrow> ast_stmt" where "new_Incr e = Incr e"

definition new_Decr :: "ast_expr \<Rightarrow> ast_stmt" where "new_Decr e = Decr e"

definition new_If :: "ast_expr \<Rightarrow> ast_stmt \<Rightarrow> ast_stmt option \<Rightarrow> ast_stmt" where
  "new_If e then_stmt else_stmt = If e then_stmt else_stmt"

definition new_For :: "ast_stmt \<Rightarrow> ast_expr \<Rightarrow> ast_stmt \<Rightarrow> ast_stmt \<Rightarrow> ast_stmt" where
  "new_For ini cond next_stmt stmt = For ini cond next_stmt stmt"

definition new_While :: "ast_expr \<Rightarrow> ast_stmt \<Rightarrow> ast_stmt" where
  "new_While cond stmt = While cond stmt"

definition new_DoWhile :: "ast_stmt \<Rightarrow> ast_expr \<Rightarrow> ast_stmt" where
  "new_DoWhile stmt cond = DoWhile stmt cond"

definition new_CaseItem :: "ast_expr option \<Rightarrow> ast_stmt \<Rightarrow> ast_expr option \<times> ast_stmt" where
  "new_CaseItem label stmt = (label, stmt)"

definition new_Switch :: "ast_expr \<Rightarrow> (ast_expr option \<times> ast_stmt) ast_list \<Rightarrow> ast_stmt res option" where
  "new_Switch e items = with_array (Switch e) items"

definition new_Goto :: "string \<Rightarrow> ast_stmt" where "new_Goto label = Goto label"

definition new_LabelStmt :: "string \<Rightarrow> ast_stmt" where "new_LabelStmt label = LabelStmt label"

definition new_Break :: ast_stmt where "new_Break = Break"

definition new_Continue :: ast_stmt where "new_Continue = Continue"

definition new_ReturnStmt :: "ast_expr option \<Rightarrow> ast_stmt" where "new_ReturnStmt e = ReturnStmt e"

definition new_BlockStmt :: "ast_stmt ast_list \<Rightarrow> ast_stmt res option" where
  "new_BlockStmt stmt_list = with_array BlockStmt stmt_list"

definition new_ExprStmt :: "ast_expr \<Rightarrow> ast_stmt" where "new_ExprStmt e = ExprStmt e"

definition new_NullStmt :: ast_stmt where "new_NullStmt = NullStmt"

text \<open>The root is set once.\<close>

definition set_root :: "ast_stmt ast_list \<Rightarrow> ast_stmt ast_list \<Rightarrow> ast_stmt option \<Rightarrow> ast_stmt res option" where
  "set_root head_list stmt_list mToplevel =
     (case array_of head_list of
        None \<Rightarrow> None
      | Some heads \<Rightarrow>
          map_option (\<lambda>stmts.
            res_bind (assert_cond (mToplevel = None)) (\<lambda>_.
            res_bind heads (\<lambda>hs. res_bind stmts (\<lambda>ss. Inr (Toplevel hs ss)))))
            (array_of stmt_list))"

lemmas new_defs = new_TrueConst_def new_FalseConst_def new_SymbolExpr_def new_MemberRef_def
  new_ArrayRef_def new_AstUniOp_def new_AstBinOp_def new_IteOp_def new_FuncCall_def new_AstPrimType_def
  new_NamedType_def new_ArrayType_def new_SetType_def new_MapType_def new_Import_def
  new_EnumConst_def new_EnumDecl_def new_VarDecl_def new_ConstDecl_def new_Param_def
  new_FuncDecl_def new_Assignment_def new_InplaceOp_def new_Incr_def new_Decr_def new_If_def
  new_For_def new_While_def new_DoWhile_def new_CaseItem_def new_Switch_def new_Goto_def
  new_LabelStmt_def new_Break_def new_Continue_def new_ReturnStmt_def new_BlockStmt_def
  new_ExprStmt_def new_NullStmt_def

end
