(* ===== verification/Grammar.thy ===== *)
theory Grammar
  imports Ast_Mgr
begin

text \<open>
  The grammar of the language (\<^verbatim>\<open>src/parser/grammer.yy\<close>): one predicate for each non-terminal, one
  rule for each production, with the value its action builds. The precedence declarations, which
  choose one of several derivations of a text, and the error productions are left out.
\<close>

abbreviation tok :: "token \<Rightarrow> lexeme_val" where "tok t \<equiv> (t, NoVal)"

abbreviation sym :: "string \<Rightarrow> lexeme_val" where "sym name \<equiv> (SYMBOL, SymbolVal name)"

section \<open>Expressions\<close>

text \<open>The productions \<^verbatim>\<open>expr : expr OP expr\<close>; \<^verbatim>\<open>>\<close> and \<^verbatim>\<open>>=\<close> exchange their operands.\<close>

fun bin_action :: "op_token \<Rightarrow> (ast_expr \<Rightarrow> ast_expr \<Rightarrow> ast_expr) option" where
  "bin_action PLUS = Some (new_AstBinOp kOpAdd)"
| "bin_action MINUS = Some (new_AstBinOp kOpSub)"
| "bin_action MULT = Some (new_AstBinOp kOpMul)"
| "bin_action DIV = Some (new_AstBinOp kOpDiv)"
| "bin_action MOD = Some (new_AstBinOp kOpMod)"
| "bin_action LSHIFT = Some (new_AstBinOp kOpLshift)"
| "bin_action RSHIFT = Some (new_AstBinOp kOpRshift)"
| "bin_action BITAND = Some (new_AstBinOp kOpBitAnd)"
| "bin_action BITOR = Some (new_AstBinOp kOpBitOr)"
| "bin_action BITXOR = Some (new_AstBinOp kOpBitXor)"
| "bin_action LOGAND = Some (new_AstBinOp kOpLogAnd)"
| "bin_action LOGOR = Some (new_AstBinOp kOpLogOr)"
| "bin_action EQEQ = Some (new_AstBinOp kOpEqual)"
| "bin_action NOTEQ = Some (new_AstBinOp kOpNotEq)"
| "bin_action LT = Some (new_AstBinOp kOpLt)"
| "bin_action GT = Some (\<lambda>x y. new_AstBinOp kOpLt y x)"
| "bin_action LE = Some (new_AstBinOp kOpLe)"
| "bin_action GE = Some (\<lambda>x y. new_AstBinOp kOpLe y x)"
| "bin_action _ = None"

fun uni_action :: "op_token \<Rightarrow> (ast_expr \<Rightarrow> ast_expr) option" where
  "uni_action MINUS = Some (new_AstUniOp kOpUniMinus)"
| "uni_action BITNEG = Some (new_AstUniOp kOpBitNeg)"
| "uni_action LOGNOT = Some (new_AstUniOp kOpLogNot)"
| "uni_action _ = None"

fun cast_action :: "word_token \<Rightarrow> (ast_expr \<Rightarrow> ast_expr) option" where
  "cast_action INT' = Some (new_AstUniOp kOpCastInt)"
| "cast_action BOOLEAN = Some (new_AstUniOp kOpCastBoolean)"
| "cast_action FLOAT = Some (new_AstUniOp kOpCastFloat)"
| "cast_action _ = None"

inductive g_expr :: "lexeme_val list \<Rightarrow> ast_expr \<Rightarrow> bool"
  and g_primary :: "lexeme_val list \<Rightarrow> ast_expr \<Rightarrow> bool"
  and g_expr_list :: "lexeme_val list \<Rightarrow> ast_expr ast_list \<Rightarrow> bool"
where
  e_true: "g_expr [tok (Word TRUE)] new_TrueConst"
| e_false: "g_expr [tok (Word FALSE)] new_FalseConst"
| e_value: "t \<in> {INT_VAL, FLOAT_VAL, STRING_VAL} \<Longrightarrow> g_expr [(t, ExprVal e)] e"
| e_primary: "g_primary ts e \<Longrightarrow> g_expr ts e"
| e_uni: "uni_action op = Some f \<Longrightarrow> g_expr ts x \<Longrightarrow> g_expr (tok (Oper op) # ts) (f x)"
| e_cast: "cast_action w = Some f \<Longrightarrow> g_expr ts x \<Longrightarrow>
    g_expr (tok (Word w) # tok (Punct LP) # ts @ [tok (Punct RP)]) (f x)"
| e_bin: "bin_action op = Some f \<Longrightarrow> g_expr ts x \<Longrightarrow> g_expr us y \<Longrightarrow>
    g_expr (ts @ tok (Oper op) # us) (f x y)"
| e_ite: "g_expr ts x \<Longrightarrow> g_expr us y \<Longrightarrow> g_expr vs z \<Longrightarrow>
    g_expr (ts @ tok (Punct QST) # us @ tok (Punct COLON) # vs) (new_IteOp x y z)"
| e_paren: "g_expr ts e \<Longrightarrow> g_expr (tok (Punct LP) # ts @ [tok (Punct RP)]) e"
| e_call: "g_primary ts f \<Longrightarrow> g_expr_list us args \<Longrightarrow> new_FuncCall f args = Some (Inr e) \<Longrightarrow>
    g_expr (ts @ tok (Punct LP) # us @ [tok (Punct RP)]) e"
| p_symbol: "g_primary [sym name] (new_SymbolExpr name)"
| p_member: "g_primary ts e \<Longrightarrow> g_primary (ts @ [tok (Punct DOT), sym name]) (new_MemberRef e name)"
| p_array: "g_primary ts e \<Longrightarrow> g_expr us i \<Longrightarrow>
    g_primary (ts @ tok (Punct LBK) # us @ [tok (Punct RBK)]) (new_ArrayRef e i)"
| l_none: "g_expr_list [] AstList_new"
| l_one: "g_expr ts e \<Longrightarrow> list_add AstList_new e = Inr l \<Longrightarrow> g_expr_list ts l"
| l_more: "g_expr_list ts l \<Longrightarrow> g_expr us e \<Longrightarrow> list_add l e = Inr l' \<Longrightarrow>
    g_expr_list (ts @ tok (Punct COMMA) # us) l'"

inductive g_init :: "lexeme_val list \<Rightarrow> ast_expr option \<Rightarrow> bool" where
  i_none: "g_init [] None"
| i_some: "g_expr ts e \<Longrightarrow> g_init (tok (Punct EQ) # ts) (Some e)"

section \<open>Types\<close>

fun prim_action :: "word_token \<Rightarrow> type_id option" where
  "prim_action VOID = Some kVoidType"
| "prim_action BOOLEAN = Some kBooleanType"
| "prim_action INT' = Some kIntType"
| "prim_action FLOAT = Some kFloatType"
| "prim_action STRING = Some kStringType"
| "prim_action _ = None"

inductive g_type :: "lexeme_val list \<Rightarrow> ast_type \<Rightarrow> bool" where
  t_prim: "prim_action w = Some t \<Longrightarrow> g_type [tok (Word w)] (new_AstPrimType t)"
| t_named: "g_primary ts e \<Longrightarrow> g_type ts (new_NamedType e)"
| t_array: "g_type ts t \<Longrightarrow>
    g_type (tok (Word ARRAY) # tok (Punct LP) # ts @ [tok (Punct RP)]) (new_ArrayType t)"
| t_set: "g_type ts t \<Longrightarrow>
    g_type (tok (Word SET) # tok (Punct LP) # ts @ [tok (Punct RP)]) (new_SetType t)"
| t_map: "g_type ts t \<Longrightarrow> g_type us u \<Longrightarrow>
    g_type (tok (Word MAP) # tok (Punct LP) # ts @ tok (Punct COMMA) # us @ [tok (Punct RP)])
      (new_MapType t u)"

section \<open>Parameters and enumerators\<close>

inductive g_param :: "lexeme_val list \<Rightarrow> string \<times> ast_type \<times> ast_expr option \<Rightarrow> bool" where
  "g_type ts t \<Longrightarrow> g_init us i \<Longrightarrow>
    g_param (sym name # tok (Punct COLON) # ts @ us) (new_Param name t i)"

inductive g_param_list ::
  "lexeme_val list \<Rightarrow> (string \<times> ast_type \<times> ast_expr option) ast_list \<Rightarrow> bool" where
  pl_none: "g_param_list [] AstList_new"
| pl_one: "g_param ts p \<Longrightarrow> list_add AstList_new p = Inr l \<Longrightarrow> g_param_list ts l"
| pl_more: "g_param_list ts l \<Longrightarrow> g_param us p \<Longrightarrow> list_add l p = Inr l' \<Longrightarrow>
    g_param_list (ts @ tok (Punct COMMA) # us) l'"

text \<open>The four productions of an enumerator list are its first and further elements, each with or
  without a value.\<close>

inductive g_enumconst :: "lexeme_val list \<Rightarrow> string \<times> ast_expr option \<Rightarrow> bool" where
  "g_init ts i \<Longrightarrow> g_enumconst (sym name # ts) (new_EnumConst name i)"

inductive g_enumconst_list ::
  "lexeme_val list \<Rightarrow> (string \<times> ast_expr option) ast_list \<Rightarrow> bool" where
  ec_one: "g_enumconst ts ec \<Longrightarrow> list_add AstList_new ec = Inr l \<Longrightarrow> g_enumconst_list ts l"
| ec_more: "g_enumconst_list ts l \<Longrightarrow> g_enumconst us ec \<Longrightarrow> list_add l ec = Inr l' \<Longrightarrow>
    g_enumconst_list (ts @ tok (Punct COMMA) # us) l'"

section \<open>Statements\<close>

fun eqop :: "punct_token \<Rightarrow> op_code option" where
  "eqop EQPLUS = Some kOpAdd"
| "eqop EQMINUS = Some kOpSub"
| "eqop EQMULT = Some kOpMul"
| "eqop EQDIV = Some kOpDiv"
| "eqop EQMOD = Some kOpMod"
| "eqop EQLSHIFT = Some kOpLshift"
| "eqop EQRSHIFT = Some kOpRshift"
| "eqop EQBITAND = Some kOpBitAnd"
| "eqop EQBITOR = Some kOpBitOr"
| "eqop EQBITXOR = Some kOpBitXor"
| "eqop _ = None"

inductive g_single :: "lexeme_val list \<Rightarrow> ast_stmt \<Rightarrow> bool" where
  s_assign: "g_primary ts x \<Longrightarrow> g_expr us y \<Longrightarrow>
    g_single (ts @ tok (Punct EQ) # us) (new_Assignment x y)"
| s_inplace: "eqop p = Some opcode \<Longrightarrow> g_primary ts x \<Longrightarrow> g_expr us y \<Longrightarrow>
    g_single (ts @ tok (Punct p) # us) (new_InplaceOp opcode x y)"
| s_expr: "g_expr ts e \<Longrightarrow> g_single ts (new_ExprStmt e)"
| s_incr: "g_primary ts e \<Longrightarrow> g_single (ts @ [tok (Punct PLUSPLUS)]) (new_Incr e)"
| s_decr: "g_primary ts e \<Longrightarrow> g_single (ts @ [tok (Punct MINUSMINUS)]) (new_Decr e)"
| s_goto: "g_single [tok (Word GOTO), sym name] (new_Goto name)"
| s_break: "g_single [tok (Word BREAK)] new_Break"
| s_continue: "g_single [tok (Word CONTINUE)] new_Continue"
| s_return: "g_single [tok (Word RETURN)] (new_ReturnStmt None)"
| s_return_value: "g_expr ts e \<Longrightarrow> g_single (tok (Word RETURN) # ts) (new_ReturnStmt (Some e))"

inductive g_stmt :: "lexeme_val list \<Rightarrow> ast_stmt \<Rightarrow> bool"
  and g_stmts :: "lexeme_val list \<Rightarrow> ast_stmt ast_list \<Rightarrow> bool"
  and g_complex :: "lexeme_val list \<Rightarrow> ast_stmt \<Rightarrow> bool"
  and g_block :: "lexeme_val list \<Rightarrow> ast_stmt \<Rightarrow> bool"
  and g_else :: "lexeme_val list \<Rightarrow> ast_stmt option \<Rightarrow> bool"
  and g_cases :: "lexeme_val list \<Rightarrow> (ast_expr option \<times> ast_stmt) ast_list \<Rightarrow> bool"
where
  ss_none: "g_stmts [] AstList_new"
| ss_more: "g_stmts ts l \<Longrightarrow> g_stmt us s \<Longrightarrow> list_add l s = Inr l' \<Longrightarrow> g_stmts (ts @ us) l'"
| st_single: "g_single ts s \<Longrightarrow> g_stmt (ts @ [tok (Punct SEMI)]) s"
| st_complex: "g_complex ts s \<Longrightarrow> g_stmt ts s"
| st_enum: "g_enumconst_list ts l \<Longrightarrow> new_EnumDecl name l = Some (Inr s) \<Longrightarrow>
    g_stmt (tok (Word ENUM) # sym name # tok (Punct LCB) # ts @ [tok (Punct RCB)]) s"
| st_function: "g_param_list ts l \<Longrightarrow> g_type us t \<Longrightarrow> g_block vs body \<Longrightarrow>
    new_FuncDecl name t l body = Some (Inr s) \<Longrightarrow>
    g_stmt (tok (Word FUNCTION) # sym name # tok (Punct LP) # ts @ tok (Punct RP) #
      tok (Punct COLON) # us @ vs) s"
| st_var: "g_type ts t \<Longrightarrow> g_init us i \<Longrightarrow>
    g_stmt (tok (Word VAR) # sym name # tok (Punct COLON) # ts @ us @ [tok (Punct SEMI)])
      (new_VarDecl name t i)"
| st_const: "g_type ts t \<Longrightarrow> g_expr us e \<Longrightarrow>
    g_stmt (tok (Word CONST') # sym name # tok (Punct COLON) # ts @ tok (Punct EQ) # us @ [tok (Punct SEMI)])
      (new_ConstDecl name t e)"
| st_label: "g_stmt [sym name, tok (Punct COLON)] (new_LabelStmt name)"
| st_null: "g_stmt [tok (Punct SEMI)] new_NullStmt"
| c_if: "g_expr ts e \<Longrightarrow> g_block us then_stmt \<Longrightarrow> g_else vs else_stmt \<Longrightarrow>
    g_complex (tok (Word IF) # ts @ us @ vs) (new_If e then_stmt else_stmt)"
| c_for: "g_single ts ini \<Longrightarrow> g_expr us e \<Longrightarrow> g_single vs next_stmt \<Longrightarrow> g_block ws body \<Longrightarrow>
    g_complex (tok (Word FOR) # tok (Punct LP) # ts @ tok (Punct SEMI) # us @ tok (Punct SEMI) # vs @
      tok (Punct RP) # ws) (new_For ini e next_stmt body)"
| c_while: "g_expr ts e \<Longrightarrow> g_block us body \<Longrightarrow>
    g_complex (tok (Word WHILE) # tok (Punct LP) # ts @ tok (Punct RP) # us) (new_While e body)"
| c_do: "g_block ts body \<Longrightarrow> g_expr us e \<Longrightarrow>
    g_complex (tok (Word DO) # ts @ tok (Word WHILE) # tok (Punct LP) # us @ [tok (Punct RP)])
      (new_DoWhile body e)"
| c_switch: "g_expr ts e \<Longrightarrow> g_cases us l \<Longrightarrow> new_Switch e l = Some (Inr s) \<Longrightarrow>
    g_complex (tok (Word SWITCH) # ts @ tok (Punct LCB) # us @ [tok (Punct RCB)]) s"
| c_block: "g_block ts s \<Longrightarrow> g_complex ts s"
| b_block: "g_stmts ts l \<Longrightarrow> new_BlockStmt l = Some (Inr s) \<Longrightarrow>
    g_block (tok (Punct LCB) # ts @ [tok (Punct RCB)]) s"
| el_none: "g_else [] None"
| el_else: "g_block ts s \<Longrightarrow> g_else (tok (Word ELSE) # ts) (Some s)"
| el_elif: "g_expr ts e \<Longrightarrow> g_block us then_stmt \<Longrightarrow> g_else vs else_stmt \<Longrightarrow>
    g_else (tok (Word ELIF) # ts @ us @ vs) (Some (new_If e then_stmt else_stmt))"
| cs_none: "g_cases [] AstList_new"
| cs_case: "g_cases ts l \<Longrightarrow> g_expr us e \<Longrightarrow> g_block vs s \<Longrightarrow>
    list_add l (new_CaseItem (Some e) s) = Inr l' \<Longrightarrow>
    g_cases (ts @ tok (Word CASE) # us @ tok (Punct COLON) # vs) l'"
| cs_default: "g_cases ts l \<Longrightarrow> g_block us s \<Longrightarrow> list_add l (new_CaseItem None s) = Inr l' \<Longrightarrow>
    g_cases (ts @ tok (Word DEFAULT) # tok (Punct COLON) # us) l'"

section \<open>Modules\<close>

inductive g_import :: "lexeme_val list \<Rightarrow> ast_stmt \<Rightarrow> bool" where
  im_plain: "g_import [tok (Word IMPORT), sym name, tok (Punct SEMI)] (new_Import name None)"
| im_alias: "g_import [tok (Word IMPORT), sym name, tok (Word AS), sym alias, tok (Punct SEMI)]
    (new_Import name (Some alias))"

inductive g_head :: "lexeme_val list \<Rightarrow> ast_stmt ast_list \<Rightarrow> bool" where
  h_none: "g_head [] AstList_new"
| h_more: "g_head ts l \<Longrightarrow> g_import us s \<Longrightarrow> list_add l s = Inr l' \<Longrightarrow> g_head (ts @ us) l'"

inductive g_module :: "lexeme_val list \<Rightarrow> ast_stmt \<Rightarrow> bool" where
  "g_head ts heads \<Longrightarrow> g_stmts us stmts \<Longrightarrow> set_root heads stmts None = Some (Inr m) \<Longrightarrow>
    g_module (ts @ us) m"

end
