(* ===== verification/Ast_Printer.thy ===== *)
theory Ast_Printer
  imports Ast
begin

text \<open>
  The printer of the syntax tree (\<^verbatim>\<open>src/ast/AstPrinter.cc\<close>). What is written to the stream is
  returned; a failed assertion is a fault. How the stream writes a \<^verbatim>\<open>double\<close> is the parameter
  \<open>show_float\<close>.
\<close>

section \<open>Texts that may fail\<close>

definition cat :: "string res \<Rightarrow> string res \<Rightarrow> string res" where
  "cat f g = res_bind f (\<lambda>x. res_bind g (\<lambda>y. Inr (x @ y)))"

definition out :: "string \<Rightarrow> string res" where
  "out s = Inr s"

fun outs :: "string res list \<Rightarrow> string res" where
  "outs [] = out ''''"
| "outs (f # fs) = cat f (outs fs)"

lemma outs_Inr: "outs (map Inr ts) = Inr (concat ts)"
  by (induction ts) (simp_all add: cat_def out_def)

lemma cat_Inr [simp]: "cat (Inr x) (Inr y) = Inr (x @ y)"
  by (simp add: cat_def)

lemma outs_cong [fundef_cong]: "fs = gs \<Longrightarrow> outs fs = outs gs"
  by simp

abbreviation nl :: char where "nl \<equiv> CHR 0x0A"

text \<open>Decimal numbers.\<close>

fun show_nat :: "nat \<Rightarrow> string" where
  "show_nat n =
     (if n < 10 then [char_of (48 + n)] else show_nat (n div 10) @ [char_of (48 + n mod 10)])"

declare show_nat.simps [simp del]

definition show_int :: "i32 \<Rightarrow> string" where
  "show_int v = (if sint v < 0 then ''-'' @ show_nat (nat (- sint v)) else show_nat (nat (sint v)))"

text \<open>Elements with commas between them.\<close>

fun commas :: "string res list \<Rightarrow> string res" where
  "commas [] = out ''''"
| "commas [f] = f"
| "commas (f # fs) = cat f (cat (out '', '') (commas fs))"

section \<open>Expressions\<close>

definition uni_text :: "op_code \<Rightarrow> string res \<Rightarrow> string res" where
  "uni_text opcode x =
     (case opcode of
        kOpUniMinus \<Rightarrow> outs [out ''('', out '' - '', x, out '')'']
      | kOpBitNeg \<Rightarrow> outs [out ''('', out '' ~ '', x, out '')'']
      | kOpLogNot \<Rightarrow> outs [out ''('', out '' not '', x, out '')'']
      | kOpCastInt \<Rightarrow> outs [out ''int('', x, out '')'']
      | kOpCastBoolean \<Rightarrow> outs [out ''boolean('', x, out '')'']
      | kOpCastFloat \<Rightarrow> outs [out ''float('', x, out '')'']
      | _ \<Rightarrow> Inl AssertFail)"

fun bin_symbol :: "op_code \<Rightarrow> string res" where
  "bin_symbol kOpBitAnd = out '' & ''"
| "bin_symbol kOpBitOr = out '' | ''"
| "bin_symbol kOpBitXor = out '' ^ ''"
| "bin_symbol kOpLogAnd = out '' and ''"
| "bin_symbol kOpLogOr = out '' or ''"
| "bin_symbol kOpEqual = out '' == ''"
| "bin_symbol kOpNotEq = out '' != ''"
| "bin_symbol kOpLt = out '' < ''"
| "bin_symbol kOpLe = out '' <= ''"
| "bin_symbol kOpAdd = out '' + ''"
| "bin_symbol kOpSub = out '' - ''"
| "bin_symbol kOpMul = out '' * ''"
| "bin_symbol kOpDiv = out '' / ''"
| "bin_symbol kOpMod = out '' % ''"
| "bin_symbol kOpLshift = out '' << ''"
| "bin_symbol kOpRshift = out '' >> ''"
| "bin_symbol _ = Inl AssertFail"

fun print_expr :: "(f64 \<Rightarrow> string) \<Rightarrow> ast_expr \<Rightarrow> string res" where
  "print_expr show_float TrueE = out ''true''"
| "print_expr show_float FalseE = out ''false''"
| "print_expr show_float (IntConstE v) = out (show_int v)"
| "print_expr show_float (FloatConstE v) = out (show_float v)"
| "print_expr show_float (StringConstE v) = out ([CHR 0x22] @ v @ [CHR 0x22])"
| "print_expr show_float (SymbolE name) = out name"
| "print_expr show_float (MemberRefE body member) =
     outs [print_expr show_float body, out ''.'', out member]"
| "print_expr show_float (ArrayRefE body index) =
     outs [print_expr show_float body, out ''['', print_expr show_float index, out '']'']"
| "print_expr show_float (UniOpE opcode x) = uni_text opcode (print_expr show_float x)"
| "print_expr show_float (BinOpE opcode x y) =
     outs [out ''('', print_expr show_float x, bin_symbol opcode, print_expr show_float y, out '')'']"
| "print_expr show_float (IteOpE x y z) =
     outs [out ''('', print_expr show_float x, out '' ? '', print_expr show_float y, out '' : '',
       print_expr show_float z, out '')'']"
| "print_expr show_float (FuncCallE f args) =
     outs [print_expr show_float f, out ''('', commas (map (print_expr show_float) args), out '')'']"

section \<open>Types\<close>

fun print_type :: "(f64 \<Rightarrow> string) \<Rightarrow> ast_type \<Rightarrow> string res" where
  "print_type show_float (PrimT t) =
     (case t of
        kVoidType \<Rightarrow> out ''void''
      | kBooleanType \<Rightarrow> out ''boolean''
      | kIntType \<Rightarrow> out ''int''
      | kFloatType \<Rightarrow> out ''float''
      | kStringType \<Rightarrow> out ''string''
      | _ \<Rightarrow> Inl AssertFail)"
| "print_type show_float (ArrayT t) = outs [out ''array('', print_type show_float t, out '')'']"
| "print_type show_float (SetT t) = outs [out ''set('', print_type show_float t, out '')'']"
| "print_type show_float (MapT k t) =
     outs [out ''map('', print_type show_float k, out '', '', print_type show_float t, out '')'']"
| "print_type show_float (NamedT e) = print_expr show_float e"

section \<open>Statements\<close>

definition print_indent :: "nat \<Rightarrow> string res" where
  "print_indent indent = out (concat (replicate indent ''  ''))"

definition print_init :: "(f64 \<Rightarrow> string) \<Rightarrow> ast_expr option \<Rightarrow> string res" where
  "print_init show_float e =
     (case e of None \<Rightarrow> out '''' | Some e \<Rightarrow> cat (out '' = '') (print_expr show_float e))"

fun eq_symbol :: "op_code \<Rightarrow> string res" where
  "eq_symbol kOpAdd = out '' += ''"
| "eq_symbol kOpSub = out '' -= ''"
| "eq_symbol kOpMul = out '' *= ''"
| "eq_symbol kOpDiv = out '' /= ''"
| "eq_symbol kOpMod = out '' %= ''"
| "eq_symbol kOpLshift = out '' <<= ''"
| "eq_symbol kOpRshift = out '' >>= ''"
| "eq_symbol kOpBitAnd = out '' &= ''"
| "eq_symbol kOpBitOr = out '' |= ''"
| "eq_symbol kOpBitXor = out '' ^= ''"
| "eq_symbol _ = Inl AssertFail"

text \<open>The enumerators, a comma after each but the last.\<close>

fun print_enums :: "(f64 \<Rightarrow> string) \<Rightarrow> nat \<Rightarrow> (string \<times> ast_expr option) list \<Rightarrow> string res" where
  "print_enums show_float indent [] = out ''''"
| "print_enums show_float indent ((name, e) # ecs) =
     outs [print_indent (indent + 1), out name, print_init show_float e,
       out (if ecs = [] then '''' else '',''), out [nl], print_enums show_float indent ecs]"

definition print_param :: "(f64 \<Rightarrow> string) \<Rightarrow> string \<times> ast_type \<times> ast_expr option \<Rightarrow> string res" where
  "print_param show_float p =
     (case p of (name, t, e) \<Rightarrow>
       outs [out name, out '': '', print_type show_float t, print_init show_float e])"

fun print_stmt :: "(f64 \<Rightarrow> string) \<Rightarrow> ast_stmt \<Rightarrow> nat \<Rightarrow> string res" where
  "print_stmt sf (BlockStmt sts) i =
     outs [print_indent i, out (''{'' @ [nl]), outs (map (\<lambda>st. print_stmt sf st (i + 1)) sts),
       print_indent i, out (''}'' @ [nl])]"
| "print_stmt sf Break i = outs [print_indent i, out (''break;'' @ [nl])]"
| "print_stmt sf (ConstDecl name t e) i =
     outs [print_indent i, out ''const '', out name, out '': '', print_type sf t, out '' = '',
       print_expr sf e, out ('';'' @ [nl])]"
| "print_stmt sf Continue i = outs [print_indent i, out (''continue;'' @ [nl])]"
| "print_stmt sf (Decr e) i = outs [print_indent i, print_expr sf e, out ('' --;'' @ [nl])]"
| "print_stmt sf (DoWhile st e) i =
     outs [print_indent i, out (''do'' @ [nl]), print_stmt sf st (i + 1), print_indent i,
       out ''while '', print_expr sf e, out [nl]]"
| "print_stmt sf (EnumDecl name ecs) i =
     outs [print_indent i, out ''enum '', out name, out ('' {'' @ [nl]), print_enums sf i ecs,
       print_indent i, out (''}'' @ [nl])]"
| "print_stmt sf (Assignment x y) i =
     outs [print_indent i, print_expr sf x, out '' = '', print_expr sf y, out ('';'' @ [nl])]"
| "print_stmt sf (InplaceOp opcode x y) i =
     outs [print_indent i, print_expr sf x, eq_symbol opcode, print_expr sf y, out ('';'' @ [nl])]"
| "print_stmt sf (ExprStmt e) i = outs [print_indent i, print_expr sf e, out ('';'' @ [nl])]"
| "print_stmt sf (For ini e next_stmt st) i =
     outs [print_indent i, out (''for ('' @ [nl]), print_stmt sf ini (i + 1), print_indent (i + 1),
       print_expr sf e, out ('';'' @ [nl]), print_stmt sf next_stmt (i + 1),
       print_stmt sf st (i + 1)]"
| "print_stmt sf (FuncDecl name t params st) i =
     outs [print_indent i, out ''function '', out name, out ''('', commas (map (print_param sf) params),
       out ('')'' @ [nl]), print_stmt sf st (i + 1)]"
| "print_stmt sf (Goto name) i = outs [print_indent i, out ''goto '', out name, out ('';'' @ [nl])]"
| "print_stmt sf (If e then_stmt else_stmt) i =
     outs [print_indent i, out ''if '', print_expr sf e, out [nl], print_stmt sf then_stmt (i + 1),
       (case else_stmt of
          None \<Rightarrow> out ''''
        | Some st \<Rightarrow> outs [print_indent i, out (''else'' @ [nl]), print_stmt sf st (i + 1)])]"
| "print_stmt sf (Import m alias) i =
     outs [print_indent i, out ''import '', out m,
       (case alias of None \<Rightarrow> out '''' | Some a \<Rightarrow> cat (out '' as '') (out a)), out ('';'' @ [nl])]"
| "print_stmt sf (Incr e) i = outs [print_indent i, print_expr sf e, out ('' ++;'' @ [nl])]"
| "print_stmt sf (LabelStmt name) i = outs [print_indent i, out name, out ('':'' @ [nl])]"
| "print_stmt sf NullStmt i = outs [print_indent i, out ('';'' @ [nl])]"
| "print_stmt sf (ReturnStmt e) i =
     outs [print_indent i, out ''return'',
       (case e of None \<Rightarrow> out '''' | Some e \<Rightarrow> cat (out '' '') (print_expr sf e)), out ('';'' @ [nl])]"
| "print_stmt sf (Switch e cases) i =
     outs [print_indent i, out ''switch '', print_expr sf e, out (''{'' @ [nl]),
       outs (map (\<lambda>(label, st).
         outs [print_indent i,
           (case label of None \<Rightarrow> out ''default'' | Some l \<Rightarrow> cat (out ''case '') (print_expr sf l)),
           out ('': '' @ [nl]), print_stmt sf st (i + 1), out [nl]]) cases),
       print_indent i, out (''}'' @ [nl])]"
| "print_stmt sf (Toplevel heads sts) i =
     cat (outs (map (\<lambda>st. print_stmt sf st (i + 1)) heads))
       (outs (map (\<lambda>st. print_stmt sf st (i + 1)) sts))"
| "print_stmt sf (VarDecl name t e) i =
     outs [print_indent i, out ''var '', out name, out '': '', print_type sf t, print_init sf e,
       out ('';'' @ [nl])]"
| "print_stmt sf (While e st) i =
     outs [print_indent i, out ''while '', print_expr sf e, out [nl], print_stmt sf st (i + 1)]"

end
