(* ===== verification/Print_Scan.thy ===== *)
theory Print_Scan
  imports Grammar Ast_Printer Scanner_Tokens
begin

text \<open>
  How the text of the printer is scanned: the tokens of a printed expression or type, and that
  reading the text gives them.
\<close>

section \<open>The tokens of a text with their values\<close>

definition string_value :: "(string \<Rightarrow> f64) \<Rightarrow> token \<Rightarrow> string \<Rightarrow> lval" where
  "string_value strtod t buf =
     (case t of
        SYMBOL \<Rightarrow> SymbolVal (new_Symbol buf)
      | STRING_VAL \<Rightarrow> ExprVal (new_StringConst buf)
      | INT_VAL \<Rightarrow> ExprVal (new_IntConst (word_of_int (strtol buf)))
      | FLOAT_VAL \<Rightarrow> ExprVal (new_FloatConst (strtod buf))
      | _ \<Rightarrow> NoVal)"

lemma token_value_string: "token_value strtod t sc = string_value strtod t (mCurString sc)"
  by (simp add: token_value_def string_value_def cur_int_def split: token.split)

definition lexed :: "(string \<Rightarrow> f64) \<Rightarrow> string \<Rightarrow> lexeme_val list" where
  "lexed strtod cs = map (\<lambda>(t, buf). (t, string_value strtod t buf)) (text_tokens cs)"

lemma lexed_Nil [simp]: "lexed strtod '''' = []"
  by (simp add: lexed_def text_tokens_Nil)

lemma lexed_token:
  "lex_text cs = (t, buf, r) \<Longrightarrow> t \<noteq> EOF \<Longrightarrow>
    lexed strtod cs = (t, string_value strtod t buf) # lexed strtod r"
  by (simp add: lexed_def text_tokens_Cons)

lemma lexed_blank: "blank_char c \<Longrightarrow> lexed strtod (c # cs) = lexed strtod cs"
  unfolding lexed_def by (subst (1 2) text_tokens.simps) (simp add: lex_blank)

section \<open>Texts that are scanned alike before any rest\<close>

text \<open>Before a rest that does not start with a character in \<open>P\<close>, the text gives the tokens.\<close>

definition scans :: "(string \<Rightarrow> f64) \<Rightarrow> (char \<Rightarrow> bool) \<Rightarrow> string \<Rightarrow> lexeme_val list \<Rightarrow> bool" where
  "scans strtod P txt ts \<longleftrightarrow> (\<forall>r. \<not> starts P r \<longrightarrow> lexed strtod (txt @ r) = ts @ lexed strtod r)"

definition never :: "char \<Rightarrow> bool" where "never c = False"

definition word_or_dot :: "char \<Rightarrow> bool" where
  "word_or_dot c \<longleftrightarrow> word_char c \<or> c = CHR ''.''"

lemma starts_append: "xs \<noteq> [] \<Longrightarrow> starts P (xs @ ys) = starts P xs"
  by (cases xs) (simp_all add: starts_Cons)

lemma not_never [simp]: "\<not> starts never r"
  by (cases r) (simp_all add: starts_def never_def)

lemma scans_empty [simp]: "scans strtod P '''' []"
  by (simp add: scans_def)

lemma scans_append:
  assumes "scans strtod P x ts" and "scans strtod Q y us" and "y \<noteq> []" and "\<not> starts P y"
  shows "scans strtod Q (x @ y) (ts @ us)"
  using assms by (simp add: scans_def starts_append)

lemma scans_never_append:
  "scans strtod never x ts \<Longrightarrow> scans strtod Q y us \<Longrightarrow> scans strtod Q (x @ y) (ts @ us)"
  by (simp add: scans_def)

lemma starts_mono: "starts P r \<Longrightarrow> (\<And>c. P c \<Longrightarrow> Q c) \<Longrightarrow> starts Q r"
  by (cases r) (simp_all add: starts_def)

lemma scans_weaken: "scans strtod P x ts \<Longrightarrow> (\<And>c. P c \<Longrightarrow> Q c) \<Longrightarrow> scans strtod Q x ts"
  by (auto simp: scans_def dest: starts_mono)

lemma scans_blank: "blank_char c \<Longrightarrow> scans strtod P x ts \<Longrightarrow> scans strtod P (c # x) ts"
  by (simp add: scans_def lexed_blank)

lemma scans_blank_after: "blank_char c \<Longrightarrow> \<not> P c \<Longrightarrow> scans strtod P x ts \<Longrightarrow> scans strtod never (x @ [c]) ts"
  by (simp add: scans_def starts_Cons lexed_blank)

lemma blank_chars [simp]: "blank_char (CHR '' '')" "blank_char nl"
  by (simp_all add: blank_char_def)

section \<open>Single tokens\<close>

lemma plain_singles:
  "plain_first (CHR '':'')" "plain_first (CHR '';'')" "plain_first (CHR '','')"
  "plain_first (CHR ''?'')" "plain_first (CHR ''~'')" "plain_first (CHR ''('')"
  "plain_first (CHR '')'')" "plain_first (CHR ''{'')" "plain_first (CHR ''}'')"
  "plain_first (CHR ''['')" "plain_first (CHR '']'')"
  by (simp_all add: plain_first_def blank_char_def is_symbol_def is_digit_def)

lemma string_value_tok [simp]:
  "string_value strtod (Punct p) buf = NoVal" "string_value strtod (Word w) buf = NoVal"
  "string_value strtod (Oper op) buf = NoVal"
  by (simp_all add: string_value_def)

lemma scans_single:
  assumes "plain_first c" and "\<And>cs. lex_op (c # cs) = (Punct p, '''', cs)"
  shows "scans strtod never [c] [tok (Punct p)]"
  using lexed_token [of "c # r" for r] assms by (simp add: scans_def lex_plain)

lemma scans_singles:
  "scans strtod never '':'' [tok (Punct COLON)]" "scans strtod never '';'' [tok (Punct SEMI)]"
  "scans strtod never '','' [tok (Punct COMMA)]" "scans strtod never ''?'' [tok (Punct QST)]"
  "scans strtod never ''('' [tok (Punct LP)]" "scans strtod never '')'' [tok (Punct RP)]"
  "scans strtod never ''{'' [tok (Punct LCB)]" "scans strtod never ''}'' [tok (Punct RCB)]"
  "scans strtod never ''['' [tok (Punct LBK)]" "scans strtod never '']'' [tok (Punct RBK)]"
  by (rule scans_single; rule plain_singles lex_op_single)+

text \<open>An operator or a reserved word of the table with a blank behind it.\<close>

definition table_text :: "string \<Rightarrow> token \<Rightarrow> bool" where
  "table_text w t \<longleftrightarrow> map_of init_data w = Some t \<and>
     (case t of Oper _ \<Rightarrow> True | Punct _ \<Rightarrow> True | Word _ \<Rightarrow> True | _ \<Rightarrow> False)"

lemma scans_table:
  assumes "table_text w t"
  shows "scans strtod never (w @ '' '') [tok t]"
proof -
  have w: "(w, t) \<in> set init_data" using assms by (simp add: table_text_def map_of_SomeD)
  have nv: "string_value strtod t b = NoVal" for b
    using assms by (auto simp: table_text_def string_value_def split: token.splits)
  obtain b where "spelled w (t, b)"
    using spelled_word [OF w] spelled_op [OF w] by blast
  then show ?thesis
    using spelled_lex nv lexed_token by (simp add: scans_def lexed_blank)
qed

lemma scans_table_blank: "table_text w t \<Longrightarrow> scans strtod never ('' '' @ w @ '' '') [tok t]"
  using scans_blank [OF blank_chars(1) scans_table] by simp

text \<open>A reserved word or a name, before a character that belongs to no word.\<close>

lemma scans_word:
  assumes "table_text w t" and "starts is_symbol w"
  shows "scans strtod word_char w [tok t]"
proof -
  have w: "(w, t) \<in> set init_data" using assms by (simp add: table_text_def map_of_SomeD)
  then have "word_token_of w = t" by (simp add: word_token_of_eq)
  moreover have "string_value strtod t w = NoVal" "t \<noteq> EOF"
    using assms(1) by (auto simp: table_text_def string_value_def split: token.splits)
  ultimately show ?thesis
    using lex_word_stop [OF assms(2) reserved_words_chars [OF w assms(2)]] lexed_token
    by (auto simp: scans_def)
qed

definition is_name :: "string \<Rightarrow> bool" where
  "is_name w \<longleftrightarrow> starts is_symbol w \<and> list_all word_char w \<and> map_of init_data w = None"

lemma word_char_no_nul: "\<not> word_char (CHR 0x00)"
  by (simp add: word_char_def is_symbol_def is_digit_def)

lemma c_str_name: "is_name w \<Longrightarrow> c_str w = w"
  using word_char_no_nul by (auto simp: is_name_def c_str_def list_all_iff)

lemma scans_name: "is_name w \<Longrightarrow> scans strtod word_char w [sym w]"
proof -
  assume w: "is_name w"
  then have "word_token_of w = SYMBOL" by (simp add: is_name_def word_token_of_def)
  with w show "scans strtod word_char w [sym w]"
    using lex_word_stop [of w] lexed_token
    by (auto simp: scans_def is_name_def string_value_def new_Symbol_def c_str_name)
qed

lemma name_starts: "is_name w \<Longrightarrow> w \<noteq> [] \<and> starts is_symbol w"
  by (auto simp: is_name_def starts_def)

text \<open>A member: the point and the name.\<close>

lemma scans_member: "is_name w \<Longrightarrow> scans strtod word_char (''.'' @ w) [tok (Punct DOT), sym w]"
proof -
  assume w: "is_name w"
  then obtain c v where cv: "w = c # v" "is_symbol c"
    by (cases w) (auto simp: is_name_def starts_def)
  have c: "\<not> is_digit c" using cv(2) by (auto simp: is_symbol_def is_digit_def)
  have dot: "\<not> is_symbol (CHR ''.'')" "\<not> blank_char (CHR ''.'')" "map_of init_data ''.'' = Some (Punct DOT)"
    by (simp_all add: is_symbol_def blank_char_def init_data_def)
  have long: "map_of init_data (CHR ''.'' # d # q) = None" for d q
  proof (rule ccontr)
    assume "map_of init_data (CHR ''.'' # d # q) \<noteq> None"
    then obtain t where "(CHR ''.'' # d # q, t) \<in> set init_data" by (auto dest: map_of_SomeD)
    from op_word_forms(8) [OF this] dot(1) show False by (simp add: starts_Cons)
  qed
  have "lex_text (CHR ''.'' # w @ r) = (Punct DOT, ''.'', w @ r)" for r
    using c dot(1,2) char_classes(4)
    by (simp add: lex_significant lex_token_def starts_Cons cv lex_op_def take_Cons_numeral long
        dot(3) del: One_nat_def)
  then have "\<not> starts word_char r \<Longrightarrow> lexed strtod (CHR ''.'' # w @ r) = tok (Punct DOT) # lexed strtod (w @ r)" for r
    using lexed_token by simp
  with scans_name [OF w] show "scans strtod word_char (''.'' @ w) [tok (Punct DOT), sym w]"
    by (simp add: scans_def)
qed

section \<open>Literals\<close>

lemma digit_char:
  assumes "k < 10"
  shows "is_digit (char_of (48 + k :: nat))" and "int (of_char (char_of (48 + k :: nat))) = 48 + int k"
  using assms by (simp_all add: is_digit_def)

lemma digits_val_snoc: "digits_val (ds @ [c]) = digits_val ds * 10 + (int (of_char c) - 48)"
  by (simp add: digits_val_def)

lemma show_nat_digits:
  "list_all is_digit (show_nat n) \<and> show_nat n \<noteq> [] \<and> digits_val (show_nat n) = int n"
proof (induction n rule: show_nat.induct)
  case (1 n)
  show ?case
  proof (cases "n < 10")
    case True
    then have "digits_val [char_of (48 + n)] = int n"
      using digits_val_snoc [of "[]"] digit_char(2) [of n] by (simp add: digits_val_def)
    with True digit_char(1) [of n] show ?thesis
      by (subst (1 2 3) show_nat.simps) simp
  next
    case False
    then have "digits_val (show_nat (n div 10) @ [char_of (48 + n mod 10)]) =
        int (n div 10) * 10 + int (n mod 10)"
      using 1 digit_char(2) [of "n mod 10"] by (simp add: digits_val_snoc)
    also have "\<dots> = int n" by (simp add: zdiv_int zmod_int)
    finally show ?thesis
      using False 1 digit_char(1) [of "n mod 10"] by (subst (1 2 3) show_nat.simps) simp
  qed
qed

lemma not_starts_or: "\<not> starts word_or_dot r \<Longrightarrow> \<not> starts (\<lambda>c. is_digit c \<or> c = CHR ''.'') r"
  by (cases r) (auto simp: starts_def word_or_dot_def word_char_def)

lemma scans_int: "scans strtod word_or_dot (show_int v) [(INT_VAL, ExprVal (IntConstE v))]"
proof -
  obtain sign where sign: "sign = (if sint v < 0 then ''-'' else '''')" by simp
  obtain ds where ds_eq: "ds = show_nat (nat \<bar>sint v\<bar>)" by simp
  have ds: "list_all is_digit ds" "ds \<noteq> []" "digits_val ds = \<bar>sint v\<bar>"
    using show_nat_digits by (simp_all add: ds_eq)
  have shown: "show_int v = sign @ ds" by (simp add: show_int_def sign ds_eq)
  have "strtol (sign @ ds) = sint v"
    using strtol_digits [OF ds(1,2)] sint_i32_bounds [of v] by (auto simp: sign ds(3))
  then have "string_value strtod INT_VAL (sign @ ds) = ExprVal (IntConstE v)"
    by (simp add: string_value_def new_IntConst_def)
  moreover have "lex_text (sign @ ds @ r) = (INT_VAL, sign @ ds, r)" if "\<not> starts word_or_dot r" for r
    by (rule lex_literal [OF ds(1,2) not_starts_or [OF that]]) (simp add: sign)
  ultimately show ?thesis
    using lexed_token [of "sign @ ds @ r" INT_VAL "sign @ ds" r for r] by (simp add: scans_def shown)
qed

definition plain_string :: "string \<Rightarrow> bool" where
  "plain_string v \<longleftrightarrow> list_all (\<lambda>c. c \<notin> {CHR 0x22, CHR 0x0A, CHR 0x5C, CHR 0x00}) v"

lemma scans_string:
  assumes "plain_string v"
  shows "scans strtod never ([CHR 0x22] @ v @ [CHR 0x22]) [(STRING_VAL, ExprVal (StringConstE v))]"
proof -
  have v: "list_all (\<lambda>c. c \<notin> {CHR 0x22, CHR 0x0A, CHR 0x5C}) v" "c_str v = v"
    using assms by (auto simp: plain_string_def c_str_def list_all_iff)
  have "lex_text (CHR 0x22 # v @ CHR 0x22 # r) = (STRING_VAL, v, r)" for r
    using lex_str_plain [OF v(1), of "''''" r]
    by (simp add: lex_significant lex_token_def starts_Cons char_classes)
  then show ?thesis
    using lexed_token [of "CHR 0x22 # v @ CHR 0x22 # r" STRING_VAL v r for r] v(2)
    by (simp add: scans_def string_value_def new_StringConst_def)
qed

section \<open>Expressions the grammar builds\<close>

text \<open>
  \<open>gram_expr\<close> holds of the trees without floating-point literals that productions of the grammar
  can build from text: the operators and forms of the grammar, names that are no reserved words,
  strings without quotes, line ends, backslashes and NULs, and argument lists that can be counted.
\<close>

fun prim_form :: "ast_expr \<Rightarrow> bool" where
  "prim_form (SymbolE _) = True"
| "prim_form (MemberRefE body _) = prim_form body"
| "prim_form (ArrayRefE body _) = prim_form body"
| "prim_form _ = False"

fun op_word :: "op_code \<Rightarrow> (string \<times> op_token) option" where
  "op_word kOpBitAnd = Some (''&'', BITAND)"
| "op_word kOpBitOr = Some (''|'', BITOR)"
| "op_word kOpBitXor = Some (''^'', BITXOR)"
| "op_word kOpLogAnd = Some (''and'', LOGAND)"
| "op_word kOpLogOr = Some (''or'', LOGOR)"
| "op_word kOpEqual = Some (''=='', EQEQ)"
| "op_word kOpNotEq = Some (''!='', NOTEQ)"
| "op_word kOpLt = Some (''<'', LT)"
| "op_word kOpLe = Some (''<='', LE)"
| "op_word kOpAdd = Some (''+'', PLUS)"
| "op_word kOpSub = Some (''-'', MINUS)"
| "op_word kOpMul = Some (''*'', MULT)"
| "op_word kOpDiv = Some (''/'', DIV)"
| "op_word kOpMod = Some (''%'', MOD)"
| "op_word kOpLshift = Some (''<<'', LSHIFT)"
| "op_word kOpRshift = Some (''>>'', RSHIFT)"
| "op_word _ = None"

fun uni_word :: "op_code \<Rightarrow> (string \<times> op_token) option" where
  "uni_word kOpUniMinus = Some (''-'', MINUS)"
| "uni_word kOpBitNeg = Some (''~'', BITNEG)"
| "uni_word kOpLogNot = Some (''not'', LOGNOT)"
| "uni_word _ = None"

fun cast_word :: "op_code \<Rightarrow> (string \<times> word_token) option" where
  "cast_word kOpCastInt = Some (''int'', INT')"
| "cast_word kOpCastBoolean = Some (''boolean'', BOOLEAN)"
| "cast_word kOpCastFloat = Some (''float'', FLOAT)"
| "cast_word _ = None"

fun gram_expr :: "ast_expr \<Rightarrow> bool" where
  "gram_expr TrueE = True"
| "gram_expr FalseE = True"
| "gram_expr (IntConstE _) = True"
| "gram_expr (FloatConstE _) = False"
| "gram_expr (StringConstE v) = plain_string v"
| "gram_expr (SymbolE name) = is_name name"
| "gram_expr (MemberRefE body member) = (prim_form body \<and> gram_expr body \<and> is_name member)"
| "gram_expr (ArrayRefE body index) = (prim_form body \<and> gram_expr body \<and> gram_expr index)"
| "gram_expr (UniOpE opcode x) = ((uni_word opcode \<noteq> None \<or> cast_word opcode \<noteq> None) \<and> gram_expr x)"
| "gram_expr (BinOpE opcode x y) = (op_word opcode \<noteq> None \<and> gram_expr x \<and> gram_expr y)"
| "gram_expr (IteOpE x y z) = (gram_expr x \<and> gram_expr y \<and> gram_expr z)"
| "gram_expr (FuncCallE f args) =
     (prim_form f \<and> gram_expr f \<and> length args < 2 ^ 32 \<and> list_all gram_expr args)"

text \<open>The tokens of a printed expression.\<close>

fun comma_toks :: "lexeme_val list list \<Rightarrow> lexeme_val list" where
  "comma_toks [] = []"
| "comma_toks [ts] = ts"
| "comma_toks (ts # tss) = ts @ tok (Punct COMMA) # comma_toks tss"

definition in_parens :: "lexeme_val list \<Rightarrow> lexeme_val list" where
  "in_parens ts = tok (Punct LP) # ts @ [tok (Punct RP)]"

fun expr_toks :: "ast_expr \<Rightarrow> lexeme_val list" where
  "expr_toks TrueE = [tok (Word TRUE)]"
| "expr_toks FalseE = [tok (Word FALSE)]"
| "expr_toks (IntConstE v) = [(INT_VAL, ExprVal (IntConstE v))]"
| "expr_toks (FloatConstE v) = [(FLOAT_VAL, ExprVal (FloatConstE v))]"
| "expr_toks (StringConstE v) = [(STRING_VAL, ExprVal (StringConstE v))]"
| "expr_toks (SymbolE name) = [sym name]"
| "expr_toks (MemberRefE body member) = expr_toks body @ [tok (Punct DOT), sym member]"
| "expr_toks (ArrayRefE body index) =
     expr_toks body @ tok (Punct LBK) # expr_toks index @ [tok (Punct RBK)]"
| "expr_toks (UniOpE opcode x) =
     (case uni_word opcode of
        Some (_, op) \<Rightarrow> in_parens (tok (Oper op) # expr_toks x)
      | None \<Rightarrow> (case cast_word opcode of
          Some (_, w) \<Rightarrow> tok (Word w) # in_parens (expr_toks x)
        | None \<Rightarrow> []))"
| "expr_toks (BinOpE opcode x y) =
     (case op_word opcode of
        Some (_, op) \<Rightarrow> in_parens (expr_toks x @ tok (Oper op) # expr_toks y)
      | None \<Rightarrow> [])"
| "expr_toks (IteOpE x y z) =
     in_parens (expr_toks x @ tok (Punct QST) # expr_toks y @ tok (Punct COLON) # expr_toks z)"
| "expr_toks (FuncCallE f args) = expr_toks f @ in_parens (comma_toks (map expr_toks args))"

text \<open>The texts of the operators are words of the table between blanks.\<close>

lemma table_ops:
  "table_text ''&'' (Oper BITAND)"
  "table_text ''|'' (Oper BITOR)"
  "table_text ''^'' (Oper BITXOR)"
  "table_text ''and'' (Oper LOGAND)"
  "table_text ''or'' (Oper LOGOR)"
  "table_text ''=='' (Oper EQEQ)"
  "table_text ''!='' (Oper NOTEQ)"
  "table_text ''<'' (Oper LT)"
  "table_text ''<='' (Oper LE)"
  "table_text ''+'' (Oper PLUS)"
  "table_text ''-'' (Oper MINUS)"
  "table_text ''*'' (Oper MULT)"
  "table_text ''/'' (Oper DIV)"
  "table_text ''%'' (Oper MOD)"
  "table_text ''<<'' (Oper LSHIFT)"
  "table_text ''>>'' (Oper RSHIFT)"
  "table_text ''~'' (Oper BITNEG)"
  "table_text ''not'' (Oper LOGNOT)"
  "table_text ''int'' (Word INT')"
  "table_text ''boolean'' (Word BOOLEAN)"
  "table_text ''float'' (Word FLOAT)"
  by code_simp+

lemma op_word_text:
  "op_word opcode = Some (w, op) \<Longrightarrow>
    bin_symbol opcode = Inr ('' '' @ w @ '' '') \<and> table_text w (Oper op)"
  by (cases opcode) (auto simp: out_def table_ops)

lemma uni_word_text:
  "uni_word opcode = Some (w, op) \<Longrightarrow>
    uni_text opcode x = outs [out ''('', out ('' '' @ w @ '' ''), x, out '')''] \<and> table_text w (Oper op)"
  by (cases opcode) (auto simp: uni_text_def table_ops)

lemma cast_word_text:
  "cast_word opcode = Some (w, t) \<Longrightarrow> uni_word opcode = None \<and>
    uni_text opcode x = outs [out (w @ ''(''), x, out '')''] \<and> table_text w (Word t) \<and>
    starts is_symbol w"
  by (cases opcode) (auto simp: uni_text_def table_ops starts_def is_symbol_def)

lemma word_or_dot_simps [simp]:
  "\<not> word_or_dot (CHR '' '')" "\<not> word_or_dot (CHR '')'')" "\<not> word_or_dot (CHR ''('')"
  "\<not> word_or_dot (CHR ''['')" "\<not> word_or_dot (CHR '']'')" "\<not> word_or_dot (CHR '','')"
  "\<not> word_or_dot (CHR '';'')" "\<not> word_or_dot (CHR '':'')" "\<not> word_or_dot nl"
  "\<not> word_or_dot (CHR ''{'')" "\<not> word_or_dot (CHR ''}'')"
  "\<not> word_char (CHR '' '')" "\<not> word_char (CHR '')'')" "\<not> word_char (CHR ''('')"
  "\<not> word_char (CHR ''['')" "\<not> word_char (CHR '']'')" "\<not> word_char (CHR '','')"
  "\<not> word_char (CHR '';'')" "\<not> word_char (CHR '':'')" "\<not> word_char nl"
  "\<not> word_char (CHR ''{'')" "\<not> word_char (CHR ''}'')" "\<not> word_char (CHR ''.'')"
  by (simp_all add: word_or_dot_def word_char_def is_symbol_def is_digit_def)

section \<open>A printed expression is scanned as its tokens\<close>

lemma starts_char [simp]: "starts P (c # cs) = P c"
  by (rule starts_Cons)

lemma scans_op:
  assumes "scans strtod word_or_dot x ts" and "table_text w t" and "scans strtod P y us"
  shows "scans strtod P (x @ '' '' @ w @ '' '' @ y) (ts @ tok t # us)"
proof -
  have "scans strtod P (('' '' @ w @ '' '') @ y) ([tok t] @ us)"
    by (rule scans_never_append [OF scans_table_blank [OF assms(2)] assms(3)])
  from scans_append [OF assms(1) this] show ?thesis by simp
qed

lemma scans_parens:
  assumes "scans strtod word_or_dot x ts"
  shows "scans strtod never (''('' @ x @ '')'') (in_parens ts)"
proof -
  have "scans strtod never (x @ '')'') (ts @ [tok (Punct RP)])"
    by (rule scans_append [OF assms scans_singles(6)]) simp_all
  from scans_never_append [OF scans_singles(5) this] show ?thesis by (simp add: in_parens_def)
qed

lemma scans_any: "scans strtod never x ts \<Longrightarrow> scans strtod P x ts"
  by (erule scans_weaken) (simp add: never_def)

lemma scans_word_or_dot: "scans strtod word_char x ts \<Longrightarrow> scans strtod word_or_dot x ts"
  by (erule scans_weaken) (simp add: word_or_dot_def)

text \<open>An expression with text \<open>txt\<close>; a primary may also be followed by a point.\<close>

definition expr_text :: "(f64 \<Rightarrow> string) \<Rightarrow> (string \<Rightarrow> f64) \<Rightarrow> ast_expr \<Rightarrow> string \<Rightarrow> bool" where
  "expr_text sf strtod e txt \<longleftrightarrow>
     print_expr sf e = Inr txt \<and> txt \<noteq> [] \<and> scans strtod word_or_dot txt (expr_toks e) \<and>
     (prim_form e \<longrightarrow> scans strtod word_char txt (expr_toks e))"

lemma expr_textD:
  assumes "expr_text sf strtod e txt"
  shows "print_expr sf e = Inr txt" and "txt \<noteq> []" and "scans strtod word_or_dot txt (expr_toks e)"
    and "prim_form e \<Longrightarrow> scans strtod word_char txt (expr_toks e)"
  using assms by (simp_all add: expr_text_def)

lemma commas_scanned:
  assumes "list_all2 (expr_text sf strtod) es txts"
  shows "\<exists>txt. commas (map (print_expr sf) es) = Inr txt \<and>
    scans strtod word_or_dot txt (comma_toks (map expr_toks es))"
  using assms
proof (induction es txts rule: list_all2_induct)
  case (Cons e es x txts)
  show ?case
  proof (cases es)
    case Nil
    with Cons show ?thesis by (simp add: expr_text_def)
  next
    case es: (Cons e' es')
    obtain y where y: "commas (map (print_expr sf) es) = Inr y"
      "scans strtod word_or_dot y (comma_toks (map expr_toks es))" using Cons.IH by blast
    have x: "print_expr sf e = Inr x" "scans strtod word_or_dot x (expr_toks e)"
      using Cons.hyps by (simp_all add: expr_text_def)
    have "scans strtod word_or_dot ('','' @ '' '' @ y) ([tok (Punct COMMA)] @ comma_toks (map expr_toks es))"
      using scans_never_append [OF scans_singles(3) scans_blank [OF blank_chars(1) y(2)]] by simp
    from scans_append [OF x(2) this] have
      "scans strtod word_or_dot (x @ '', '' @ y) (comma_toks (map expr_toks (e # es)))"
      by (simp add: es)
    moreover have "commas (map (print_expr sf) (e # es)) = Inr (x @ '', '' @ y)"
      using x(1) y(1) by (simp add: es out_def)
    ultimately show ?thesis by blast
  qed
qed (simp add: out_def)

lemma leaf_words: "table_text ''true'' (Word TRUE)" "table_text ''false'' (Word FALSE)"
  by code_simp+

lemma leaf_text:
  "expr_text sf strtod TrueE ''true''" "expr_text sf strtod FalseE ''false''"
  "expr_text sf strtod (IntConstE v) (show_int v)"
  "plain_string w \<Longrightarrow> expr_text sf strtod (StringConstE w) ([CHR 0x22] @ w @ [CHR 0x22])"
  "is_name name \<Longrightarrow> expr_text sf strtod (SymbolE name) name"
proof -
  have "starts is_symbol ''true''" "starts is_symbol ''false''"
    by (simp_all add: is_symbol_def)
  then show "expr_text sf strtod TrueE ''true''" "expr_text sf strtod FalseE ''false''"
    using scans_word leaf_words by (simp_all add: expr_text_def out_def scans_word_or_dot)
  show "expr_text sf strtod (IntConstE v) (show_int v)"
    using scans_int show_nat_digits by (simp add: expr_text_def out_def show_int_def)
  show "plain_string w \<Longrightarrow> expr_text sf strtod (StringConstE w) ([CHR 0x22] @ w @ [CHR 0x22])"
    using scans_any [OF scans_string] by (simp add: expr_text_def out_def)
  show "is_name name \<Longrightarrow> expr_text sf strtod (SymbolE name) name"
    using scans_name name_starts by (simp add: expr_text_def out_def scans_word_or_dot)
qed

lemma member_text:
  assumes "expr_text sf strtod b x" and "prim_form b" and "is_name m"
  shows "expr_text sf strtod (MemberRefE b m) (x @ ''.'' @ m)"
proof -
  have "scans strtod word_char (x @ ''.'' @ m) (expr_toks b @ [tok (Punct DOT), sym m])"
    by (rule scans_append [OF expr_textD(4) [OF assms(1,2)] scans_member [OF assms(3)]]) simp_all
  then show ?thesis
    using assms(1,2) by (simp add: expr_text_def out_def scans_word_or_dot)
qed

lemma array_text:
  assumes "expr_text sf strtod b x" and "prim_form b" and "expr_text sf strtod i y"
  shows "expr_text sf strtod (ArrayRefE b i) (x @ ''['' @ y @ '']'')"
proof -
  have "scans strtod never (y @ '']'') (expr_toks i @ [tok (Punct RBK)])"
    by (rule scans_append [OF expr_textD(3) [OF assms(3)] scans_singles(10)]) simp_all
  from scans_never_append [OF scans_singles(9) this]
  have "scans strtod never (x @ ''['' @ y @ '']'')
      (expr_toks b @ tok (Punct LBK) # expr_toks i @ [tok (Punct RBK)])"
    using scans_append [OF expr_textD(4) [OF assms(1,2)]] by simp
  then show ?thesis
    using assms by (simp add: expr_text_def out_def scans_any)
qed

lemma uni_op_text:
  assumes "expr_text sf strtod e x" and "uni_word opcode \<noteq> None \<or> cast_word opcode \<noteq> None"
  shows "\<exists>txt. expr_text sf strtod (UniOpE opcode e) txt"
proof (cases "uni_word opcode")
  case (Some p)
  then obtain w op where w: "uni_word opcode = Some (w, op)" by (cases p) auto
  note t = uni_word_text [OF w]
  have x: "print_expr sf e = Inr x" "scans strtod word_or_dot x (expr_toks e)"
    using assms(1) by (simp_all add: expr_text_def)
  have "scans strtod word_or_dot (('' '' @ w @ '' '') @ x) ([tok (Oper op)] @ expr_toks e)"
    using scans_never_append [OF scans_table_blank x(2)] t by blast
  from scans_parens [OF this] t w x(1) show ?thesis
    by (intro exI [of _ "''('' @ (('' '' @ w @ '' '') @ x) @ '')''"])
      (simp add: expr_text_def out_def scans_any)
next
  case None
  with assms(2) obtain w t where w: "cast_word opcode = Some (w, t)" by auto
  note t = cast_word_text [OF w]
  have x: "print_expr sf e = Inr x" "scans strtod word_or_dot x (expr_toks e)"
    using assms(1) by (simp_all add: expr_text_def)
  have "scans strtod never (w @ ''('' @ x @ '')'') ([tok (Word t)] @ in_parens (expr_toks e))"
    using t by (intro scans_append [OF scans_word scans_parens [OF x(2)]]) simp_all
  with t w x(1) show ?thesis
    by (intro exI [of _ "w @ ''('' @ x @ '')''"]) (simp add: expr_text_def out_def scans_any)
qed

lemma bin_op_text:
  assumes "expr_text sf strtod e x" and "expr_text sf strtod f y" and "op_word opcode = Some (w, op)"
  shows "\<exists>txt. expr_text sf strtod (BinOpE opcode e f) txt"
proof -
  note t = op_word_text [OF assms(3)]
  have "scans strtod word_or_dot (x @ '' '' @ w @ '' '' @ y) (expr_toks e @ tok (Oper op) # expr_toks f)"
    using assms(1,2) t by (intro scans_op) (simp_all add: expr_text_def)
  from scans_parens [OF this] t assms show ?thesis
    by (intro exI [of _ "''('' @ (x @ '' '' @ w @ '' '' @ y) @ '')''"])
      (simp add: expr_text_def out_def scans_any)
qed

lemma ite_words: "table_text ''?'' (Punct QST)" "table_text '':'' (Punct COLON)"
  by code_simp+

lemma ite_text:
  assumes "expr_text sf strtod e x" and "expr_text sf strtod f y" and "expr_text sf strtod g z"
  shows "\<exists>txt. expr_text sf strtod (IteOpE e f g) txt"
proof -
  have e: "scans strtod word_or_dot x (expr_toks e)" "scans strtod word_or_dot y (expr_toks f)"
    "scans strtod word_or_dot z (expr_toks g)"
    using assms by (simp_all add: expr_text_def)
  from scans_op [OF e(1) ite_words(1) scans_op [OF e(2) ite_words(2) e(3)]]
  have "scans strtod word_or_dot (x @ '' ? '' @ y @ '' : '' @ z)
      (expr_toks e @ tok (Punct QST) # expr_toks f @ tok (Punct COLON) # expr_toks g)" by simp
  from scans_parens [OF this] assms show ?thesis
    by (intro exI [of _ "''('' @ (x @ '' ? '' @ y @ '' : '' @ z) @ '')''"])
      (simp add: expr_text_def out_def scans_any)
qed

lemma call_text:
  assumes "expr_text sf strtod f x" and "prim_form f"
    and "list_all2 (expr_text sf strtod) args txts"
  shows "\<exists>txt. expr_text sf strtod (FuncCallE f args) txt"
proof -
  obtain y where y: "commas (map (print_expr sf) args) = Inr y"
    "scans strtod word_or_dot y (comma_toks (map expr_toks args))"
    using commas_scanned [OF assms(3)] by blast
  have "scans strtod never (x @ ''('' @ y @ '')'')
      (expr_toks f @ in_parens (comma_toks (map expr_toks args)))"
    using scans_append [OF expr_textD(4) [OF assms(1,2)] scans_parens [OF y(2)]] by simp
  with assms y(1) show ?thesis
    by (intro exI [of _ "x @ ''('' @ y @ '')''"]) (simp add: expr_text_def out_def scans_any)
qed

lemma gram_expr_text: "gram_expr e \<Longrightarrow> \<exists>txt. expr_text sf strtod e txt"
proof (induction e)
  case (MemberRefE b m)
  then show ?case using member_text [of sf strtod b _ m] by auto
next
  case (ArrayRefE b i)
  then show ?case using array_text [of sf strtod b _ i] by fastforce
next
  case (UniOpE opcode e)
  then show ?case using uni_op_text by auto
next
  case (BinOpE opcode e f)
  then show ?case using bin_op_text by fastforce
next
  case (IteOpE e f g)
  then show ?case using ite_text by fastforce
next
  case (FuncCallE f args)
  then have "\<forall>e\<in>set args. \<exists>txt. expr_text sf strtod e txt" by (auto simp: list_all_iff)
  then obtain t where "\<forall>e\<in>set args. expr_text sf strtod e (t e)" by metis
  then have "list_all2 (expr_text sf strtod) args (map t args)"
    by (simp add: list_all2_conv_all_nth)
  with FuncCallE show ?case using call_text by fastforce
qed (auto intro: leaf_text)

end
