(* ===== verification/Print_Parse.thy ===== *)
theory Print_Parse
  imports Print_Scan
begin

text \<open>
  The tokens of a printed expression have one derivation in the grammar, whatever the precedences:
  the one that builds the expression.
\<close>

section \<open>The derivation\<close>

lemma comma_toks_snoc:
  "tss \<noteq> [] \<Longrightarrow> comma_toks (tss @ [ts]) = comma_toks tss @ tok (Punct COMMA) # ts"
  by (induction tss rule: comma_toks.induct) simp_all

lemma list_derived:
  assumes "\<forall>e\<in>set es. g_expr (expr_toks e) e" and "length es < 2 ^ 32"
  shows "\<exists>l. g_expr_list (comma_toks (map expr_toks es)) l \<and> list_rep l es"
  using assms
proof (induction es rule: rev_induct)
  case Nil
  show ?case using l_none list_rep_new by auto
next
  case (snoc e es)
  then obtain l where l: "g_expr_list (comma_toks (map expr_toks es)) l" "list_rep l es" by auto
  obtain l' where l': "list_add l e = Inr l'" "list_rep l' (es @ [e])"
    using al.add_rep [OF l(2)] snoc.prems(2) by fastforce
  show ?case
  proof (cases "es = []")
    case True
    obtain k where k: "list_add AstList_new e = Inr k" "list_rep k [e]"
      using al.add_rep [OF al.new_rep, of e] by auto
    with snoc.prems True show ?thesis using l_one [of "expr_toks e" e k] by auto
  next
    case False
    then show ?thesis
      using l_more [OF l(1) _ l'(1), of "expr_toks e"] l'(2) snoc.prems comma_toks_snoc
      by (intro exI [of _ l']) auto
  qed
qed

lemma uni_word_action:
  "uni_word opcode = Some (w, op) \<Longrightarrow> uni_action op = Some (UniOpE opcode)"
  by (cases opcode) (auto simp: new_defs fun_eq_iff)

lemma cast_word_action:
  "cast_word opcode = Some (w, t) \<Longrightarrow> cast_action t = Some (UniOpE opcode) \<and> uni_word opcode = None"
  by (cases opcode) (auto simp: new_defs fun_eq_iff)

lemma op_word_action:
  "op_word opcode = Some (w, op) \<Longrightarrow> bin_action op = Some (BinOpE opcode)"
  by (cases opcode) (auto simp: new_defs fun_eq_iff)

lemma expr_derived:
  "gram_expr e \<Longrightarrow> g_expr (expr_toks e) e \<and> (prim_form e \<longrightarrow> g_primary (expr_toks e) e)"
proof (induction e)
  case (StringConstE v)
  then show ?case using e_value [of STRING_VAL] by simp
next
  case (IntConstE v)
  then show ?case using e_value [of INT_VAL] by simp
next
  case (SymbolE name)
  then show ?case using p_symbol [of name] e_primary by (simp add: new_defs)
next
  case (MemberRefE b m)
  then show ?case using p_member [of "expr_toks b" b m] e_primary by (simp add: new_defs)
next
  case (ArrayRefE b i)
  then show ?case using p_array [of "expr_toks b" b "expr_toks i" i] e_primary by (simp add: new_defs)
next
  case (UniOpE opcode x)
  show ?case
  proof (cases "uni_word opcode")
    case (Some p)
    then obtain w op where op: "uni_word opcode = Some (w, op)" by (cases p) auto
    then show ?thesis
      using UniOpE e_paren [OF e_uni [OF uni_word_action [OF op]]] by (simp add: in_parens_def)
  next
    case None
    with UniOpE obtain w t where "cast_word opcode = Some (w, t)" by auto
    then show ?thesis
      using UniOpE e_cast cast_word_action by (auto simp: in_parens_def)
  qed
next
  case (BinOpE opcode x y)
  then obtain w op where op: "op_word opcode = Some (w, op)" by auto
  show ?case
    using BinOpE e_paren [OF e_bin [OF op_word_action [OF op]]] op by (simp add: in_parens_def)
next
  case (IteOpE x y z)
  then show ?case using e_paren [OF e_ite] by (simp add: in_parens_def new_defs)
next
  case (FuncCallE f args)
  then obtain l where "g_expr_list (comma_toks (map expr_toks args)) l" "list_rep l args"
    using list_derived [of args] by (auto simp: list_all_iff)
  then show ?case
    using FuncCallE e_call [of "expr_toks f" f _ l] by (simp add: in_parens_def new_FuncCall_def)
qed (use e_true e_false in \<open>simp_all add: new_defs\<close>)

section \<open>Nesting\<close>

definition delta :: "lexeme_val \<Rightarrow> int" where
  "delta t =
     (if t = tok (Punct LP) \<or> t = tok (Punct LBK) then 1
      else if t = tok (Punct RP) \<or> t = tok (Punct RBK) then -1 else 0)"

definition depth :: "lexeme_val list \<Rightarrow> int" where
  "depth ts = sum_list (map delta ts)"

text \<open>From depth \<open>d\<close> on, the depth stays non-negative; no token of \<open>P\<close> stands at depth 0.\<close>

fun never_below :: "int \<Rightarrow> lexeme_val list \<Rightarrow> bool" where
  "never_below d [] = True"
| "never_below d (t # ts) = (0 \<le> d + delta t \<and> never_below (d + delta t) ts)"

fun free_at :: "(lexeme_val \<Rightarrow> bool) \<Rightarrow> int \<Rightarrow> lexeme_val list \<Rightarrow> bool" where
  "free_at P d [] = True"
| "free_at P d (t # ts) = ((d = 0 \<longrightarrow> \<not> P t) \<and> free_at P (d + delta t) ts)"

abbreviation nonneg :: "lexeme_val list \<Rightarrow> bool" where "nonneg ts \<equiv> never_below 0 ts"

abbreviation free :: "(lexeme_val \<Rightarrow> bool) \<Rightarrow> lexeme_val list \<Rightarrow> bool" where "free P ts \<equiv> free_at P 0 ts"

definition balanced :: "lexeme_val list \<Rightarrow> bool" where
  "balanced ts \<longleftrightarrow> nonneg ts \<and> depth ts = 0"

lemma depth_simps [simp]:
  "depth [] = 0" "depth (t # ts) = delta t + depth ts" "depth (xs @ ys) = depth xs + depth ys"
  by (simp_all add: depth_def)

lemma delta_simps [simp]:
  "delta (tok (Punct LP)) = 1" "delta (tok (Punct LBK)) = 1"
  "delta (tok (Punct RP)) = -1" "delta (tok (Punct RBK)) = -1"
  "delta (tok (Oper op)) = 0" "delta (tok (Word w)) = 0" "delta (sym name) = 0"
  "delta (tok (Punct COMMA)) = 0" "delta (tok (Punct QST)) = 0" "delta (tok (Punct COLON)) = 0"
  "delta (tok (Punct DOT)) = 0" "delta (t, ExprVal e) = 0"
  by (simp_all add: delta_def)

lemma above_append [simp]: "never_below d (xs @ ys) \<longleftrightarrow> never_below d xs \<and> never_below (d + depth xs) ys"
  by (induction xs arbitrary: d) (auto simp: add.assoc)

lemma free_at_append [simp]:
  "free_at P d (xs @ ys) \<longleftrightarrow> free_at P d xs \<and> free_at P (d + depth xs) ys"
  by (induction xs arbitrary: d) (auto simp: add.assoc)

lemma above_mono: "never_below d ts \<Longrightarrow> d \<le> d' \<Longrightarrow> never_below d' ts"
proof (induction ts arbitrary: d d')
  case (Cons t ts)
  then show ?case using Cons.IH [of "d + delta t" "d' + delta t"] by simp
qed simp

lemma above_end: "never_below d ts \<Longrightarrow> 0 \<le> d \<Longrightarrow> 0 \<le> d + depth ts"
proof (induction ts arbitrary: d)
  case (Cons t ts)
  then show ?case using Cons.IH [of "d + delta t"] by (simp add: add.assoc)
qed simp

lemma above_free: "never_below d ts \<Longrightarrow> 0 \<le> d \<Longrightarrow> free_at P (d + 1) ts"
proof (induction ts arbitrary: d)
  case (Cons t ts)
  then have "free_at P (d + delta t + 1) ts" by simp
  then show ?case using Cons.prems by (simp add: ac_simps)
qed simp

lemma balanced_Nil [simp]: "balanced []"
  by (simp add: balanced_def)

lemma balanced_append: "balanced xs \<Longrightarrow> balanced ys \<Longrightarrow> balanced (xs @ ys)"
  by (simp add: balanced_def)

lemma balanced_Cons [simp]: "delta t = 0 \<Longrightarrow> balanced (t # ts) = balanced ts"
  by (simp add: balanced_def)

lemma balanced_wrap: "balanced m \<Longrightarrow> delta a = 1 \<Longrightarrow> delta b = -1 \<Longrightarrow> balanced (a # m @ [b])"
  using above_mono [of 0 m 1] by (simp add: balanced_def)

lemma free_inside: "balanced m \<Longrightarrow> free_at P 1 m"
  using above_free [of 0 m P] by (simp add: balanced_def)

lemma free_wrap: "balanced m \<Longrightarrow> delta a = 1 \<Longrightarrow> \<not> P a \<Longrightarrow> \<not> P b \<Longrightarrow> free P (a # m @ [b])"
  using above_free [of 0 m P] by (simp add: balanced_def)

lemma free_mono: "free_at P d ts \<Longrightarrow> (\<And>t. Q t \<Longrightarrow> P t) \<Longrightarrow> free_at Q d ts"
  by (induction ts arbitrary: d) auto

section \<open>Splitting at a token outside all brackets\<close>

text \<open>Two splits at tokens of \<open>P\<close> outside all brackets: the same one, or one later.\<close>

lemma split_after:
  assumes "p @ t # q = a @ s # b" and "depth p = 0" and "P t" and "free P a" and "delta s = 0"
    and "depth a = 0"
  shows "(p = a \<and> t = s \<and> q = b) \<or> (\<exists>w. p = a @ s # w \<and> b = w @ t # q \<and> depth w = 0)"
proof -
  from assms(1) consider w where "p = a @ w" "w @ t # q = s # b"
    | w where "a = p @ w" "w @ s # b = t # q"
    by (auto simp: append_eq_append_conv2)
  then show ?thesis
  proof cases
    case 1
    then show ?thesis using assms by (cases w) auto
  next
    case 2
    show ?thesis
    proof (cases w)
      case Nil
      with 2 show ?thesis by simp
    next
      case (Cons x v)
      with 2 have "a = p @ t # v" by simp
      with assms(2,3,4) show ?thesis by simp
    qed
  qed
qed

text \<open>Two splits at an opening bracket before nested tokens are the same.\<close>

lemma split_open:
  assumes "a1 @ t1 # m1 = a2 @ t2 # m2" and "depth a1 = 0" and "depth a2 = 0"
    and "delta t1 = 1" and "delta t2 = 1" and "nonneg m1" and "nonneg m2"
  shows "a1 = a2 \<and> t1 = t2 \<and> m1 = m2"
proof -
  have no: False if "a = c @ x # w" "m = w @ y # n" "depth a = 0" "depth c = 0" "delta x = 1" "nonneg m"
    for a c w m n x y
    using that above_end [of 0 w] by auto
  from assms(1) consider w where "a1 = a2 @ w" "w @ t1 # m1 = t2 # m2"
    | w where "a2 = a1 @ w" "w @ t2 # m2 = t1 # m1"
    by (auto simp: append_eq_append_conv2)
  then show ?thesis
  proof cases
    case 1
    then show ?thesis using assms no [of a1 a2 t2 _ m2 t1 m1] by (cases w) auto
  next
    case 2
    then show ?thesis using assms no [of a2 a1 t1 _ m1 t2 m2] by (cases w) auto
  qed
qed

section \<open>What derived and printed expressions look like\<close>

lemma delta_ops [simp]: "t \<in> {INT_VAL, FLOAT_VAL, STRING_VAL} \<Longrightarrow> delta (t, ExprVal e) = 0"
  by simp

lemma derived_balanced:
  "g_expr ts e \<Longrightarrow> balanced ts \<and> ts \<noteq> []"
  "g_primary us f \<Longrightarrow> balanced us \<and> us \<noteq> []"
  "g_expr_list vs l \<Longrightarrow> balanced vs"
proof (induction rule: g_expr_g_primary_g_expr_list.inducts)
  case (e_cast w f ts x)
  then show ?case by (simp add: balanced_wrap)
next
  case (e_bin op f ts x us y)
  then show ?case by (simp add: balanced_append)
next
  case (e_ite ts x us y vs z)
  then show ?case by (simp add: balanced_append)
next
  case (e_paren ts e)
  then show ?case by (simp add: balanced_wrap)
next
  case (e_call ts f us args e)
  then show ?case by (simp add: balanced_append balanced_wrap)
next
  case (p_member ts e name)
  then show ?case by (simp add: balanced_append)
next
  case (p_array ts e us i)
  then show ?case by (simp add: balanced_append balanced_wrap)
next
  case (l_more ts l us e l')
  then show ?case by (simp add: balanced_append)
qed simp_all

text \<open>The tokens that separate: operators and the punctuation of conditionals and lists.\<close>

definition sep :: "lexeme_val \<Rightarrow> bool" where
  "sep t \<longleftrightarrow> (\<exists>op. t = tok (Oper op)) \<or> t \<in> {tok (Punct QST), tok (Punct COLON), tok (Punct COMMA)}"

definition is_comma :: "lexeme_val \<Rightarrow> bool" where "is_comma t \<longleftrightarrow> t = tok (Punct COMMA)"

definition sep_or_paren :: "lexeme_val \<Rightarrow> bool" where
  "sep_or_paren t \<longleftrightarrow> sep t \<or> t = tok (Punct LP)"

lemma sep_simps [simp]:
  "sep (tok (Oper op))" "sep (tok (Punct QST))" "sep (tok (Punct COLON))" "sep (tok (Punct COMMA))"
  "\<not> sep (tok (Word w))" "\<not> sep (sym name)" "\<not> sep (t, ExprVal e)" "\<not> sep (tok (Punct LP))"
  "\<not> sep (tok (Punct RP))" "\<not> sep (tok (Punct LBK))" "\<not> sep (tok (Punct RBK))"
  "\<not> sep (tok (Punct DOT))"
  by (simp_all add: sep_def)

lemma is_comma_simps [simp]:
  "is_comma (tok (Punct COMMA))" "\<not> is_comma (tok (Oper op))" "\<not> is_comma (tok (Word w))"
  "\<not> is_comma (sym name)" "\<not> is_comma (t, ExprVal e)" "\<not> is_comma (tok (Punct LP))"
  "\<not> is_comma (tok (Punct RP))" "\<not> is_comma (tok (Punct LBK))" "\<not> is_comma (tok (Punct RBK))"
  "\<not> is_comma (tok (Punct DOT))" "\<not> is_comma (tok (Punct QST))" "\<not> is_comma (tok (Punct COLON))"
  by (simp_all add: is_comma_def)

lemma sep_or_paren_simps [simp]:
  "\<not> sep_or_paren (sym name)" "\<not> sep_or_paren (tok (Punct LBK))" "sep_or_paren (tok (Punct LP))"
  "\<not> sep_or_paren (tok (Punct RBK))" "\<not> sep_or_paren (tok (Punct DOT))" "sep t \<Longrightarrow> sep_or_paren t"
  by (simp_all add: sep_or_paren_def)

lemma primary_free:
  "g_primary us f \<Longrightarrow> free sep_or_paren us"
proof (induction us f rule: g_expr_g_primary_g_expr_list.inducts(2)
    [where ?P1.0 = "\<lambda>_ _. True" and ?P3.0 = "\<lambda>_ _. True"])
  case (p_array ts e us i)
  then show ?case
    using free_inside [of us] derived_balanced(1,2)
    by (auto simp: balanced_def)
next
  case (p_member ts e name)
  then show ?case
    using derived_balanced(2) [of ts e] by (simp add: balanced_def)
qed simp_all

lemma primary_head: "g_primary us f \<Longrightarrow> \<exists>name r. us = sym name # r"
  by (induction us f rule: g_expr_g_primary_g_expr_list.inducts(2)
    [where ?P1.0 = "\<lambda>_ _. True" and ?P3.0 = "\<lambda>_ _. True"]) auto

lemma derived_no_comma: "g_expr ts e \<Longrightarrow> free is_comma ts"
proof (induction ts e rule: g_expr_g_primary_g_expr_list.inducts(1)
    [where ?P2.0 = "\<lambda>us _. free is_comma us" and ?P3.0 = "\<lambda>_ _. True"])
  case (e_primary ts e)
  then show ?case by simp
next
  case (e_cast w f ts x)
  then show ?case
    using free_inside [of ts] derived_balanced(1) by (simp)
next
  case (e_paren ts e)
  then show ?case
    using free_inside [of ts] derived_balanced(1) by (simp)
next
  case (e_call ts f us args e)
  then show ?case
    using free_inside [of us] derived_balanced(2) [of ts f] derived_balanced(3) [of us args]
    by (simp add: balanced_def)
next
  case (p_array ts e us i)
  then show ?case
    using free_inside [of us] derived_balanced(2) [of ts e] derived_balanced(1) [of us i]
    by (simp add: balanced_def)
qed (use derived_balanced in \<open>auto simp: balanced_def\<close>)

lemma printed_balanced: "gram_expr e \<Longrightarrow> balanced (expr_toks e) \<and> expr_toks e \<noteq> []"
  using expr_derived derived_balanced(1) by blast

lemma printed_free: "gram_expr e \<Longrightarrow> free sep (expr_toks e)"
proof (induction e)
  case (MemberRefE b m)
  then show ?case using printed_balanced [of b] by (simp add: balanced_def)
next
  case (ArrayRefE b i)
  then show ?case
    using printed_balanced [of b] printed_balanced [of i] free_inside [of "expr_toks i"]
    by (simp add: balanced_def)
next
  case (UniOpE opcode x)
  then show ?case
    using printed_balanced [of x] free_inside [of "expr_toks x"]
    by (auto simp: in_parens_def split: option.splits)
next
  case (BinOpE opcode x y)
  then show ?case
    using printed_balanced [of x] printed_balanced [of y] free_inside [of "expr_toks x" sep]
      free_inside [of "expr_toks y" sep]
    by (auto simp: in_parens_def balanced_def split: option.splits)
next
  case (IteOpE x y z)
  then show ?case
    using printed_balanced [of x] printed_balanced [of y] printed_balanced [of z]
      free_inside [of "expr_toks x" sep] free_inside [of "expr_toks y" sep]
      free_inside [of "expr_toks z" sep]
    by (simp add: in_parens_def balanced_def)
next
  case (FuncCallE f args)
  then obtain l where "g_expr_list (comma_toks (map expr_toks args)) l"
    using list_derived [of args] expr_derived by (auto simp: list_all_iff)
  then have "balanced (comma_toks (map expr_toks args))" by (rule derived_balanced(3))
  with FuncCallE show ?case
    using printed_balanced [of f] free_inside [of "comma_toks (map expr_toks args)"]
    by (simp add: in_parens_def balanced_def)
qed simp_all

lemma prim_head: "prim_form e \<Longrightarrow> gram_expr e \<Longrightarrow> \<exists>name r. expr_toks e = sym name # r"
  using expr_derived primary_head by blast

section \<open>One derivation\<close>

lemma no_bin:
  assumes "ts @ tok (Oper op) # us = vs" and "free sep vs" and "g_expr ts x"
  shows False
  using assms derived_balanced(1) [of ts x] by (auto simp: balanced_def)

lemma no_ite:
  assumes "ts @ tok (Punct QST) # us = vs" and "free sep vs" and "g_expr ts x"
  shows False
  using assms derived_balanced(1) [of ts x] by (auto simp: balanced_def)

text \<open>Tokens in parentheses are derived as what stands between them.\<close>

lemma free_in_parens: "balanced m \<Longrightarrow> \<not> P (tok (Punct LP)) \<Longrightarrow> \<not> P (tok (Punct RP)) \<Longrightarrow> free P (in_parens m)"
  using free_inside [of m P] by (simp add: in_parens_def balanced_def)

lemma paren_derived:
  assumes "g_expr (in_parens m) e" and "balanced m"
  shows "g_expr m e"
proof -
  have free: "free sep (in_parens m)" by (rule free_in_parens [OF assms(2)]) simp_all
  from assms(1) show ?thesis
  proof (cases rule: g_expr.cases)
    case e_primary
    then show ?thesis using primary_head by (fastforce simp: in_parens_def)
  next
    case (e_bin op f ts x us y)
    then show ?thesis using no_bin [OF e_bin(1) [symmetric] free] by blast
  next
    case (e_ite ts x us y vs z)
    then show ?thesis using no_ite [OF e_ite(1) [symmetric] free] by blast
  next
    case (e_call ts f us args)
    then show ?thesis using primary_head [of ts f] by (auto simp: in_parens_def)
  qed (auto simp: in_parens_def)
qed

text \<open>
  What has a separating token outside all brackets, but not at its start, is derived by the rule of
  binary operators or of conditionals.
\<close>

lemma top_derived:
  assumes "g_expr vs e" and "\<not> free sep vs" and "\<not> sep (hd vs)"
  obtains (bin) ts op us f x y where "vs = ts @ tok (Oper op) # us" "bin_action op = Some f"
      "g_expr ts x" "g_expr us y" "e = f x y"
  | (ite) ts us ws x y z where "vs = ts @ tok (Punct QST) # us @ tok (Punct COLON) # ws"
      "g_expr ts x" "g_expr us y" "g_expr ws z" "e = IteOpE x y z"
proof -
  have inside: "free sep (in_parens ts)" if "balanced ts" for ts
    using free_in_parens that by simp
  have prim: "free sep ts" "depth ts = 0" if "g_primary ts x" for ts x
    using free_mono [OF primary_free [OF that]] derived_balanced(2) [OF that]
    by (simp_all add: balanced_def)
  from assms(1) show ?thesis
  proof (cases rule: g_expr.cases)
    case (e_primary)
    then show ?thesis using prim assms(2) by blast
  next
    case (e_cast w f ts x)
    then show ?thesis
      using inside [of ts] derived_balanced(1) assms(2) by (simp add: in_parens_def)
  next
    case (e_paren ts)
    then show ?thesis
      using inside [of ts] derived_balanced(1) assms(2) by (simp add: in_parens_def)
  next
    case (e_call ts f us args)
    then show ?thesis
      using prim [of ts f] inside [of us] derived_balanced(3) assms(2) by (simp add: in_parens_def)
  next
    case (e_bin op f ts x us y)
    then show ?thesis using bin by blast
  next
    case (e_ite ts x us y ws z)
    then show ?thesis using ite by (simp add: new_defs)
  qed (use assms(2,3) in auto)
qed

lemma bin_derived:
  assumes "g_expr (ts @ tok (Oper op) # us) e" and "balanced ts" and "ts \<noteq> []" and "free sep ts"
    and "balanced us" and "free sep us"
  shows "\<exists>f x y. bin_action op = Some f \<and> g_expr ts x \<and> g_expr us y \<and> e = f x y"
proof -
  have d: "depth ts = 0" "depth us = 0" using assms(2,5) by (simp_all add: balanced_def)
  have top: "\<not> free sep (ts @ tok (Oper op) # us)" "\<not> sep (hd (ts @ tok (Oper op) # us))"
    using d assms(3,4) by (cases ts; simp)+
  have later: False if "us = w @ t # q" "depth w = 0" "sep t" for w t q
    using that assms(6) by auto
  from assms(1) top show ?thesis
  proof (cases rule: top_derived)
    case (bin vs op' ws f x y)
    have "depth vs = 0" using bin derived_balanced(1) by (auto simp: balanced_def)
    from split_after [OF bin(1) [symmetric] this _ assms(4) _ d(1)] later bin show ?thesis
      by fastforce
  next
    case (ite vs ws zs x y z)
    have "depth vs = 0" using ite derived_balanced(1) by (auto simp: balanced_def)
    from split_after [OF ite(1) [symmetric] this _ assms(4) _ d(1)] later show ?thesis
      by fastforce
  qed
qed

lemma ite_derived:
  assumes "g_expr (ts @ tok (Punct QST) # us @ tok (Punct COLON) # ws) e" and "balanced ts"
    and "ts \<noteq> []" and "free sep ts" and "balanced us" and "free sep us" and "balanced ws"
    and "free sep ws"
  shows "\<exists>x y z. g_expr ts x \<and> g_expr us y \<and> g_expr ws z \<and> e = IteOpE x y z"
proof -
  let ?vs = "ts @ tok (Punct QST) # us @ tok (Punct COLON) # ws"
  have d: "depth ts = 0" "depth us = 0" "depth ws = 0" using assms(2,5,7) by (simp_all add: balanced_def)
  have top: "\<not> free sep ?vs" "\<not> sep (hd ?vs)"
    using d assms(3,4) by (cases ts; simp)+
  have last_part: False if "ws = w @ t # q" "depth w = 0" "sep t" for w t q
    using that assms(8) by auto
  have rest: "w = us \<and> t = tok (Punct COLON) \<and> q = ws"
    if "us @ tok (Punct COLON) # ws = w @ t # q" "depth w = 0" "sep t" for w t q
    using split_after [OF that(1) [symmetric] that(2,3) assms(6) delta_simps(10) d(2)]
      last_part [OF _ _ that(3)] by blast
  from assms(1) top show ?thesis
  proof (cases rule: top_derived)
    case (bin vs op zs f x y)
    have "depth vs = 0" using bin derived_balanced(1) by (auto simp: balanced_def)
    from split_after [OF bin(1) [symmetric] this _ assms(4) _ d(1)] rest show ?thesis
      by fastforce
  next
    case (ite vs ys zs x y z)
    have v: "depth vs = 0" "depth ys = 0" using ite derived_balanced(1) by (auto simp: balanced_def)
    from split_after [OF ite(1) [symmetric] v(1) _ assms(4) _ d(1)] rest
    have "vs = ts" "ys @ tok (Punct COLON) # zs = us @ tok (Punct COLON) # ws" by fastforce+
    moreover from this(2) have "ys = us \<and> zs = ws"
      using rest [OF _ v(2), of "tok (Punct COLON)" zs] by simp
    ultimately show ?thesis using ite by blast
  qed
qed

text \<open>The two forms that end with a bracket, and members.\<close>

lemma ends_with_bracket:
  assumes "p @ a # m @ [b] = p' @ a' # m' @ [b']" and "balanced p" and "balanced p'"
    and "balanced m" and "balanced m'" and "delta a = 1" and "delta a' = 1"
  shows "p = p' \<and> a = a' \<and> m = m' \<and> b = b'"
proof -
  have "(p @ a # m) @ [b] = (p' @ a' # m') @ [b']" using assms(1) by simp
  then have "p @ a # m = p' @ a' # m'" "b = b'" by (simp_all only: append1_eq_conv)
  then show ?thesis using split_open [of p a m p' a' m'] assms(2-7) by (auto simp: balanced_def)
qed

lemma prim_derived:
  assumes "g_expr (expr_toks e) e'" and "prim_form e" and "gram_expr e"
  shows "g_primary (expr_toks e) e'"
proof -
  obtain name r where head: "expr_toks e = sym name # r" using prim_head assms(2,3) by blast
  have free: "free sep_or_paren (expr_toks e)" using primary_free expr_derived assms(2,3) by blast
  then have "free sep (expr_toks e)" by (rule free_mono) simp
  from assms(1) show ?thesis
  proof (cases rule: g_expr.cases)
    case (e_bin op f ts x us y)
    then show ?thesis using no_bin [OF e_bin(1) [symmetric] \<open>free sep (expr_toks e)\<close>] by blast
  next
    case (e_ite ts x us y vs z)
    then show ?thesis using no_ite [OF e_ite(1) [symmetric] \<open>free sep (expr_toks e)\<close>] by blast
  next
    case (e_call ts f us args)
    then show ?thesis using free derived_balanced(2) [of ts f] by (auto simp: balanced_def)
  qed (use head in auto)
qed

lemma list_add_unique: "list_add l x = Inr l' \<Longrightarrow> list_rep l xs \<Longrightarrow> Suc (length xs) < 2 ^ 32 \<Longrightarrow> list_rep l' (xs @ [x])"
  using al.add_rep [of l xs x] by auto

lemma derived_not_Nil [simp]: "\<not> g_expr [] e"
  using derived_balanced(1) by blast

lemma list_unique:
  assumes "\<forall>e\<in>set es. gram_expr e \<and> (\<forall>e'. g_expr (expr_toks e) e' \<longrightarrow> e' = e)"
    and "length es < 2 ^ 32" and "g_expr_list (comma_toks (map expr_toks es)) l"
  shows "list_rep l es"
  using assms
proof (induction es arbitrary: l rule: rev_induct)
  case Nil
  from Nil(3) show ?case by (cases rule: g_expr_list.cases) (auto simp: list_rep_new)
next
  case (snoc e es)
  have e: "gram_expr e" "\<And>e'. g_expr (expr_toks e) e' \<Longrightarrow> e' = e" "balanced (expr_toks e)"
    "expr_toks e \<noteq> []" "free is_comma (expr_toks e)"
    using snoc.prems(1) printed_balanced [of e] derived_no_comma expr_derived by auto
  show ?case
  proof (cases "es = []")
    case True
    from snoc.prems(3) show ?thesis
    proof (cases rule: g_expr_list.cases)
      case (l_one e')
      then have "e' = e" using True e(2) by simp
      with l_one True show ?thesis using list_add_unique [OF _ list_rep_new] by fastforce
    next
      case (l_more ts l0 us e')
      then have "expr_toks e = ts @ tok (Punct COMMA) # us" "depth ts = 0"
        using True derived_balanced(3) [of ts l0] by (simp_all add: balanced_def)
      with e(5) show ?thesis by simp
    qed (use True e(4) in simp)
  next
    case False
    let ?c = "comma_toks (map expr_toks es)"
    obtain k where k: "g_expr_list ?c k"
      using list_derived [of es] snoc.prems(1,2) expr_derived by auto
    have toks: "comma_toks (map expr_toks (es @ [e])) = ?c @ tok (Punct COMMA) # expr_toks e"
      using False comma_toks_snoc by simp
    have c: "depth ?c = 0" using derived_balanced(3) [OF k] by (simp add: balanced_def)
    from snoc.prems(3) show ?thesis
    proof (cases rule: g_expr_list.cases)
      case (l_one e')
      from derived_no_comma [OF l_one(1)] c show ?thesis by (simp only: toks) simp
    next
      case (l_more ts l0 us e')
      have ts: "depth ts = 0" "balanced us" "free is_comma us"
        using l_more derived_balanced(3) [of ts l0] derived_balanced(1) [of us e']
          derived_no_comma [of us e'] by (simp_all add: balanced_def)
      have eq: "?c @ tok (Punct COMMA) # expr_toks e = ts @ tok (Punct COMMA) # us"
        using l_more(1) toks by simp
      then consider w where "?c = ts @ w" "w @ tok (Punct COMMA) # expr_toks e = tok (Punct COMMA) # us"
        | w where "ts = ?c @ w" "w @ tok (Punct COMMA) # us = tok (Punct COMMA) # expr_toks e"
        by (auto simp: append_eq_append_conv2)
      then have "ts = ?c \<and> us = expr_toks e"
      proof cases
        case 1
        show ?thesis
        proof (cases w)
          case (Cons t v)
          with 1 have "us = v @ tok (Punct COMMA) # expr_toks e" "depth v = 0" using c ts(1) by auto
          with ts(3) show ?thesis by simp
        qed (use 1 in simp)
      next
        case 2
        show ?thesis
        proof (cases w)
          case (Cons t v)
          with 2 have "expr_toks e = v @ tok (Punct COMMA) # us" "depth v = 0" using c ts(1) by auto
          with e(5) show ?thesis by simp
        qed (use 2 in simp)
      qed
      with l_more e(2) have "e' = e" "g_expr_list ?c l0" by auto
      with snoc.IH [of l0] snoc.prems(1,2) l_more(4) show ?thesis
        using list_add_unique [of l0 e l es] by simp
    qed (use toks in simp)
  qed
qed

lemma symbol_unique:
  assumes "g_expr [sym name] e"
  shows "e = SymbolE name"
  using assms
proof (cases rule: g_expr.cases)
  case e_primary
  then show ?thesis
    by (cases rule: g_primary.cases) (auto simp: new_defs append_eq_Cons_conv)
qed (auto simp: append_eq_Cons_conv Cons_eq_append_conv)

lemma leaf_unique:
  assumes "g_expr [t] e'" and "\<forall>name. t \<noteq> sym name"
  shows "t = tok (Word TRUE) \<and> e' = TrueE \<or> t = tok (Word FALSE) \<and> e' = FalseE \<or>
    snd t = ExprVal e'"
  using assms(1)
proof (cases rule: g_expr.cases)
  case e_primary
  then show ?thesis using primary_head assms(2) by blast
qed (auto simp: new_defs append_eq_Cons_conv Cons_eq_append_conv)

lemma member_unique:
  assumes "gram_expr (MemberRefE b m)" and "g_expr (expr_toks (MemberRefE b m)) e'"
  shows "\<exists>b'. g_expr (expr_toks b) b' \<and> e' = MemberRefE b' m"
proof -
  have "g_primary (expr_toks b @ [tok (Punct DOT), sym m]) e'"
    using prim_derived [OF assms(2)] assms(1) by simp
  then show ?thesis
    by (cases rule: g_primary.cases)
      (use printed_balanced [of b] assms(1) e_primary in
        \<open>auto simp: new_defs append_eq_Cons_conv\<close>)
qed

lemma array_unique:
  assumes "gram_expr (ArrayRefE b i)" and "g_expr (expr_toks (ArrayRefE b i)) e'"
  shows "\<exists>b' i'. g_expr (expr_toks b) b' \<and> g_expr (expr_toks i) i' \<and> e' = ArrayRefE b' i'"
proof -
  have bal: "balanced (expr_toks b)" "expr_toks b \<noteq> []" "balanced (expr_toks i)"
    using assms(1) printed_balanced by simp_all
  have "g_primary (expr_toks b @ tok (Punct LBK) # expr_toks i @ [tok (Punct RBK)]) e'"
    using prim_derived [OF assms(2)] assms(1) by simp
  then show ?thesis
  proof (cases rule: g_primary.cases)
    case (p_array ts b' us i')
    then have "ts = expr_toks b \<and> us = expr_toks i"
      using ends_with_bracket [OF p_array(1) bal(1) _ bal(3)] derived_balanced(2) [of ts b']
        derived_balanced(1) [of us i'] by simp
    then show ?thesis using p_array e_primary by (auto simp: new_defs)
  next
    case (p_member ts b' name)
    then have "last (expr_toks b @ tok (Punct LBK) # expr_toks i @ [tok (Punct RBK)]) = sym name"
      by simp
    then show ?thesis by simp
  qed (use bal in \<open>auto simp: append_eq_Cons_conv\<close>)
qed

lemma uni_unique:
  assumes "uni_word opcode = Some (w, op)" and "gram_expr x"
    and "g_expr (expr_toks (UniOpE opcode x)) e'"
  shows "\<exists>x'. g_expr (expr_toks x) x' \<and> e' = UniOpE opcode x'"
proof -
  have bal: "balanced (expr_toks x)" "free sep (expr_toks x)"
    using assms(2) printed_balanced printed_free by simp_all
  have no_split: False if "tok (Oper op) # expr_toks x = ts @ t # us" "g_expr ts y" "sep t" for ts t us y
    using that bal(2) derived_balanced(1) [of ts y] by (cases ts) (auto simp: balanced_def)
  have "g_expr (tok (Oper op) # expr_toks x) e'"
    using paren_derived [of "tok (Oper op) # expr_toks x"] bal(1) assms(1,3) by simp
  then show ?thesis
  proof (cases rule: g_expr.cases)
    case (e_uni f y)
    then show ?thesis using uni_word_action [OF assms(1)] by auto
  next
    case e_primary
    then show ?thesis using primary_head by fastforce
  next
    case (e_bin op' f ts y us z)
    then show ?thesis using no_split [OF e_bin(1,4) sep_simps(1)] by blast
  next
    case (e_ite ts y us z ws u)
    then show ?thesis using no_split [OF e_ite(1,3) sep_simps(2)] by blast
  next
    case (e_call ts f us args)
    then show ?thesis using primary_head [of ts f] by auto
  qed
qed

lemma cast_unique:
  assumes "cast_word opcode = Some (w, t)" and "gram_expr x"
    and "g_expr (expr_toks (UniOpE opcode x)) e'"
  shows "\<exists>x'. g_expr (expr_toks x) x' \<and> e' = UniOpE opcode x'"
proof -
  have eq: "expr_toks (UniOpE opcode x) = tok (Word t) # in_parens (expr_toks x)"
    using cast_word_action [OF assms(1)] assms(1) by simp
  have fr: "free sep (expr_toks (UniOpE opcode x))"
    by (rule printed_free) (use assms in simp)
  from assms(3) show ?thesis
  proof (cases rule: g_expr.cases)
    case (e_cast w' f ts y)
    then show ?thesis using cast_word_action [OF assms(1)] eq by (auto simp: in_parens_def)
  next
    case e_primary
    then show ?thesis using primary_head eq by fastforce
  next
    case (e_bin op' f ts y us z)
    then show ?thesis using no_bin [OF e_bin(1) [symmetric] fr] by blast
  next
    case (e_ite ts y us z ws u)
    then show ?thesis using no_ite [OF e_ite(1) [symmetric] fr] by blast
  next
    case (e_call ts f us args)
    then show ?thesis using primary_head [of ts f] eq by auto
  qed (use eq in \<open>simp_all add: in_parens_def\<close>)
qed

lemma call_unique:
  assumes "gram_expr (FuncCallE f args)" and "g_expr (expr_toks (FuncCallE f args)) e'"
  shows "\<exists>f' l. g_expr (expr_toks f) f' \<and> g_expr_list (comma_toks (map expr_toks args)) l \<and>
    new_FuncCall f' l = Some (Inr e')"
proof -
  let ?c = "comma_toks (map expr_toks args)"
  have f: "prim_form f" "gram_expr f" "length args < 2 ^ 32" "\<forall>e\<in>set args. gram_expr e"
    using assms(1) by (simp_all add: list_all_iff)
  obtain l where l: "g_expr_list ?c l" using list_derived [of args] f expr_derived by auto
  have bal: "balanced (expr_toks f)" "balanced ?c" "depth (expr_toks f) = 0"
    using printed_balanced [OF f(2)] derived_balanced(3) [OF l] by (simp_all add: balanced_def)
  obtain name r where head: "expr_toks f = sym name # r" using prim_head [OF f(1,2)] by blast
  have fr: "free sep (expr_toks (FuncCallE f args))" by (rule printed_free [OF assms(1)])
  from assms(2) show ?thesis
  proof (cases rule: g_expr.cases)
    case (e_call ts f' us l')
    have "ts = expr_toks f \<and> us = ?c"
      using ends_with_bracket [of ts "tok (Punct LP)" us "tok (Punct RP)" "expr_toks f" "tok (Punct LP)" ?c]
        e_call derived_balanced(2) [of ts f'] derived_balanced(3) [of us l'] bal
      by (simp add: in_parens_def)
    then show ?thesis using e_call e_primary by blast
  next
    case e_primary
    then show ?thesis using primary_free [OF e_primary] bal(3) by (simp add: in_parens_def)
  next
    case (e_bin op' g ts y us z)
    then show ?thesis using no_bin [OF e_bin(1) [symmetric] fr] by blast
  next
    case (e_ite ts y us z ws u)
    then show ?thesis using no_ite [OF e_ite(1) [symmetric] fr] by blast
  qed (use head in \<open>simp_all add: in_parens_def\<close>)
qed

lemma expr_unique: "gram_expr e \<Longrightarrow> g_expr (expr_toks e) e' \<Longrightarrow> e' = e"
proof (induction e arbitrary: e')
  case (SymbolE name)
  then show ?case using symbol_unique by simp
next
  case (MemberRefE b m)
  then show ?case using member_unique [of b m e'] by auto
next
  case (ArrayRefE b i)
  then show ?case using array_unique [of b i e'] by auto
next
  case (UniOpE opcode x)
  then consider w op where "uni_word opcode = Some (w, op)" | w t where "cast_word opcode = Some (w, t)"
    by auto
  then obtain x' where "g_expr (expr_toks x) x'" "e' = UniOpE opcode x'"
    using uni_unique [of opcode _ _ x e'] cast_unique [of opcode _ _ x e'] UniOpE.prems
    by cases (simp del: expr_toks.simps, blast)+
  with UniOpE show ?case by simp
next
  case (BinOpE opcode x y)
  have bal: "balanced (expr_toks x)" "expr_toks x \<noteq> []" "balanced (expr_toks y)"
    "free sep (expr_toks x)" "free sep (expr_toks y)"
    using BinOpE.prems(1) printed_balanced printed_free by simp_all
  obtain w op where op: "op_word opcode = Some (w, op)" using BinOpE.prems(1) by auto
  then have "g_expr (expr_toks x @ tok (Oper op) # expr_toks y) e'"
    using BinOpE.prems(2) paren_derived [of "expr_toks x @ tok (Oper op) # expr_toks y"] bal
    by (simp add: balanced_append)
  from bin_derived [OF this bal(1,2,4,3,5)] show ?case
    using BinOpE op_word_action [OF op] by auto
next
  case (IteOpE x y z)
  have bal: "balanced (expr_toks x)" "expr_toks x \<noteq> []" "balanced (expr_toks y)"
    "balanced (expr_toks z)" "free sep (expr_toks x)" "free sep (expr_toks y)" "free sep (expr_toks z)"
    using IteOpE.prems(1) printed_balanced printed_free by simp_all
  let ?m = "expr_toks x @ tok (Punct QST) # expr_toks y @ tok (Punct COLON) # expr_toks z"
  have "g_expr ?m e'"
    using IteOpE.prems(2) paren_derived [of ?m] bal by (simp add: balanced_append)
  from ite_derived [OF this bal(1,2,5,3,6,4,7)] show ?case using IteOpE by auto
next
  case (FuncCallE f args)
  then obtain f' l where l: "g_expr (expr_toks f) f'" "new_FuncCall f' l = Some (Inr e')"
    "g_expr_list (comma_toks (map expr_toks args)) l"
    using call_unique [of f args e'] by blast
  have "f' = f" using FuncCallE l(1) by simp
  moreover have "list_rep l args"
    using FuncCallE list_unique [of args l] l(3) by (auto simp: list_all_iff)
  ultimately show ?case using l(2) by (simp add: new_FuncCall_def)
qed (use leaf_unique in \<open>fastforce+\<close>)

section \<open>Printing, scanning and parsing\<close>

text \<open>What the parser gets: the results of \<^verbatim>\<open>AstMgr::scan\<close> until the end of the file.\<close>

fun scan_all :: "(string \<Rightarrow> f64) \<Rightarrow> 's source \<Rightarrow> nat \<Rightarrow> nat \<Rightarrow> 's scanner \<Rightarrow>
    lexeme_val list res option" where
  "scan_all strtod src fuel 0 sc = None"
| "scan_all strtod src fuel (Suc n) sc =
     (case ast_scan strtod src fuel sc of
        None \<Rightarrow> None
      | Some (Inl e) \<Rightarrow> Some (Inl e)
      | Some (Inr (t, sc')) \<Rightarrow>
          if fst t = EOF then Some (Inr [])
          else map_option (map_sum id ((#) t)) (scan_all strtod src fuel n sc'))"

lemma map_sum_Inr: "map_sum id f z = Inr y \<longleftrightarrow> (\<exists>x. z = Inr x \<and> y = f x)"
  by (cases z) auto

lemma scan_all_tokens:
  "read_tokens src fuel n sc = Some (Inr ts) \<Longrightarrow>
    scan_all strtod src fuel n sc = Some (Inr (map (\<lambda>(t, buf). (t, string_value strtod t buf)) ts))"
proof (induction n arbitrary: sc ts)
  case (Suc n)
  then obtain t sc' where r: "read_token src fuel sc = Some (Inr (t, sc'))"
    by (auto split: option.splits sum.splits)
  show ?case
  proof (cases "t = EOF")
    case True
    with Suc.prems r show ?thesis by (simp add: ast_scan_def)
  next
    case False
    with Suc.prems r obtain us where us: "read_tokens src fuel n sc' = Some (Inr us)"
      "ts = (t, mCurString sc') # us" by (auto simp: map_sum_Inr)
    from Suc.IH [OF us(1)] r False us(2) show ?thesis
      by (simp add: ast_scan_def token_value_string)
  qed
qed simp

lemma scan_all_text:
  assumes "reads src rest" and "YmslScanner_new code s = Inr sc"
    and "length (rest s) < n" and "length (rest s) + 2 \<le> fuel"
  shows "scan_all strtod src fuel n sc = Some (Inr (lexed strtod (rest s)))"
proof -
  have "read_tokens src fuel n sc = Some (Inr (text_tokens (rest s)))"
    using read_tokens_text [OF assms(1)] new_scanner [OF assms(2)] assms(3,4) by blast
  then show ?thesis by (simp add: scan_all_tokens lexed_def)
qed

text \<open>
  C19: printing, scanning and parsing an expression gives the expression. The printer writes every
  expression that the grammar builds without floating-point literals and without strings that
  contain a quote, a backslash or a line break; the tokens the parser gets from that text have a
  derivation in the grammar, and all their derivations, however precedences choose between them,
  build the printed expression.
\<close>

theorem printed_expression_parsed:
  assumes "gram_expr e" and "reads src rest" and "YmslScanner_new code s = Inr sc"
  shows "\<exists>w. print_expr sf e = Inr w \<and>
    (rest s = w \<longrightarrow> length w < n \<longrightarrow> length w + 2 \<le> fuel \<longrightarrow>
      (\<exists>ts. scan_all strtod src fuel n sc = Some (Inr ts) \<and> (\<forall>e'. g_expr ts e' \<longleftrightarrow> e' = e)))"
proof -
  obtain w where printed: "print_expr sf e = Inr w" "scans strtod word_or_dot w (expr_toks e)"
    using gram_expr_text [OF assms(1)] expr_textD by blast
  have "lexed strtod w = expr_toks e"
    using printed(2) [unfolded scans_def, rule_format, of "[]"] by (simp add: starts_def)
  moreover have "g_expr (expr_toks e) e' \<longleftrightarrow> e' = e" for e'
    using expr_unique [OF assms(1)] expr_derived [OF assms(1)] by blast
  ultimately show ?thesis
    using printed(1) scan_all_text [OF assms(2,3), of n fuel strtod] by simp
qed

text \<open>\<^verbatim>\<open>f(a, -5) + b[not c]\<close>, printed as \<^verbatim>\<open>(f(a, -5) + b[( not c)])\<close>.\<close>

theorem printed_expression_parsed_witness:
  "\<exists>sc ts. YmslScanner_new token_code ''(f(a, -5) + b[( not c)])'' = Inr sc \<and>
    scan_all (\<lambda>_. 0) text_source 30 30 sc = Some (Inr ts) \<and>
    (\<forall>e'. g_expr ts e' \<longleftrightarrow> e' = BinOpE kOpAdd
      (FuncCallE (SymbolE ''f'') [SymbolE ''a'', IntConstE (-5)])
      (ArrayRefE (SymbolE ''b'') (UniOpE kOpLogNot (SymbolE ''c''))))"
proof -
  let ?e = "BinOpE kOpAdd (FuncCallE (SymbolE ''f'') [SymbolE ''a'', IntConstE (-5)])
    (ArrayRefE (SymbolE ''b'') (UniOpE kOpLogNot (SymbolE ''c'')))"
  let ?w = "''(f(a, -5) + b[( not c)])''"
  have "is_name ''f''" "is_name ''a''" "is_name ''b''" "is_name ''c''"
    by code_simp+
  then have gram: "gram_expr ?e" by simp
  have printed: "print_expr (\<lambda>_. '''') ?e = Inr ?w"
    by code_simp
  from printed_expression_parsed [OF gram text_source_reads sample_scanner,
      of "\<lambda>_. ''''" ?w 30 30 "\<lambda>_. 0"]
  obtain ts where "scan_all (\<lambda>_. 0) text_source 30 30
      \<lparr>mCurString = '''', mDic = dic token_code, mUngetToken = DUMMY, input = ?w\<rparr> = Some (Inr ts)"
    "\<forall>e'. g_expr ts e' \<longleftrightarrow> e' = ?e"
    unfolding printed by auto
  with sample_scanner [of ?w] show ?thesis by blast
qed

end
