(* ===== verification/Print_Stmt.thy ===== *)
theory Print_Stmt
  imports Print_Parse
begin

text \<open>
  Printed statements and modules: those that are read back, and declarations of functions, which
  are not.
\<close>

section \<open>Outputs that are scanned as given tokens\<close>

definition gives :: "(string \<Rightarrow> f64) \<Rightarrow> (char \<Rightarrow> bool) \<Rightarrow> string res \<Rightarrow> lexeme_val list \<Rightarrow> bool" where
  "gives strtod P f ts \<longleftrightarrow> (\<exists>w. f = Inr w \<and> scans strtod P w ts)"

lemma gives_eq: "gives strtod P f us \<Longrightarrow> us = ts \<Longrightarrow> gives strtod P f ts"
  by simp

lemma gives_out: "scans strtod P w ts \<Longrightarrow> gives strtod P (out w) ts"
  by (simp add: gives_def out_def)

lemma gives_none: "gives strtod P (outs []) []"
  by (simp add: gives_def out_def)

lemma gives_cat: "gives strtod never f ts \<Longrightarrow> gives strtod Q g us \<Longrightarrow> gives strtod Q (cat f g) (ts @ us)"
  by (auto simp: gives_def intro: scans_never_append)

lemma gives_more:
  "gives strtod never f ts \<Longrightarrow> gives strtod Q (outs fs) us \<Longrightarrow> gives strtod Q (outs (f # fs)) (ts @ us)"
  by (simp add: gives_cat)

text \<open>A word or a number, then something that starts with another character.\<close>

lemma gives_delim:
  assumes "gives strtod word_or_dot f ts" and "gives strtod Q (outs (out (c # cs) # fs)) us"
    and "\<not> word_or_dot c"
  shows "gives strtod Q (outs (f # out (c # cs) # fs)) (ts @ us)"
proof -
  obtain w where w: "f = Inr w" "scans strtod word_or_dot w ts"
    using assms(1) by (auto simp: gives_def)
  obtain v where v: "outs (out (c # cs) # fs) = Inr v" "scans strtod Q v us"
    using assms(2) by (auto simp: gives_def)
  then have "v \<noteq> []" "\<not> starts word_or_dot v"
    using assms(3) by (auto simp: out_def cat_def)
  with w v show ?thesis
    using scans_append [OF w(2) v(2)] by (simp add: gives_def)
qed

lemma gives_weaken: "gives strtod P f ts \<Longrightarrow> (\<And>c. P c \<Longrightarrow> Q c) \<Longrightarrow> gives strtod Q f ts"
  by (auto simp: gives_def intro: scans_weaken)

lemma gives_expr: "gram_expr e \<Longrightarrow> gives strtod word_or_dot (print_expr sf e) (expr_toks e)"
  using gram_expr_text [of e sf strtod] expr_textD by (auto simp: gives_def)

lemma gives_name: "is_name name \<Longrightarrow> gives strtod word_or_dot (out name) [sym name]"
  using scans_word_or_dot [OF scans_name] by (simp add: gives_out)

section \<open>The fixed texts\<close>

lemma scans_word_blank:
  "\<lbrakk>table_text w t; starts is_symbol w; blank_char c; \<not> word_char c\<rbrakk> \<Longrightarrow>
    scans strtod never (w @ [c]) [tok t]"
  by (rule scans_blank_after [OF _ _ scans_word])

lemma scans_then_nl: "scans strtod never w ts \<Longrightarrow> scans strtod never (w @ [nl]) ts"
  using scans_never_append [of strtod w ts never "[nl]" "[]"] scans_blank [OF blank_chars(2) scans_empty]
  by simp

lemma stmt_words:
  "table_text ''break'' (Word BREAK)" "table_text ''continue'' (Word CONTINUE)"
  "table_text ''const'' (Word CONST')" "table_text ''do'' (Word DO)" "table_text ''while'' (Word WHILE)"
  "table_text ''enum'' (Word ENUM)" "table_text ''goto'' (Word GOTO)" "table_text ''if'' (Word IF)"
  "table_text ''else'' (Word ELSE)" "table_text ''return'' (Word RETURN)"
  "table_text ''switch'' (Word SWITCH)" "table_text ''case'' (Word CASE)"
  "table_text ''default'' (Word DEFAULT)" "table_text ''var'' (Word VAR)"
  "table_text ''import'' (Word IMPORT)" "table_text ''as'' (Word AS)" "table_text ''void'' (Word VOID)"
  "table_text ''boolean'' (Word BOOLEAN)" "table_text ''int'' (Word INT')"
  "table_text ''float'' (Word FLOAT)" "table_text ''string'' (Word STRING)"
  "table_text ''array'' (Word ARRAY)" "table_text ''set'' (Word SET)" "table_text ''map'' (Word MAP)"
  "table_text ''function'' (Word FUNCTION)"
  by code_simp+

lemma table_eqs:
  "table_text ''='' (Punct EQ)" "table_text ''+='' (Punct EQPLUS)" "table_text ''-='' (Punct EQMINUS)"
  "table_text ''*='' (Punct EQMULT)" "table_text ''/='' (Punct EQDIV)" "table_text ''%='' (Punct EQMOD)"
  "table_text ''<<='' (Punct EQLSHIFT)" "table_text ''>>='' (Punct EQRSHIFT)"
  "table_text ''&='' (Punct EQBITAND)" "table_text ''|='' (Punct EQBITOR)"
  "table_text ''^='' (Punct EQBITXOR)"
  by code_simp+

lemma word_starts:
  "starts is_symbol ''break''" "starts is_symbol ''continue''" "starts is_symbol ''const''"
  "starts is_symbol ''do''" "starts is_symbol ''while''" "starts is_symbol ''enum''"
  "starts is_symbol ''goto''" "starts is_symbol ''if''" "starts is_symbol ''else''"
  "starts is_symbol ''return''" "starts is_symbol ''switch''" "starts is_symbol ''case''"
  "starts is_symbol ''default''" "starts is_symbol ''var''" "starts is_symbol ''import''"
  "starts is_symbol ''as''" "starts is_symbol ''void''" "starts is_symbol ''boolean''"
  "starts is_symbol ''int''" "starts is_symbol ''float''" "starts is_symbol ''string''"
  "starts is_symbol ''array''" "starts is_symbol ''set''" "starts is_symbol ''map''"
  "starts is_symbol ''function''"
  by (simp_all add: is_symbol_def)

text \<open>A reserved word with a blank, one with a semicolon or an opening parenthesis.\<close>

lemma gives_words:
  "gives strtod never (out ''const '') [tok (Word CONST')]"
  "gives strtod never (out ''while '') [tok (Word WHILE)]"
  "gives strtod never (out ''enum '') [tok (Word ENUM)]"
  "gives strtod never (out ''goto '') [tok (Word GOTO)]"
  "gives strtod never (out ''if '') [tok (Word IF)]"
  "gives strtod never (out ''switch '') [tok (Word SWITCH)]"
  "gives strtod never (out ''case '') [tok (Word CASE)]"
  "gives strtod never (out ''var '') [tok (Word VAR)]"
  "gives strtod never (out ''import '') [tok (Word IMPORT)]"
  "gives strtod never (out ''function '') [tok (Word FUNCTION)]"
  "gives strtod never (out (''do'' @ [nl])) [tok (Word DO)]"
  "gives strtod never (out (''else'' @ [nl])) [tok (Word ELSE)]"
  using stmt_words word_starts
    scans_word_blank [OF stmt_words(3) word_starts(3) blank_chars(1)]
    scans_word_blank [OF stmt_words(5) word_starts(5) blank_chars(1)]
    scans_word_blank [OF stmt_words(6) word_starts(6) blank_chars(1)]
    scans_word_blank [OF stmt_words(7) word_starts(7) blank_chars(1)]
    scans_word_blank [OF stmt_words(8) word_starts(8) blank_chars(1)]
    scans_word_blank [OF stmt_words(11) word_starts(11) blank_chars(1)]
    scans_word_blank [OF stmt_words(12) word_starts(12) blank_chars(1)]
    scans_word_blank [OF stmt_words(14) word_starts(14) blank_chars(1)]
    scans_word_blank [OF stmt_words(15) word_starts(15) blank_chars(1)]
    scans_word_blank [OF stmt_words(25) word_starts(25) blank_chars(1)]
    scans_word_blank [OF stmt_words(4) word_starts(4) blank_chars(2)]
    scans_word_blank [OF stmt_words(9) word_starts(9) blank_chars(2)]
  by (simp_all add: gives_out)

text \<open>A reserved word before another character, and the punctuation with its blanks and line ends.\<close>

lemma gives_tight:
  "gives strtod word_or_dot (out ''return'') [tok (Word RETURN)]"
  "gives strtod word_or_dot (out ''default'') [tok (Word DEFAULT)]"
  "gives strtod word_or_dot (out ''void'') [tok (Word VOID)]"
  "gives strtod word_or_dot (out ''boolean'') [tok (Word BOOLEAN)]"
  "gives strtod word_or_dot (out ''int'') [tok (Word INT')]"
  "gives strtod word_or_dot (out ''float'') [tok (Word FLOAT)]"
  "gives strtod word_or_dot (out ''string'') [tok (Word STRING)]"
  by (rule gives_out [OF scans_word_or_dot [OF scans_word]];
      rule stmt_words word_starts)+

lemma scans_word_single:
  assumes "table_text w t" and "starts is_symbol w" and "scans strtod never [c] [u]"
    and "\<not> word_char c"
  shows "scans strtod never (w @ [c]) [tok t, u]"
  using scans_append [OF scans_word [OF assms(1,2)] assms(3)] assms(4) by simp

lemma scans_words_single:
  "scans strtod never ''break;'' [tok (Word BREAK), tok (Punct SEMI)]"
  "scans strtod never ''continue;'' [tok (Word CONTINUE), tok (Punct SEMI)]"
  "scans strtod never ''array('' [tok (Word ARRAY), tok (Punct LP)]"
  "scans strtod never ''set('' [tok (Word SET), tok (Punct LP)]"
  "scans strtod never ''map('' [tok (Word MAP), tok (Punct LP)]"
  using scans_word_single [OF stmt_words(1) word_starts(1) scans_singles(2)]
    scans_word_single [OF stmt_words(2) word_starts(2) scans_singles(2)]
    scans_word_single [OF stmt_words(22) word_starts(22) scans_singles(5)]
    scans_word_single [OF stmt_words(23) word_starts(23) scans_singles(5)]
    scans_word_single [OF stmt_words(24) word_starts(24) scans_singles(5)]
  by simp_all

lemma scans_single_blank:
  "scans strtod never w [t] \<Longrightarrow> blank_char c \<Longrightarrow> scans strtod never (w @ [c]) [t]"
  using scans_never_append [of strtod w "[t]" never "[c]" "[]"] scans_blank [OF _ scans_empty, of c] by simp

text \<open>The steps \<^verbatim>\<open>++\<close> and \<^verbatim>\<open>--\<close> with the semicolon behind them.\<close>

lemma step_words:
  "map_of init_data ''++;'' = None" "map_of init_data ''--;'' = None"
  "map_of init_data ''++'' = Some (Punct PLUSPLUS)" "map_of init_data ''--'' = Some (Punct MINUSMINUS)"
  by code_simp+

lemma scans_steps:
  "scans strtod never '' ++;'' [tok (Punct PLUSPLUS), tok (Punct SEMI)]"
  "scans strtod never '' --;'' [tok (Punct MINUSMINUS), tok (Punct SEMI)]"
proof -
  have "plain_first (CHR ''+'')"
    by (simp add: plain_first_def blank_char_def is_symbol_def is_digit_def)
  then have "lex_text (''++;'' @ r) = (Punct PLUSPLUS, '''', '';'' @ r)" for r
    by (simp add: lex_plain lex_op_def step_words)
  moreover have "lex_text (''--;'' @ r) = (Punct MINUSMINUS, '''', '';'' @ r)" for r
    by (simp add: lex_significant lex_token_def lex_op_def step_words char_classes starts_def is_digit_def)
  ultimately show "scans strtod never '' ++;'' [tok (Punct PLUSPLUS), tok (Punct SEMI)]"
    "scans strtod never '' --;'' [tok (Punct MINUSMINUS), tok (Punct SEMI)]"
    using scans_singles(2) [of strtod] lexed_token [where t = "Punct PLUSPLUS"]
      lexed_token [where t = "Punct MINUSMINUS"]
    by (simp_all add: scans_def lexed_blank)
qed

lemma scans_spaced_table: "table_text w t \<Longrightarrow> scans strtod never (CHR '' '' # w @ '' '') [tok t]"
  using scans_table_blank by simp

lemma gives_punct:
  "gives strtod never (out (''break;'' @ [nl])) [tok (Word BREAK), tok (Punct SEMI)]"
  "gives strtod never (out (''continue;'' @ [nl])) [tok (Word CONTINUE), tok (Punct SEMI)]"
  "gives strtod never (out ''array('') [tok (Word ARRAY), tok (Punct LP)]"
  "gives strtod never (out ''set('') [tok (Word SET), tok (Punct LP)]"
  "gives strtod never (out ''map('') [tok (Word MAP), tok (Punct LP)]"
  "gives strtod never (out ('' ++;'' @ [nl])) [tok (Punct PLUSPLUS), tok (Punct SEMI)]"
  "gives strtod never (out ('' --;'' @ [nl])) [tok (Punct MINUSMINUS), tok (Punct SEMI)]"
  "gives strtod never (out '': '') [tok (Punct COLON)]"
  "gives strtod never (out ('': '' @ [nl])) [tok (Punct COLON)]"
  "gives strtod never (out ('':'' @ [nl])) [tok (Punct COLON)]"
  "gives strtod never (out '', '') [tok (Punct COMMA)]"
  "gives strtod never (out '','') [tok (Punct COMMA)]"
  "gives strtod never (out ('';'' @ [nl])) [tok (Punct SEMI)]"
  "gives strtod never (out (''{'' @ [nl])) [tok (Punct LCB)]"
  "gives strtod never (out ('' {'' @ [nl])) [tok (Punct LCB)]"
  "gives strtod never (out (''}'' @ [nl])) [tok (Punct RCB)]"
  "gives strtod never (out '')'') [tok (Punct RP)]"
  "gives strtod never (out '' = '') [tok (Punct EQ)]"
  "gives strtod never (out [nl]) []" "gives strtod never (out '' '') []"
  "gives strtod never (out '''') []"
  "gives strtod never (out '' as '') [tok (Word AS)]"
  using scans_then_nl [OF scans_words_single(1)] scans_then_nl [OF scans_words_single(2)]
    scans_words_single(3-5) scans_then_nl [OF scans_steps(1)] scans_then_nl [OF scans_steps(2)]
    scans_single_blank [OF scans_singles(1) blank_chars(1)]
    scans_then_nl [OF scans_single_blank [OF scans_singles(1) blank_chars(1)]]
    scans_then_nl [OF scans_singles(1)] scans_single_blank [OF scans_singles(3) blank_chars(1)]
    scans_singles(3,6) scans_then_nl [OF scans_singles(2)] scans_then_nl [OF scans_singles(7)]
    scans_blank [OF blank_chars(1) scans_then_nl [OF scans_singles(7)]]
    scans_then_nl [OF scans_singles(8)] scans_spaced_table [OF table_eqs(1)]
    scans_blank [OF blank_chars(2) scans_empty] scans_blank [OF blank_chars(1) scans_empty]
    scans_spaced_table [OF stmt_words(16)]
  by (simp_all add: gives_out)

lemma gives_indent: "gives strtod never (print_indent i) []"
proof -
  have "scans strtod never (concat (replicate i ''  '')) []"
    by (induction i) (simp_all add: scans_blank)
  then show ?thesis by (simp add: print_indent_def gives_out)
qed

section \<open>Types\<close>

fun prim_word :: "type_id \<Rightarrow> word_token option" where
  "prim_word kVoidType = Some VOID"
| "prim_word kBooleanType = Some BOOLEAN"
| "prim_word kIntType = Some INT'"
| "prim_word kFloatType = Some FLOAT"
| "prim_word kStringType = Some STRING"
| "prim_word _ = None"

fun gram_type :: "ast_type \<Rightarrow> bool" where
  "gram_type (PrimT t) = (prim_word t \<noteq> None)"
| "gram_type (NamedT e) = (prim_form e \<and> gram_expr e)"
| "gram_type (ArrayT t) = gram_type t"
| "gram_type (SetT t) = gram_type t"
| "gram_type (MapT k t) = (gram_type k \<and> gram_type t)"

fun type_toks :: "ast_type \<Rightarrow> lexeme_val list" where
  "type_toks (PrimT t) = (case prim_word t of None \<Rightarrow> [] | Some w \<Rightarrow> [tok (Word w)])"
| "type_toks (NamedT e) = expr_toks e"
| "type_toks (ArrayT t) = tok (Word ARRAY) # in_parens (type_toks t)"
| "type_toks (SetT t) = tok (Word SET) # in_parens (type_toks t)"
| "type_toks (MapT k t) =
     tok (Word MAP) # in_parens (type_toks k @ tok (Punct COMMA) # type_toks t)"

lemma gives_any: "gives strtod never f ts \<Longrightarrow> gives strtod P f ts"
  by (erule gives_weaken) (simp add: never_def)

lemma gives_type: "gram_type t \<Longrightarrow> gives strtod word_or_dot (print_type sf t) (type_toks t)"
proof (induction t)
  case (PrimT t)
  then show ?case by (cases t) (simp_all add: gives_tight)
next
  case (NamedT e)
  then show ?case by (simp add: gives_expr)
next
  case (ArrayT t)
  note t = ArrayT.IH [OF ArrayT.prems [simplified]]
  show ?case
    unfolding print_type.simps
    by (rule gives_any, rule gives_eq, (rule gives_delim [OF t] gives_punct gives_none gives_more)+)
      (simp_all add: in_parens_def)
next
  case (SetT t)
  note t = SetT.IH [OF SetT.prems [simplified]]
  show ?case
    unfolding print_type.simps
    by (rule gives_any, rule gives_eq, (rule gives_delim [OF t] gives_punct gives_none gives_more)+)
      (simp_all add: in_parens_def)
next
  case (MapT k t)
  then have k: "gives strtod word_or_dot (print_type sf k) (type_toks k)"
    and t: "gives strtod word_or_dot (print_type sf t) (type_toks t)" by simp_all
  show ?case
    unfolding print_type.simps
    by (rule gives_any, rule gives_eq,
        (rule gives_delim [OF k] gives_delim [OF t] gives_punct gives_none gives_more)+)
      (simp_all add: in_parens_def)
qed

lemma type_derived: "gram_type t \<Longrightarrow> g_type (type_toks t) t"
proof (induction t)
  case (PrimT t)
  then show ?case
    using t_prim by (cases t) (auto simp: new_defs)
next
  case (NamedT e)
  then show ?case using t_named [of "expr_toks e" e] expr_derived by (simp add: new_defs)
next
  case (ArrayT t)
  then show ?case using t_array [of "type_toks t" t] by (simp add: new_defs in_parens_def)
next
  case (SetT t)
  then show ?case using t_set [of "type_toks t" t] by (simp add: new_defs in_parens_def)
next
  case (MapT k t)
  then show ?case
    using t_map [of "type_toks k" k "type_toks t" t] by (simp add: new_defs in_parens_def)
qed

section \<open>Statements that are read back\<close>

text \<open>
  \<open>gram_stmt\<close> holds of the statements whose printed text is in the grammar. Missing are functions
  and \<^verbatim>\<open>for\<close>, which are printed in another form than they are read; the conditions of \<^verbatim>\<open>while\<close> and
  \<^verbatim>\<open>do\<close> must be of a form that is printed in parentheses, and the branches of an \<^verbatim>\<open>if\<close> blocks,
  which excludes \<^verbatim>\<open>elif\<close>.
\<close>

fun paren_form :: "ast_expr \<Rightarrow> bool" where
  "paren_form (UniOpE opcode _) = (uni_word opcode \<noteq> None)"
| "paren_form (BinOpE _ _ _) = True"
| "paren_form (IteOpE _ _ _) = True"
| "paren_form _ = False"

fun is_block :: "ast_stmt \<Rightarrow> bool" where
  "is_block (BlockStmt _) = True"
| "is_block _ = False"

fun eq_word :: "op_code \<Rightarrow> (string \<times> punct_token) option" where
  "eq_word kOpAdd = Some (''+='', EQPLUS)"
| "eq_word kOpSub = Some (''-='', EQMINUS)"
| "eq_word kOpMul = Some (''*='', EQMULT)"
| "eq_word kOpDiv = Some (''/='', EQDIV)"
| "eq_word kOpMod = Some (''%='', EQMOD)"
| "eq_word kOpLshift = Some (''<<='', EQLSHIFT)"
| "eq_word kOpRshift = Some (''>>='', EQRSHIFT)"
| "eq_word kOpBitAnd = Some (''&='', EQBITAND)"
| "eq_word kOpBitOr = Some (''|='', EQBITOR)"
| "eq_word kOpBitXor = Some (''^='', EQBITXOR)"
| "eq_word _ = None"

fun gram_opt :: "('a \<Rightarrow> bool) \<Rightarrow> 'a option \<Rightarrow> bool" where
  "gram_opt P None = True"
| "gram_opt P (Some x) = P x"

fun gram_stmt :: "ast_stmt \<Rightarrow> bool" where
  "gram_stmt (BlockStmt sts) = (length sts < 2 ^ 32 \<and> list_all gram_stmt sts)"
| "gram_stmt Break = True"
| "gram_stmt (ConstDecl name t e) = (is_name name \<and> gram_type t \<and> gram_expr e)"
| "gram_stmt Continue = True"
| "gram_stmt (Decr e) = (prim_form e \<and> gram_expr e)"
| "gram_stmt (DoWhile st e) = (is_block st \<and> gram_stmt st \<and> paren_form e \<and> gram_expr e)"
| "gram_stmt (EnumDecl name ecs) =
     (is_name name \<and> ecs \<noteq> [] \<and> length ecs < 2 ^ 32 \<and>
      list_all (\<lambda>(n, e). is_name n \<and> gram_opt gram_expr e) ecs)"
| "gram_stmt (Assignment x y) = (prim_form x \<and> gram_expr x \<and> gram_expr y)"
| "gram_stmt (InplaceOp opcode x y) =
     (eq_word opcode \<noteq> None \<and> prim_form x \<and> gram_expr x \<and> gram_expr y)"
| "gram_stmt (ExprStmt e) = gram_expr e"
| "gram_stmt (Goto name) = is_name name"
| "gram_stmt (If e st else_stmt) =
     (gram_expr e \<and> is_block st \<and> gram_stmt st \<and>
      (case else_stmt of None \<Rightarrow> True | Some st2 \<Rightarrow> is_block st2 \<and> gram_stmt st2))"
| "gram_stmt (Incr e) = (prim_form e \<and> gram_expr e)"
| "gram_stmt (LabelStmt name) = is_name name"
| "gram_stmt NullStmt = True"
| "gram_stmt (ReturnStmt e) = gram_opt gram_expr e"
| "gram_stmt (Switch e cases) =
     (gram_expr e \<and> length cases < 2 ^ 32 \<and>
      list_all (\<lambda>(label, st). gram_opt gram_expr label \<and> is_block st \<and> gram_stmt st) cases)"
| "gram_stmt (VarDecl name t e) = (is_name name \<and> gram_type t \<and> gram_opt gram_expr e)"
| "gram_stmt (While e st) = (paren_form e \<and> gram_expr e \<and> is_block st \<and> gram_stmt st)"
| "gram_stmt _ = False"

text \<open>The tokens of a printed statement.\<close>

fun init_toks :: "ast_expr option \<Rightarrow> lexeme_val list" where
  "init_toks None = []"
| "init_toks (Some e) = tok (Punct EQ) # expr_toks e"

fun label_toks :: "ast_expr option \<Rightarrow> lexeme_val list" where
  "label_toks None = [tok (Word DEFAULT)]"
| "label_toks (Some e) = tok (Word CASE) # expr_toks e"

definition enum_toks :: "string \<times> ast_expr option \<Rightarrow> lexeme_val list" where
  "enum_toks ec = sym (fst ec) # init_toks (snd ec)"

fun stmt_toks :: "ast_stmt \<Rightarrow> lexeme_val list" where
  "stmt_toks (BlockStmt sts) =
     tok (Punct LCB) # concat (map stmt_toks sts) @ [tok (Punct RCB)]"
| "stmt_toks Break = [tok (Word BREAK), tok (Punct SEMI)]"
| "stmt_toks (ConstDecl name t e) =
     [tok (Word CONST'), sym name, tok (Punct COLON)] @ type_toks t @ tok (Punct EQ) # expr_toks e @
       [tok (Punct SEMI)]"
| "stmt_toks Continue = [tok (Word CONTINUE), tok (Punct SEMI)]"
| "stmt_toks (Decr e) = expr_toks e @ [tok (Punct MINUSMINUS), tok (Punct SEMI)]"
| "stmt_toks (DoWhile st e) = tok (Word DO) # stmt_toks st @ tok (Word WHILE) # expr_toks e"
| "stmt_toks (EnumDecl name ecs) =
     [tok (Word ENUM), sym name, tok (Punct LCB)] @ comma_toks (map enum_toks ecs) @ [tok (Punct RCB)]"
| "stmt_toks (Assignment x y) = expr_toks x @ tok (Punct EQ) # expr_toks y @ [tok (Punct SEMI)]"
| "stmt_toks (InplaceOp opcode x y) =
     expr_toks x @ (case eq_word opcode of None \<Rightarrow> [] | Some (_, p) \<Rightarrow> [tok (Punct p)]) @
       expr_toks y @ [tok (Punct SEMI)]"
| "stmt_toks (ExprStmt e) = expr_toks e @ [tok (Punct SEMI)]"
| "stmt_toks (Goto name) = [tok (Word GOTO), sym name, tok (Punct SEMI)]"
| "stmt_toks (If e st else_stmt) =
     tok (Word IF) # expr_toks e @ stmt_toks st @
       (case else_stmt of None \<Rightarrow> [] | Some st2 \<Rightarrow> tok (Word ELSE) # stmt_toks st2)"
| "stmt_toks (Incr e) = expr_toks e @ [tok (Punct PLUSPLUS), tok (Punct SEMI)]"
| "stmt_toks (LabelStmt name) = [sym name, tok (Punct COLON)]"
| "stmt_toks NullStmt = [tok (Punct SEMI)]"
| "stmt_toks (ReturnStmt e) =
     tok (Word RETURN) # (case e of None \<Rightarrow> [] | Some e \<Rightarrow> expr_toks e) @ [tok (Punct SEMI)]"
| "stmt_toks (Switch e cases) =
     tok (Word SWITCH) # expr_toks e @ tok (Punct LCB) #
       concat (map (\<lambda>(label, st). label_toks label @ tok (Punct COLON) # stmt_toks st) cases) @
       [tok (Punct RCB)]"
| "stmt_toks (VarDecl name t e) =
     [tok (Word VAR), sym name, tok (Punct COLON)] @ type_toks t @ init_toks e @ [tok (Punct SEMI)]"
| "stmt_toks (While e st) = tok (Word WHILE) # expr_toks e @ stmt_toks st"
| "stmt_toks _ = []"

section \<open>Their texts are scanned as their tokens\<close>

lemma eq_word_text:
  "eq_word opcode = Some (w, p) \<Longrightarrow> gives strtod never (eq_symbol opcode) [tok (Punct p)] \<and>
    eq_symbol opcode = out (CHR '' '' # w @ '' '')"
  using table_eqs scans_spaced_table [OF table_eqs(2)] scans_spaced_table [OF table_eqs(3)]
    scans_spaced_table [OF table_eqs(4)] scans_spaced_table [OF table_eqs(5)]
    scans_spaced_table [OF table_eqs(6)] scans_spaced_table [OF table_eqs(7)]
    scans_spaced_table [OF table_eqs(8)] scans_spaced_table [OF table_eqs(9)]
    scans_spaced_table [OF table_eqs(10)] scans_spaced_table [OF table_eqs(11)]
  by (cases opcode) (auto simp: gives_out)

lemma gives_outs:
  "\<forall>x\<in>set xs. gives strtod never (f x) (t x) \<Longrightarrow>
    gives strtod never (outs (map f xs)) (concat (map t xs))"
  by (induction xs) (auto simp: gives_none [simplified] intro: gives_cat)

lemma cat_blank: "cat (out '''') h = h"
  by (cases h) (simp_all add: cat_def out_def)

text \<open>An optional part that starts with a blank, behind a name, type or expression.\<close>

lemma gives_optional:
  assumes "gives strtod word_or_dot f ts" and "e = None \<Longrightarrow> g = out ''''"
    and "\<And>x. e = Some x \<Longrightarrow> \<exists>h. g = cat (out (CHR '' '' # cs)) h \<and> gives strtod word_or_dot h (us x)"
    and "scans strtod never (CHR '' '' # cs) vs"
    and "gives strtod Q (outs (out (c # ds) # fs)) ws" and "\<not> word_or_dot c"
  shows "gives strtod Q (outs (f # g # out (c # ds) # fs))
    (ts @ (case e of None \<Rightarrow> [] | Some x \<Rightarrow> vs @ us x) @ ws)"
proof (cases e)
  case None
  have "gives strtod Q (outs (f # out (c # ds) # fs)) (ts @ ws)"
    by (rule gives_delim [OF assms(1,5,6)])
  moreover have "outs (f # g # out (c # ds) # fs) = outs (f # out (c # ds) # fs)"
    using None assms(2) by (simp add: cat_blank)
  ultimately show ?thesis using None by simp
next
  case (Some x)
  then obtain h where h: "g = cat (out (CHR '' '' # cs)) h" "gives strtod word_or_dot h (us x)"
    using assms(3) by blast
  have assoc: "cat (cat a b) d = cat a (cat b d)" for a b d :: "string res"
    by (cases a; cases b; cases d) (simp_all add: cat_def)
  have "gives strtod Q (outs (out (CHR '' '' # cs) # h # out (c # ds) # fs)) (vs @ us x @ ws)"
    by (rule gives_more [OF gives_out [OF assms(4)] gives_delim [OF h(2) assms(5,6)]])
  from gives_delim [OF assms(1) this] Some h(1) show ?thesis by (simp add: assoc)
qed


lemmas gives_fixed =
  gives_words [unfolded append.simps] gives_punct [unfolded append.simps] gives_indent gives_none gives_more

lemma gives_init:
  assumes "gives strtod word_or_dot f ts" and "gram_opt gram_expr e"
    and "gives strtod Q (outs (out (c # ds) # fs)) us" and "\<not> word_or_dot c"
  shows "gives strtod Q (outs (f # print_init sf e # out (c # ds) # fs)) (ts @ init_toks e @ us)"
proof (rule gives_eq)
  show "gives strtod Q (outs (f # print_init sf e # out (c # ds) # fs))
    (ts @ (case e of None \<Rightarrow> [] | Some x \<Rightarrow> [tok (Punct EQ)] @ expr_toks x) @ us)"
    using assms(2) scans_spaced_table [OF table_eqs(1)]
    by (intro gives_optional [OF assms(1) _ _ _ assms(3,4), where cs = "''= ''"])
      (auto simp: print_init_def gives_expr)
qed (cases e; simp)

lemma gives_enums:
  "list_all (\<lambda>(n, e). is_name n \<and> gram_opt gram_expr e) ecs \<Longrightarrow>
    gives strtod never (print_enums sf i ecs) (comma_toks (map enum_toks ecs))"
proof (induction ecs)
  case Nil
  show ?case by (simp add: gives_fixed)
next
  case (Cons ec ecs)
  obtain name e where ec: "ec = (name, e)" by (cases ec)
  with Cons.prems have name: "is_name name" and e: "gram_opt gram_expr e" by auto
  have rest: "gives strtod never (print_enums sf i ecs) (comma_toks (map enum_toks ecs))"
    using Cons by simp
  show ?case
  proof (cases "ecs = []")
    case True
    have "gives strtod never (outs [out name, print_init sf e, out [nl], print_enums sf i ecs])
      ([sym name] @ init_toks e @ [] @ comma_toks (map enum_toks ecs) @ [])"
      by (rule gives_init [OF gives_name [OF name] e], (rule rest gives_fixed)+) simp
    from gives_more [OF gives_indent this] show ?thesis
      using True ec by (simp add: enum_toks_def cat_blank)
  next
    case False
    then have toks: "comma_toks (map enum_toks (ec # ecs)) =
      [] @ [sym name] @ init_toks e @ [tok (Punct COMMA)] @ [] @ comma_toks (map enum_toks ecs) @ []"
      using ec by (cases ecs) (simp_all add: enum_toks_def)
    have "gives strtod never (outs [out name, print_init sf e, out '','', out [nl], print_enums sf i ecs])
      ([sym name] @ init_toks e @ [tok (Punct COMMA)] @ [] @ comma_toks (map enum_toks ecs) @ [])"
      by (rule gives_init [OF gives_name [OF name] e], (rule rest gives_fixed)+) simp
    from gives_more [OF gives_indent [of strtod "i + 1"] this] False show ?thesis
      unfolding ec print_enums.simps toks [unfolded ec] by simp
  qed
qed


lemma gives_return:
  assumes "gram_opt gram_expr e"
  shows "gives strtod never
    (outs [out ''return'', (case e of None \<Rightarrow> out '''' | Some e \<Rightarrow> cat (out '' '') (print_expr sf e)),
       out ('';'' @ [nl])])
    (tok (Word RETURN) # (case e of None \<Rightarrow> [] | Some e \<Rightarrow> expr_toks e) @ [tok (Punct SEMI)])"
proof -
  have semi: "gives strtod never (outs [out (CHR '';'' # [nl])]) ([tok (Punct SEMI)] @ [])"
    by (rule gives_fixed)+
  have "gives strtod never
    (outs [out ''return'', (case e of None \<Rightarrow> out '''' | Some e \<Rightarrow> cat (out '' '') (print_expr sf e)),
       out (CHR '';'' # [nl])])
    ([tok (Word RETURN)] @ (case e of None \<Rightarrow> [] | Some x \<Rightarrow> [] @ expr_toks x) @ ([tok (Punct SEMI)] @ []))"
    using assms scans_blank [OF blank_chars(1) scans_empty]
    by (intro gives_optional [OF gives_tight(1) _ _ _ semi, where cs = "''''"])
      (auto simp: gives_expr)
  then show ?thesis by (cases e) simp_all
qed

lemma gives_label:
  assumes "gram_opt gram_expr label" and "gives strtod never f ts"
  shows "gives strtod never
    (outs [print_indent i, (case label of None \<Rightarrow> out ''default'' | Some l \<Rightarrow> cat (out ''case '') (print_expr sf l)),
       out ('': '' @ [nl]), f, out [nl]])
    (label_toks label @ tok (Punct COLON) # ts)"
proof -
  have rest: "gives strtod never (outs [out ('': '' @ [nl]), f, out [nl]]) (tok (Punct COLON) # ts)"
    unfolding append.simps by (rule gives_eq, (rule assms(2) gives_fixed)+) simp
  show ?thesis
  proof (cases label)
    case None
    from gives_more [OF gives_indent gives_delim [OF gives_tight(2) rest [unfolded append.simps]]]
    show ?thesis by (simp add: None)
  next
    case (Some l)
    then have l: "gives strtod word_or_dot (print_expr sf l) (expr_toks l)"
      using assms(1) by (simp add: gives_expr)
    have "gives strtod never (outs [print_indent i, out ''case '', print_expr sf l, out ('': '' @ [nl]), f, out [nl]])
      ([] @ [tok (Word CASE)] @ expr_toks l @ tok (Punct COLON) # ts)"
      using gives_more [OF gives_indent gives_more [OF gives_words(7) gives_delim [OF l rest [unfolded append.simps]]]]
      by simp
    moreover have "cat (cat a b) d = cat a (cat b d)" for a b d :: "string res"
      by (cases a; cases b; cases d) (simp_all add: cat_def)
    ultimately show ?thesis by (simp add: Some)
  qed
qed


lemma gives_else:
  assumes "\<And>st. else_stmt = Some st \<Longrightarrow> gives strtod never (print_stmt sf st (i + 1)) (stmt_toks st)"
  shows "gives strtod never
    (case else_stmt of
       None \<Rightarrow> out ''''
     | Some st \<Rightarrow> outs [print_indent i, out (''else'' @ [nl]), print_stmt sf st (i + 1)])
    (case else_stmt of None \<Rightarrow> [] | Some st \<Rightarrow> tok (Word ELSE) # stmt_toks st)"
proof (cases else_stmt)
  case None
  then show ?thesis by (simp add: gives_fixed)
next
  case (Some st)
  have "gives strtod never (outs [print_indent i, out (''else'' @ [nl]), print_stmt sf st (i + 1)])
    (tok (Word ELSE) # stmt_toks st)"
    unfolding append.simps by (rule gives_eq, (rule assms [OF Some] gives_fixed)+) simp
  then show ?thesis by (simp add: Some)
qed

text \<open>The parts of a line: an expression, a type or a name before a fixed text.\<close>

lemma gives_parts:
  "gives strtod Q (outs (out (c # cs) # fs)) us \<Longrightarrow> gram_expr e \<Longrightarrow> \<not> word_or_dot c \<Longrightarrow>
    gives strtod Q (outs (print_expr sf e # out (c # cs) # fs)) (expr_toks e @ us)"
  "gives strtod Q (outs (out (c # cs) # fs)) us \<Longrightarrow> gram_type t \<Longrightarrow> \<not> word_or_dot c \<Longrightarrow>
    gives strtod Q (outs (print_type sf t # out (c # cs) # fs)) (type_toks t @ us)"
  "gives strtod Q (outs (out (c # cs) # fs)) us \<Longrightarrow> is_name name \<Longrightarrow> \<not> word_or_dot c \<Longrightarrow>
    gives strtod Q (outs (out name # out (c # cs) # fs)) (sym name # us)"
  "gives strtod Q (outs (out (c # cs) # fs)) us \<Longrightarrow> gram_type t \<Longrightarrow> gram_opt gram_expr x0 \<Longrightarrow> \<not> word_or_dot c \<Longrightarrow>
    gives strtod Q (outs (print_type sf t # print_init sf x0 # out (c # cs) # fs))
      (type_toks t @ init_toks x0 @ us)"
  using gives_delim [OF gives_expr, of e strtod Q c cs fs us sf]
    gives_delim [OF gives_type, of t strtod Q c cs fs us sf] gives_delim [OF gives_name, of name strtod Q c cs fs us]
    gives_init [OF gives_type, of t x0 strtod Q c cs fs us sf sf] by simp_all

lemmas gives_line = gives_parts gives_fixed

text \<open>Statements without statements in them.\<close>

fun flat :: "ast_stmt \<Rightarrow> bool" where
  "flat (BlockStmt _) = False"
| "flat (DoWhile _ _) = False"
| "flat (If _ _ _) = False"
| "flat (Switch _ _) = False"
| "flat (While _ _) = False"
| "flat _ = True"

lemma inplace_text:
  assumes "gram_stmt (InplaceOp opcode x y)"
  shows "gives strtod never (print_stmt sf (InplaceOp opcode x y) i) (stmt_toks (InplaceOp opcode x y))"
proof -
  obtain w p where w: "eq_word opcode = Some (w, p)" using assms by auto
  from eq_word_text [OF w, of strtod] have op: "gives strtod never (out (CHR '' '' # w @ '' '')) [tok (Punct p)]"
    and sym: "eq_symbol opcode = out (CHR '' '' # w @ '' '')"
    by metis+
  show ?thesis
    unfolding print_stmt.simps append.simps sym
    by (rule gives_eq, (rule op gives_line)+) (use assms in \<open>simp_all add: w\<close>)
qed

lemma flat_text: "gram_stmt st \<Longrightarrow> flat st \<Longrightarrow> gives strtod never (print_stmt sf st i) (stmt_toks st)"
proof (cases st)
  case (InplaceOp opcode x y)
  then show "gram_stmt st \<Longrightarrow> ?thesis" using inplace_text by simp
next
  case (EnumDecl name ecs)
  assume st: "gram_stmt st"
  then have ecs: "gives strtod never (print_enums sf i ecs) (comma_toks (map enum_toks ecs))"
    using EnumDecl by (simp add: gives_enums)
  show ?thesis
    unfolding EnumDecl print_stmt.simps append.simps
    by (rule gives_eq, (rule ecs gives_line)+) (use st EnumDecl in simp_all)
next
  case (ReturnStmt e)
  then show "gram_stmt st \<Longrightarrow> ?thesis"
    using gives_more [OF gives_indent gives_return] by simp
qed ((simp only: print_stmt.simps append.simps gram_stmt.simps flat.simps;
      (rule gives_eq, (rule gives_line)+, simp_all))+)

lemma stmt_text: "gram_stmt st \<Longrightarrow> gives strtod never (print_stmt sf st i) (stmt_toks st)"
proof (induction st arbitrary: i rule: gram_stmt.induct)
  case (1 sts)
  have body: "gives strtod never (outs (map (\<lambda>st. print_stmt sf st (i + 1)) sts)) (concat (map stmt_toks sts))"
    using 1 by (intro gives_outs) (auto simp: list_all_iff)
  show ?case
    unfolding print_stmt.simps append.simps by (rule gives_eq, (rule body gives_fixed)+) simp
next
  case (6 st e)
  then have x: "gives strtod word_or_dot (print_expr sf e) (expr_toks e)"
    and st: "gives strtod never (print_stmt sf st (i + 1)) (stmt_toks st)"
    by (simp_all add: gives_expr)
  show ?case
    unfolding print_stmt.simps append.simps
    by (rule gives_eq, (rule x [THEN gives_delim] st gives_fixed)+) simp_all
next
  case (12 e st else_stmt)
  then have x: "gives strtod word_or_dot (print_expr sf e) (expr_toks e)"
    and st: "gives strtod never (print_stmt sf st (i + 1)) (stmt_toks st)"
    by (simp_all add: gives_expr)
  have el: "gives strtod never
    (case else_stmt of
       None \<Rightarrow> out ''''
     | Some st \<Rightarrow> outs [print_indent i, out (''else'' @ [nl]), print_stmt sf st (i + 1)])
    (case else_stmt of None \<Rightarrow> [] | Some st \<Rightarrow> tok (Word ELSE) # stmt_toks st)"
    using 12 by (intro gives_else) auto
  show ?case
    unfolding print_stmt.simps append.simps
    by (rule gives_eq, (rule x [THEN gives_delim] st el [unfolded append.simps] gives_fixed)+) simp_all
next
  case (17 e cases)
  then have x: "gives strtod word_or_dot (print_expr sf e) (expr_toks e)" by (simp add: gives_expr)
  have body: "gives strtod never
    (outs (map (\<lambda>(label, st).
       outs [print_indent i,
         (case label of None \<Rightarrow> out ''default'' | Some l \<Rightarrow> cat (out ''case '') (print_expr sf l)),
         out ('': '' @ [nl]), print_stmt sf st (i + 1), out [nl]]) cases))
    (concat (map (\<lambda>(label, st). label_toks label @ tok (Punct COLON) # stmt_toks st) cases))"
  proof (rule gives_outs, intro ballI)
    fix c assume c: "c \<in> set cases"
    obtain label st where [simp]: "c = (label, st)" by (cases c)
    have "gram_opt gram_expr label" "gram_stmt st" using 17 c by (auto simp: list_all_iff)
    then show "gives strtod never
      (case c of (label, st) \<Rightarrow> outs [print_indent i,
         (case label of None \<Rightarrow> out ''default'' | Some l \<Rightarrow> cat (out ''case '') (print_expr sf l)),
         out ('': '' @ [nl]), print_stmt sf st (i + 1), out [nl]])
      (case c of (label, st) \<Rightarrow> label_toks label @ tok (Punct COLON) # stmt_toks st)"
      unfolding \<open>c = (label, st)\<close> prod.case by (intro gives_label "17.IH" [OF c]) simp_all
  qed
  show ?case
    unfolding print_stmt.simps append.simps
    by (rule gives_eq, (rule x [THEN gives_delim] body [unfolded append.simps] gives_fixed)+) simp_all
next
  case (19 e st)
  then have x: "gives strtod word_or_dot (print_expr sf e) (expr_toks e)"
    and st: "gives strtod never (print_stmt sf st (i + 1)) (stmt_toks st)"
    by (simp_all add: gives_expr)
  show ?case
    unfolding print_stmt.simps append.simps
    by (rule gives_eq, (rule x [THEN gives_delim] st gives_fixed)+) simp_all
qed (simp_all add: flat_text del: print_stmt.simps stmt_toks.simps)


section \<open>The grammar derives the tokens\<close>

lemma list_built:
  assumes "G [] AstList_new" and "length xs < 2 ^ 32"
    and "\<And>ts l x l'. G ts l \<Longrightarrow> x \<in> set xs \<Longrightarrow> list_add l x = Inr l' \<Longrightarrow> G (ts @ f x) l'"
  shows "\<exists>l. G (concat (map f xs)) l \<and> list_rep l xs"
  using assms
proof (induction xs rule: rev_induct)
  case Nil
  then show ?case using list_rep_new by auto
next
  case (snoc x xs)
  then obtain l where l: "G (concat (map f xs)) l" "list_rep l xs" by auto
  obtain l' where l': "list_add l x = Inr l'" "list_rep l' (xs @ [x])"
    using al.add_rep [OF l(2)] snoc.prems(2) by fastforce
  with snoc.prems(3) [OF l(1) _ l'(1)] show ?case by auto
qed

lemma init_derived: "gram_opt gram_expr e \<Longrightarrow> g_init (init_toks e) e"
  using i_none i_some expr_derived by (cases e) auto

lemma enums_derived:
  assumes "list_all (\<lambda>(n, e). is_name n \<and> gram_opt gram_expr e) ecs" and "ecs \<noteq> []" and "length ecs < 2 ^ 32"
  shows "\<exists>l. g_enumconst_list (comma_toks (map enum_toks ecs)) l \<and> list_rep l ecs"
  using assms
proof (induction ecs rule: rev_induct)
  case (snoc ec ecs)
  obtain name e where ec: "ec = (name, e)" by (cases ec)
  with snoc.prems have new: "g_enumconst (enum_toks ec) ec"
    using g_enumconst.intros [OF init_derived, of e name] by (simp add: enum_toks_def new_EnumConst_def)
  show ?case
  proof (cases "ecs = []")
    case True
    obtain l where l: "list_add AstList_new ec = Inr l" "list_rep l [ec]"
      using al.add_rep [OF al.new_rep, of ec] by auto
    with True show ?thesis using ec_one [OF new l(1)] by auto
  next
    case False
    then obtain l where l: "g_enumconst_list (comma_toks (map enum_toks ecs)) l" "list_rep l ecs"
      using snoc by auto
    obtain l' where l': "list_add l ec = Inr l'" "list_rep l' (ecs @ [ec])"
      using al.add_rep [OF l(2)] snoc.prems(3) by fastforce
    from ec_more [OF l(1) new l'(1)] l'(2) False show ?thesis
      by (auto simp: comma_toks_snoc)
  qed
qed simp

text \<open>A condition that is printed in parentheses.\<close>

lemma paren_form_derived:
  assumes "paren_form e" and "gram_expr e"
  obtains m where "expr_toks e = tok (Punct LP) # m @ [tok (Punct RP)]" and "g_expr m e"
proof (cases e)
  case (UniOpE opcode x)
  then obtain w op where op: "uni_word opcode = Some (w, op)" using assms(1) by auto
  from e_uni [OF uni_word_action [OF op]] expr_derived [of x] assms(2) UniOpE that op
  show ?thesis by (simp add: in_parens_def)
next
  case (BinOpE opcode x y)
  then obtain w op where op: "op_word opcode = Some (w, op)" using assms(2) by auto
  from e_bin [OF op_word_action [OF op]] expr_derived [of x] expr_derived [of y] assms(2) BinOpE that op
  show ?thesis by (simp add: in_parens_def)
next
  case (IteOpE x y z)
  with e_ite expr_derived [of x] expr_derived [of y] expr_derived [of z] assms(2) that
  show ?thesis by (simp add: in_parens_def new_IteOp_def)
qed (use assms in auto)

lemma eq_word_action: "eq_word opcode = Some (w, p) \<Longrightarrow> eqop p = Some opcode"
  by (cases opcode) auto

lemma single_derived: "g_single ts st \<Longrightarrow> us = ts @ [tok (Punct SEMI)] \<Longrightarrow> g_stmt us st"
  by (simp add: st_single)

lemma flat_derived: "gram_stmt st \<Longrightarrow> flat st \<Longrightarrow> g_stmt (stmt_toks st) st"
proof (cases st)
  case Break
  then show ?thesis using single_derived [OF s_break] by (simp add: new_defs)
next
  case (ConstDecl name t e)
  then show "gram_stmt st \<Longrightarrow> ?thesis" using st_const [OF type_derived] expr_derived by (simp add: new_defs)
next
  case Continue
  then show ?thesis using single_derived [OF s_continue] by (simp add: new_defs)
next
  case (Decr e)
  then show "gram_stmt st \<Longrightarrow> ?thesis" using single_derived [OF s_decr] expr_derived by (simp add: new_defs)
next
  case (EnumDecl name ecs)
  assume "gram_stmt st"
  then obtain l where "g_enumconst_list (comma_toks (map enum_toks ecs)) l" "list_rep l ecs"
    using enums_derived EnumDecl by auto
  then show ?thesis using st_enum [of _ l name st] EnumDecl by (simp add: new_defs)
next
  case (Assignment x y)
  then show "gram_stmt st \<Longrightarrow> ?thesis" using single_derived [OF s_assign] expr_derived by (simp add: new_defs)
next
  case (InplaceOp opcode x y)
  assume st: "gram_stmt st"
  then obtain w p where w: "eq_word opcode = Some (w, p)" using InplaceOp by auto
  show ?thesis
    using single_derived [OF s_inplace [OF eq_word_action [OF w]]] expr_derived st InplaceOp w
    by (simp add: new_defs)
next
  case (ExprStmt e)
  then show "gram_stmt st \<Longrightarrow> ?thesis" using single_derived [OF s_expr] expr_derived by (simp add: new_defs)
next
  case (Goto name)
  then show ?thesis using single_derived [OF s_goto] by (simp add: new_defs)
next
  case (Incr e)
  then show "gram_stmt st \<Longrightarrow> ?thesis" using single_derived [OF s_incr] expr_derived by (simp add: new_defs)
next
  case (LabelStmt name)
  then show ?thesis using st_label by (simp add: new_defs)
next
  case NullStmt
  then show ?thesis using st_null by (simp add: new_defs)
next
  case (ReturnStmt e)
  then show "gram_stmt st \<Longrightarrow> ?thesis"
    using single_derived [OF s_return] single_derived [OF s_return_value] expr_derived
    by (cases e) (simp_all add: new_defs)
next
  case (VarDecl name t e)
  then show "gram_stmt st \<Longrightarrow> ?thesis"
    using st_var [OF type_derived init_derived] by (simp add: new_defs)
qed simp_all

lemma stmt_derived:
  "gram_stmt st \<Longrightarrow> g_stmt (stmt_toks st) st \<and> (is_block st \<longrightarrow> g_block (stmt_toks st) st)"
proof (induction st rule: gram_stmt.induct)
  case (1 sts)
  then have "\<forall>st\<in>set sts. g_stmt (stmt_toks st) st" by (auto simp: list_all_iff)
  then have "\<exists>l. g_stmts (concat (map stmt_toks sts)) l \<and> list_rep l sts"
    using 1(2) by (intro list_built ss_none) (auto intro: ss_more)
  then obtain l where "g_stmts (concat (map stmt_toks sts)) l" "list_rep l sts" by blast
  then have "g_block (stmt_toks (BlockStmt sts)) (BlockStmt sts)"
    using b_block [of "concat (map stmt_toks sts)" l "BlockStmt sts"] by (simp add: new_defs)
  then show ?case using st_complex c_block by simp
next
  case (6 st e)
  then obtain m where "expr_toks e = tok (Punct LP) # m @ [tok (Punct RP)]" "g_expr m e"
    using paren_form_derived [of e] by auto
  with 6 show ?case using st_complex [OF c_do] by (simp add: new_defs)
next
  case (12 e st else_stmt)
  then have "g_else (case else_stmt of None \<Rightarrow> [] | Some st2 \<Rightarrow> tok (Word ELSE) # stmt_toks st2) else_stmt"
    using el_none el_else by (cases else_stmt) auto
  with 12 show ?case using st_complex [OF c_if] expr_derived by (simp add: new_defs)
next
  case (17 e cs)
  let ?f = "\<lambda>(label, st). label_toks label @ tok (Punct COLON) # stmt_toks st"
  have "\<exists>l. g_cases (concat (map ?f cs)) l \<and> list_rep l cs"
  proof (intro list_built cs_none)
    fix ts l c l'
    assume *: "g_cases ts l" "c \<in> set cs" "list_add l c = Inr l'"
    obtain label st where c: "c = (label, st)" by (cases c)
    then have "gram_opt gram_expr label" "g_block (stmt_toks st) st"
      using 17 *(2) by (auto simp: list_all_iff)
    then show "g_cases (ts @ ?f c) l'"
      using cs_case [OF *(1) expr_derived [THEN conjunct1]] cs_default [OF *(1)] *(3) c
      by (cases label) (auto simp: new_defs)
  qed (use 17 in simp)
  then obtain l where l: "g_cases (concat (map ?f cs)) l" "list_rep l cs" by blast
  have "gram_expr e" using 17 by simp
  from st_complex [OF c_switch [OF expr_derived [THEN conjunct1, OF this] l(1)], of "Switch e cs"] l(2)
  show ?case by (simp add: new_defs)
next
  case (19 e st)
  then obtain m where "expr_toks e = tok (Punct LP) # m @ [tok (Punct RP)]" "g_expr m e"
    using paren_form_derived [of e] by auto
  with 19 show ?case using st_complex [OF c_while] by (simp add: new_defs)
qed (use flat_derived in \<open>simp_all del: stmt_toks.simps\<close>)


section \<open>Modules\<close>

fun gram_head :: "ast_stmt \<Rightarrow> bool" where
  "gram_head (Import m alias) = (is_name m \<and> gram_opt is_name alias)"
| "gram_head _ = False"

fun head_toks :: "ast_stmt \<Rightarrow> lexeme_val list" where
  "head_toks (Import m alias) =
     [tok (Word IMPORT), sym m] @ (case alias of None \<Rightarrow> [] | Some a \<Rightarrow> [tok (Word AS), sym a]) @
       [tok (Punct SEMI)]"
| "head_toks _ = []"

fun gram_module :: "ast_stmt \<Rightarrow> bool" where
  "gram_module (Toplevel heads sts) =
     (length heads < 2 ^ 32 \<and> length sts < 2 ^ 32 \<and> list_all gram_head heads \<and> list_all gram_stmt sts)"
| "gram_module _ = False"

fun module_toks :: "ast_stmt \<Rightarrow> lexeme_val list" where
  "module_toks (Toplevel heads sts) = concat (map head_toks heads) @ concat (map stmt_toks sts)"
| "module_toks _ = []"

lemma head_text:
  assumes "gram_head st"
  shows "gives strtod never (print_stmt sf st i) (head_toks st)"
proof -
  obtain m short where st: "st = Import m short" "is_name m" "gram_opt is_name short"
    using assms by (cases st) auto
  have semi: "gives strtod never (outs [out (CHR '';'' # [nl])]) ([tok (Punct SEMI)] @ [])"
    by (rule gives_fixed)+
  have "gives strtod never
    (outs [out m, (case short of None \<Rightarrow> out '''' | Some a \<Rightarrow> cat (out '' as '') (out a)), out (CHR '';'' # [nl])])
    ([sym m] @ (case short of None \<Rightarrow> [] | Some x \<Rightarrow> [tok (Word AS)] @ [sym x]) @ ([tok (Punct SEMI)] @ []))"
    using st(3) scans_spaced_table [OF stmt_words(16)]
    by (intro gives_optional [OF gives_name [OF st(2)] _ _ _ semi, where cs = "''as ''"])
      (auto simp: gives_name)
  from gives_more [OF gives_indent gives_more [OF gives_words(9) this]] show ?thesis
    by (cases short) (simp_all add: st(1))
qed

lemma module_text: "gram_module st \<Longrightarrow> gives strtod never (print_stmt sf st i) (module_toks st)"
proof (cases st)
  case (Toplevel heads sts)
  assume "gram_module st"
  then show ?thesis
    using gives_cat [OF gives_outs gives_outs, of heads strtod "\<lambda>st. print_stmt sf st (i + 1)" head_toks sts
      "\<lambda>st. print_stmt sf st (i + 1)" stmt_toks]
    by (simp add: Toplevel head_text stmt_text list_all_iff)
qed simp_all

lemma head_derived: "gram_head st \<Longrightarrow> g_import (head_toks st) st"
  using im_plain im_alias by (cases st) (auto simp: new_defs split: option.split)

lemma module_derived: "gram_module st \<Longrightarrow> g_module (module_toks st) st"
proof (cases st)
  case (Toplevel heads sts)
  assume st: "gram_module st"
  have "\<exists>l. g_head (concat (map head_toks heads)) l \<and> list_rep l heads"
    using st Toplevel by (intro list_built h_none) (auto intro: h_more head_derived simp: list_all_iff)
  then obtain hl where hl: "g_head (concat (map head_toks heads)) hl" "list_rep hl heads" by blast
  have "\<exists>l. g_stmts (concat (map stmt_toks sts)) l \<and> list_rep l sts"
    using st Toplevel by (intro list_built ss_none) (auto intro!: ss_more stmt_derived [THEN conjunct1] simp: list_all_iff)
  then obtain sl where sl: "g_stmts (concat (map stmt_toks sts)) sl" "list_rep sl sts" by blast
  have "set_root hl sl None = Some (Inr st)"
    using hl(2) sl(2) Toplevel by (simp add: set_root_def array_of_rep)
  from g_module.intros [OF hl(1) sl(1) this] Toplevel show ?thesis by simp
qed simp_all

text \<open>
  C20: a module is read back when its statements are printed in the form in which they are read:
  the printer writes it, and the tokens the parser gets from that text have a derivation in the
  grammar that sets the printed module as the root. Left out are the statements whose printed form
  the grammar does not have: function declarations and \<^verbatim>\<open>for\<close>; \<^verbatim>\<open>while\<close> and \<^verbatim>\<open>do\<close> whose condition is
  a literal, a name, a subscript, a member, a call or a conversion, because the printer writes
  parentheses only around a conditional expression and around binary and the other unary
  operators; and every \<^verbatim>\<open>elif\<close>, which is an \<^verbatim>\<open>if\<close> in the place of the \<^verbatim>\<open>else\<close> block and printed as
  \<^verbatim>\<open>else if\<close>. Left out as well are floating-point literals, strings with a quote, a backslash or a
  line break, and what the grammar itself does not build: other bodies and branches than blocks,
  names that are reserved words, empty enumerations, and assignments to what is not a name,
  subscript or member.
\<close>

theorem printed_module_parsed:
  assumes "gram_module m" and "reads src rest" and "YmslScanner_new code s = Inr sc"
  shows "\<exists>w. print_stmt sf m i = Inr w \<and>
    (rest s = w \<longrightarrow> length w < n \<longrightarrow> length w + 2 \<le> fuel \<longrightarrow>
      (\<exists>ts. scan_all strtod src fuel n sc = Some (Inr ts) \<and> g_module ts m))"
proof -
  obtain w where printed: "print_stmt sf m i = Inr w" "scans strtod never w (module_toks m)"
    using module_text [OF assms(1), of strtod sf i] unfolding gives_def by blast
  have "lexed strtod w = module_toks m"
    using printed(2) [unfolded scans_def, rule_format, of "[]"] by simp
  then show ?thesis
    using printed(1) module_derived [OF assms(1)] scan_all_text [OF assms(2,3), of n fuel strtod] by simp
qed

text \<open>An import, a variable, a loop and a choice.\<close>

definition demo_module :: ast_stmt where
  "demo_module = Toplevel [Import ''lib'' (Some ''l'')]
    [VarDecl ''x'' (PrimT kIntType) (Some (IntConstE 3)),
     While (BinOpE kOpLt (IntConstE 0) (SymbolE ''x'')) (BlockStmt [InplaceOp kOpSub (SymbolE ''x'') (IntConstE 1)]),
     If (SymbolE ''x'') (BlockStmt []) (Some (BlockStmt [Break]))]"

theorem printed_module_parsed_witness:
  "\<exists>w sc ts. print_stmt (\<lambda>_. '''') demo_module 0 = Inr w \<and> YmslScanner_new token_code w = Inr sc \<and>
    scan_all (\<lambda>_. 0) text_source (length w + 2) (length w + 1) sc = Some (Inr ts) \<and> g_module ts demo_module"
proof -
  have "is_name ''x''" "is_name ''lib''" "is_name ''l''"
    by code_simp+
  then have gram: "gram_module demo_module" by (simp add: demo_module_def)
  let ?sc = "\<lambda>w. \<lparr>mCurString = '''', mDic = dic token_code, mUngetToken = DUMMY, input = w\<rparr>"
  from printed_module_parsed [OF gram text_source_reads sample_scanner, of "\<lambda>_. ''''" 0]
  obtain w where w: "print_stmt (\<lambda>_. '''') demo_module 0 = Inr w" by blast
  from printed_module_parsed [OF gram text_source_reads sample_scanner,
      of "\<lambda>_. ''''" 0 w "length w + 1" "length w + 2" "\<lambda>_. 0"] w
  obtain ts where "scan_all (\<lambda>_. 0) text_source (length w + 2) (length w + 1) (?sc w) = Some (Inr ts)"
    "g_module ts demo_module"
    by auto
  with w sample_scanner [of w] show ?thesis by blast
qed

end
