(* ===== verification/Print_Func.thy ===== *)
theory Print_Func
  imports Print_Stmt
begin

text \<open>
  Printed functions: the printer leaves out the result type, without which the grammar derives no
  statement from the text.
\<close>

section \<open>The tokens of a printed function\<close>

abbreviation gram_param :: "string \<times> ast_type \<times> ast_expr option \<Rightarrow> bool" where
  "gram_param p \<equiv> is_name (fst p) \<and> gram_type (fst (snd p)) \<and> gram_opt gram_expr (snd (snd p))"

definition param_toks :: "string \<times> ast_type \<times> ast_expr option \<Rightarrow> lexeme_val list" where
  "param_toks p = [sym (fst p), tok (Punct COLON)] @ type_toks (fst (snd p)) @ init_toks (snd (snd p))"

definition function_toks ::
  "string \<Rightarrow> (string \<times> ast_type \<times> ast_expr option) list \<Rightarrow> ast_stmt \<Rightarrow> lexeme_val list" where
  "function_toks name params body =
     [tok (Word FUNCTION), sym name, tok (Punct LP)] @ comma_toks (map param_toks params) @
       tok (Punct RP) # stmt_toks body"

lemma cat_blank_right: "cat h (out '''') = h"
  by (cases h) (simp_all add: cat_def out_def)

lemma gives_type_init:
  assumes "gram_type t" and "gram_opt gram_expr e"
  shows "gives strtod word_or_dot (cat (print_type sf t) (print_init sf e)) (type_toks t @ init_toks e)"
proof (cases e)
  case None
  then show ?thesis using assms(1) by (simp add: print_init_def cat_blank_right gives_type)
next
  case (Some x)
  then have "gives strtod word_or_dot (outs [out '' = '', print_expr sf x]) ([tok (Punct EQ)] @ expr_toks x)"
    using gives_more [OF gives_punct(18), of strtod word_or_dot "[print_expr sf x]" "expr_toks x"] assms(2)
    by (simp add: gives_expr cat_blank_right)
  from gives_delim [OF gives_type [OF assms(1)] this] Some show ?thesis
    by (simp add: print_init_def cat_blank_right)
qed

lemma param_text: "gram_param p \<Longrightarrow> gives strtod word_or_dot (print_param sf p) (param_toks p)"
proof -
  assume p: "gram_param p"
  obtain name t e where [simp]: "p = (name, t, e)" by (cases p)
  have "gives strtod word_or_dot
    (outs [out name, out '': '', cat (print_type sf t) (print_init sf e)])
    ([sym name] @ [tok (Punct COLON)] @ type_toks t @ init_toks e)"
    using p gives_type_init [of t e strtod sf]
      gives_more [OF gives_punct(8), of strtod word_or_dot "[cat (print_type sf t) (print_init sf e)]"]
    by (intro gives_delim gives_name) (simp_all add: cat_blank_right)
  then show ?thesis by (simp add: print_param_def param_toks_def cat_blank_right)
qed

lemma gives_commas:
  "\<forall>x\<in>set xs. gives strtod word_or_dot (f x) (t x) \<Longrightarrow>
    gives strtod word_or_dot (commas (map f xs)) (comma_toks (map t xs))"
proof (induction xs rule: induct_list012)
  case 1
  show ?case using gives_any [OF gives_punct(21)] by simp
next
  case (2 x)
  then show ?case by simp
next
  case (3 x y zs)
  then have "gives strtod word_or_dot (commas (map f (y # zs))) (comma_toks (map t (y # zs)))" by simp
  then have "gives strtod word_or_dot (outs [out '', '', commas (map f (y # zs))])
    ([tok (Punct COMMA)] @ comma_toks (map t (y # zs)))"
    using gives_more [OF gives_punct(11), of strtod word_or_dot "[commas (map f (y # zs))]"]
    by (simp add: cat_blank_right)
  with 3 have "gives strtod word_or_dot (outs (f x # [out '', '', commas (map f (y # zs))]))
    (t x @ [tok (Punct COMMA)] @ comma_toks (map t (y # zs)))"
    by (intro gives_delim) simp_all
  then show ?case by (simp add: cat_blank_right)
qed

lemma scans_lp: "scans strtod never ''('' [tok (Punct LP)]"
  using scans_singles(5) by simp

lemma function_text:
  assumes "is_name name" and "\<forall>p\<in>set params. gram_param p" and "gram_stmt body"
  shows "gives strtod never (print_stmt sf (FuncDecl name t params body) i) (function_toks name params body)"
proof -
  have ps: "gives strtod word_or_dot (commas (map (print_param sf) params)) (comma_toks (map param_toks params))"
    using assms(2) by (intro gives_commas) (simp add: param_text)
  have close: "gives strtod never (out (CHR '')'' # [nl])) [tok (Punct RP)]"
    using scans_then_nl [OF scans_singles(6)] by (simp add: gives_out)
  have lp: "gives strtod never (out ''('') [tok (Punct LP)]"
    by (rule gives_out [OF scans_lp])
  show ?thesis
    unfolding print_stmt.simps append.simps
    by (rule gives_eq, (rule gives_delim [OF ps] stmt_text [OF assms(3)] lp close gives_line)+)
      (simp_all add: function_toks_def assms(1))
qed

text \<open>Two splits at a closing bracket behind nested tokens are the same.\<close>

lemma split_close:
  assumes "a @ t # x = b @ t # y" and "delta t = -1" and "nonneg a" and "nonneg b"
    and "depth a = 0" and "depth b = 0"
  shows "a = b \<and> x = y"
proof -
  have no: "w = [] \<or> \<not> nonneg (c @ w)" if "depth c = 0" "w @ u = t # v" for c w u v
    using that assms(2) by (cases w) auto
  from assms(1) consider w where "a = b @ w" "w @ t # x = t # y" | w where "b = a @ w" "w @ t # y = t # x"
    by (auto simp: append_eq_append_conv2)
  then show ?thesis
    using no [of b] no [of a] assms by cases fastforce+
qed

section \<open>No statement is derived from them\<close>

lemma type_balanced: "g_type ts t \<Longrightarrow> balanced ts"
  by (induction rule: g_type.induct)
    (use derived_balanced(2) balanced_wrap [of "_ @ tok (Punct COMMA) # _"] in
      \<open>auto simp: balanced_append balanced_wrap\<close>)

lemma init_balanced: "g_init ts e \<Longrightarrow> balanced ts"
  by (cases rule: g_init.cases) (auto simp: delta_def derived_balanced(1))

lemma param_balanced: "g_param ts p \<Longrightarrow> balanced ts"
  by (cases rule: g_param.cases) (auto simp: type_balanced init_balanced balanced_append)

lemma param_list_balanced: "g_param_list ts l \<Longrightarrow> balanced ts"
  by (induction rule: g_param_list.induct) (auto simp: param_balanced balanced_append)

lemma comma_toks_balanced: "\<forall>ts\<in>set tss. balanced ts \<Longrightarrow> balanced (comma_toks tss)"
  by (induction tss rule: comma_toks.induct) (auto simp: balanced_append)

lemma params_balanced: "\<forall>p\<in>set params. gram_param p \<Longrightarrow> balanced (comma_toks (map param_toks params))"
  using type_balanced [OF type_derived] init_balanced [OF init_derived]
  by (intro comma_toks_balanced) (auto simp: param_toks_def balanced_append)

lemma expr_not_function:
  "g_expr ts e \<Longrightarrow> ts \<noteq> [] \<and> hd ts \<noteq> tok (Word FUNCTION)"
  "g_primary us f \<Longrightarrow> us \<noteq> [] \<and> hd us \<noteq> tok (Word FUNCTION)"
  "g_expr_list vs l \<Longrightarrow> True"
  by (induction rule: g_expr_g_primary_g_expr_list.inducts) auto

lemma single_not_function: "g_single ts st \<Longrightarrow> ts \<noteq> [] \<and> hd ts \<noteq> tok (Word FUNCTION)"
  by (cases rule: g_single.cases) (auto simp: expr_not_function)

lemma complex_not_function: "g_complex ts st \<Longrightarrow> ts \<noteq> [] \<and> hd ts \<noteq> tok (Word FUNCTION)"
  by (cases rule: g_complex.cases) (auto elim: g_block.cases)

text \<open>In a derivation of a function the closing parenthesis is followed by a colon.\<close>

lemma function_has_colon:
  assumes "g_stmt (tok (Word FUNCTION) # sym name # tok (Punct LP) # ps @ tok (Punct RP) # r) st"
    and "balanced ps"
  shows "\<exists>q. r = tok (Punct COLON) # q"
  using assms(1)
proof (cases rule: g_stmt.cases)
  case (st_single ts)
  then show ?thesis using single_not_function [of ts st] by (cases ts) auto
next
  case st_complex
  then show ?thesis using complex_not_function by fastforce
next
  case (st_function ts l us t vs body)
  then have split: "ts @ tok (Punct RP) # tok (Punct COLON) # us @ vs = ps @ tok (Punct RP) # r" by simp
  have "balanced ts" using st_function param_list_balanced by blast
  with assms(2) split_close [OF split] show ?thesis by (auto simp: balanced_def)
qed


text \<open>
  C21: no function is read back: the printer writes a declaration of a function without its result
  type, and from the tokens the parser gets for that text the grammar derives no statement at all.
\<close>

theorem printed_function_unreadable:
  assumes "is_name name" and "\<forall>p\<in>set params. gram_param p" and "gram_stmt body" and "is_block body"
    and "reads src rest" and "YmslScanner_new code s = Inr sc"
  shows "\<exists>w. print_stmt sf (FuncDecl name t params body) i = Inr w \<and>
    (rest s = w \<longrightarrow> length w < n \<longrightarrow> length w + 2 \<le> fuel \<longrightarrow>
      (\<exists>ts. scan_all strtod src fuel n sc = Some (Inr ts) \<and> (\<forall>st. \<not> g_stmt ts st)))"
proof -
  let ?ts = "function_toks name params body"
  obtain w where printed: "print_stmt sf (FuncDecl name t params body) i = Inr w" "scans strtod never w ?ts"
    using function_text [OF assms(1-3), of strtod sf t i] unfolding gives_def by blast
  have "lexed strtod w = ?ts"
    using printed(2) [unfolded scans_def, rule_format, of "[]"] by simp
  moreover have "\<not> g_stmt ?ts st" for st
    using function_has_colon [OF _ params_balanced [OF assms(2)], of name "stmt_toks body" st] assms(4)
    by (cases body) (auto simp: function_toks_def)
  ultimately show ?thesis
    using printed(1) scan_all_text [OF assms(5,6), of n fuel strtod] by simp
qed

text \<open>\<^verbatim>\<open>function f(a: int): int { return a; }\<close>, printed without its result type.\<close>

definition demo_func_decl :: ast_stmt where
  "demo_func_decl = FuncDecl ''f'' (PrimT kIntType) [(''a'', PrimT kIntType, None)]
    (BlockStmt [ReturnStmt (Some (SymbolE ''a''))])"

theorem printed_function_unreadable_witness:
  "\<exists>w sc ts. print_stmt (\<lambda>_. '''') demo_func_decl 0 = Inr w \<and> YmslScanner_new token_code w = Inr sc \<and>
    scan_all (\<lambda>_. 0) text_source (length w + 2) (length w + 1) sc = Some (Inr ts) \<and>
    (\<forall>st'. \<not> g_stmt ts st')"
proof -
  have names: "is_name ''f''" "is_name ''a''"
    by code_simp+
  then have gram: "\<forall>p\<in>set [(''a'', PrimT kIntType, None)]. gram_param p"
    "gram_stmt (BlockStmt [ReturnStmt (Some (SymbolE ''a''))])"
    "is_block (BlockStmt [ReturnStmt (Some (SymbolE ''a''))])"
    by simp_all
  note unreadable =
    printed_function_unreadable [OF names(1) gram text_source_reads sample_scanner,
      of "\<lambda>_. ''''" "PrimT kIntType" 0, folded demo_func_decl_def]
  obtain w where w: "print_stmt (\<lambda>_. '''') demo_func_decl 0 = Inr w"
    using unreadable by blast
  let ?sc = "\<lparr>mCurString = '''', mDic = dic token_code, mUngetToken = DUMMY, input = w\<rparr>"
  obtain ts where "scan_all (\<lambda>_. 0) text_source (length w + 2) (length w + 1) ?sc = Some (Inr ts)"
    "\<forall>st'. \<not> g_stmt ts st'"
    using unreadable [of w "length w + 1" "length w + 2" "\<lambda>_. 0"] w by auto
  with w sample_scanner [of w] show ?thesis by blast
qed

end
