(* ===== verification/Vsm_Module.thy ===== *)
theory Vsm_Module
  imports Vsm_Exec Ir_Stmt Ast_Printer
begin

text \<open>
  Modules of the virtual machine and their generation from the intermediate representation
  (\<^verbatim>\<open>src/vsm/VsmModule.cc\<close>, \<^verbatim>\<open>VsmNativeModule.cc\<close>, \<^verbatim>\<open>VsmVar.cc\<close>, \<^verbatim>\<open>VsmGen.cc\<close>) and the built-in function
  \<^verbatim>\<open>YmslPrint\<close>. A pointer to a module is the number of the module among all that were made.
\<close>

section \<open>Modules\<close>

record vsm_var =
  var_name :: string
  var_type :: tptr

text \<open>The arrays of a module with their sizes are lists; all modules that are made are native.\<close>

record vsm_module =
  mod_name :: string
  mImportedModuleList :: "nat list"
  mExportedFuncs :: "vsm_func list"
  mExportedVarList :: "vsm_var list"
  mToplevelCode :: code_list

record mod_builder =
  mbName :: string
  mbModuleList :: "nat list"
  mbFuncList :: "vsm_func list"
  mbVarList :: "vsm_var list"

definition ModBuilder_new :: "string \<Rightarrow> mod_builder" where
  "ModBuilder_new name = \<lparr>mbName = name, mbModuleList = [], mbFuncList = [], mbVarList = []\<rparr>"

definition mb_add_module :: "nat \<Rightarrow> mod_builder \<Rightarrow> nat \<times> mod_builder" where
  "mb_add_module module b = (length (mbModuleList b), b\<lparr>mbModuleList := mbModuleList b @ [module]\<rparr>)"

definition mb_add_function :: "vsm_func \<Rightarrow> mod_builder \<Rightarrow> nat \<times> mod_builder" where
  "mb_add_function func b = (length (mbFuncList b), b\<lparr>mbFuncList := mbFuncList b @ [func]\<rparr>)"

definition mb_add_exported_var :: "vsm_var \<Rightarrow> mod_builder \<Rightarrow> nat \<times> mod_builder" where
  "mb_add_exported_var var b = (length (mbVarList b), b\<lparr>mbVarList := mbVarList b @ [var]\<rparr>)"

definition VsmNativeModule_new :: "mod_builder \<Rightarrow> builder \<Rightarrow> vsm_module res" where
  "VsmNativeModule_new b toplevel_builder =
     res_bind (VsmCodeList_new toplevel_builder) (\<lambda>code.
       Inr \<lparr>mod_name = mbName b, mImportedModuleList = mbModuleList b, mExportedFuncs = mbFuncList b,
         mExportedVarList = mbVarList b, mToplevelCode = code\<rparr>)"

definition imported_module_num :: "vsm_module \<Rightarrow> nat" where
  "imported_module_num m = length (mImportedModuleList m)"

definition imported_module :: "vsm_module \<Rightarrow> nat \<Rightarrow> nat res" where
  "imported_module m pos =
     res_bind (assert_cond (pos < imported_module_num m)) (\<lambda>_. arr_get (mImportedModuleList m) (int pos))"

definition exported_function_num :: "vsm_module \<Rightarrow> nat" where
  "exported_function_num m = length (mExportedFuncs m)"

definition exported_function :: "vsm_module \<Rightarrow> nat \<Rightarrow> vsm_func res" where
  "exported_function m pos =
     res_bind (assert_cond (pos < exported_function_num m)) (\<lambda>_. arr_get (mExportedFuncs m) (int pos))"

definition exported_variable_num :: "vsm_module \<Rightarrow> nat" where
  "exported_variable_num m = length (mExportedVarList m)"

definition exported_variable :: "vsm_module \<Rightarrow> nat \<Rightarrow> vsm_var res" where
  "exported_variable m pos =
     res_bind (assert_cond (pos < exported_variable_num m)) (\<lambda>_. arr_get (mExportedVarList m) (int pos))"

definition execute_toplevel :: "nat \<Rightarrow> vsm_module \<Rightarrow> vsm \<Rightarrow> vsm res option" where
  "execute_toplevel fuel m s = execute fuel (mToplevelCode m) 0 s"

section \<open>Code generation\<close>

text \<open>The switch of \<^verbatim>\<open>gen_block\<close> has a case for every kind of node and does nothing in any of them.\<close>

fun gen_nodes :: "ir_node option list \<Rightarrow> builder \<Rightarrow> builder res" where
  "gen_nodes [] b = Inr b"
| "gen_nodes (None # nodes) b = Inl NullDeref"
| "gen_nodes (Some node # nodes) b = gen_nodes nodes b"

definition gen_block :: "code_block \<Rightarrow> builder \<Rightarrow> builder res" where
  "gen_block code_block b = gen_nodes (mNodeList code_block) b"

definition gen_var :: "ir_handle \<Rightarrow> mod_builder \<Rightarrow> mod_builder res" where
  "gen_var vh b =
     res_bind (handle_value_type vh) (\<lambda>type.
       Inr (snd (mb_add_exported_var \<lparr>var_name = handle_name vh, var_type = type\<rparr> b)))"

definition gen_func :: "func_block \<Rightarrow> mod_builder \<Rightarrow> mod_builder res" where
  "gen_func func_block b =
     res_bind (gen_block (func_code func_block) Builder_new) (\<lambda>code_builder.
     res_bind (handle_value_type (mFuncHandle func_block)) (\<lambda>type.
     res_bind (VsmCodeList_new code_builder) (\<lambda>code.
       Inr (snd (mb_add_function (NativeFunc (handle_name (mFuncHandle func_block)) type code) b)))))"

fun gen_all :: "('a \<Rightarrow> mod_builder \<Rightarrow> mod_builder res) \<Rightarrow> 'a list \<Rightarrow> mod_builder \<Rightarrow> mod_builder res" where
  "gen_all gen [] b = Inr b"
| "gen_all gen (x # xs) b = res_bind (gen x b) (gen_all gen xs)"

definition code_gen :: "toplevel \<Rightarrow> string \<Rightarrow> vsm_module res" where
  "code_gen toplevel name =
     res_bind (gen_block (top_code toplevel) Builder_new) (\<lambda>toplevel_builder.
     let module_builder = fold (\<lambda>module b. snd (mb_add_module module b)) (mModuleList toplevel)
           (ModBuilder_new name)
     in res_bind (gen_all gen_var (mGlobalVarList toplevel) module_builder) (\<lambda>module_builder.
        res_bind (gen_all gen_func (mFuncList toplevel) module_builder) (\<lambda>module_builder.
          VsmNativeModule_new module_builder toplevel_builder)))"

section \<open>The built-in function that prints\<close>

definition YmslPrint_execute :: "vsm_value list \<Rightarrow> (vsm_value \<times> string) res" where
  "YmslPrint_execute arg_list =
     res_bind (arr_get arg_list 0) (\<lambda>v. res_bind (int_value v) (\<lambda>i.
       Inr (UninitV, show_int i @ [nl])))"

definition YmslPrint_new :: "string \<Rightarrow> tptr \<Rightarrow> vsm_func" where
  "YmslPrint_new name type = BuiltinFunc name type 1 YmslPrint_execute"

section \<open>What a generated module is\<close>

definition no_code :: code_list where
  "no_code = \<lparr>mSize = 0, mBody = []\<rparr>"

lemma no_code: "VsmCodeList_new Builder_new = Inr no_code"
  by (simp add: VsmCodeList_new_def Builder_new_def Builder_size_def no_code_def Let_def)

lemma gen_nodes_ok: "None \<notin> set nodes \<Longrightarrow> gen_nodes nodes b = Inr b"
  by (induction nodes b rule: gen_nodes.induct) auto

lemma gen_nodes_null: "None \<in> set nodes \<Longrightarrow> gen_nodes nodes b = Inl NullDeref"
  by (induction nodes b rule: gen_nodes.induct) auto

text \<open>The variable and the function of a module that a handle stands for.\<close>

fun module_var :: "ir_handle \<Rightarrow> vsm_var" where
  "module_var (GlobalVarHandle name type _ _) = \<lparr>var_name = name, var_type = type\<rparr>"
| "module_var h = \<lparr>var_name = handle_name h, var_type = None\<rparr>"

fun module_func :: "ir_handle \<Rightarrow> vsm_func" where
  "module_func (FuncHandle name type _ _) = NativeFunc name type no_code"
| "module_func h = NativeFunc (handle_name h) None no_code"

text \<open>
  The blocks of a top level whose pointers to nodes are all set and whose handles are of the kinds
  the elaborator puts there.
\<close>

definition generable :: "toplevel \<Rightarrow> bool" where
  "generable t \<longleftrightarrow>
     None \<notin> set (mNodeList (top_code t)) \<and>
     (\<forall>h\<in>set (mGlobalVarList t). handle_type_of h = hGlobalVar) \<and>
     (\<forall>f\<in>set (mFuncList t). handle_type_of (mFuncHandle f) = hFunction \<and>
       None \<notin> set (mNodeList (func_code f)))"

lemma gen_vars_ok:
  "\<forall>h\<in>set hs. handle_type_of h = hGlobalVar \<Longrightarrow>
    gen_all gen_var hs b = Inr (b\<lparr>mbVarList := mbVarList b @ map module_var hs\<rparr>)"
proof (induction hs arbitrary: b)
  case (Cons h hs)
  then have "gen_var h b = Inr (b\<lparr>mbVarList := mbVarList b @ [module_var h]\<rparr>)"
    by (cases h) (simp_all add: gen_var_def mb_add_exported_var_def)
  with Cons show ?case by simp
qed simp

lemma gen_funcs_ok:
  "\<forall>f\<in>set fs. handle_type_of (mFuncHandle f) = hFunction \<and> None \<notin> set (mNodeList (func_code f)) \<Longrightarrow>
    gen_all gen_func fs b = Inr (b\<lparr>mbFuncList := mbFuncList b @ map (module_func \<circ> mFuncHandle) fs\<rparr>)"
proof (induction fs arbitrary: b)
  case (Cons f fs)
  then have "gen_func f b = Inr (b\<lparr>mbFuncList := mbFuncList b @ [module_func (mFuncHandle f)]\<rparr>)"
    by (cases "mFuncHandle f")
      (simp_all add: gen_func_def gen_block_def gen_nodes_ok no_code mb_add_function_def)
  with Cons show ?case by simp
qed simp

lemma gen_imports:
  "fold (\<lambda>module b. snd (mb_add_module module b)) ms b = b\<lparr>mbModuleList := mbModuleList b @ ms\<rparr>"
  by (induction ms arbitrary: b) (simp_all add: mb_add_module_def)

definition generated :: "toplevel \<Rightarrow> string \<Rightarrow> vsm_module" where
  "generated t name =
     \<lparr>mod_name = name, mImportedModuleList = mModuleList t,
      mExportedFuncs = map (module_func \<circ> mFuncHandle) (mFuncList t),
      mExportedVarList = map module_var (mGlobalVarList t), mToplevelCode = no_code\<rparr>"

lemma code_gen_ok: "generable t \<Longrightarrow> code_gen t name = Inr (generated t name)"
  by (simp add: code_gen_def gen_block_def generable_def gen_nodes_ok gen_imports gen_vars_ok
      gen_funcs_ok VsmNativeModule_new_def no_code generated_def ModBuilder_new_def)

lemma no_code_runs: "execute (Suc fuel) no_code base s = Some (Inr s)"
  by (simp add: execute_def no_code_def code_size_def)

text \<open>A function that is called with an integer in its argument slot prints it.\<close>

lemma print_prints:
  assumes "0 \<le> base" and "nat base < length (mLocalStack s)" and "mLocalStack s ! nat base = vsm_value.IntV i"
  shows "exec_function fuel (YmslPrint_new name type) base s =
    Some (Inr (s\<lparr>mLocalStack := (mLocalStack s)[nat base := UninitV],
      vOut := vOut s @ show_int i @ [nl]\<rparr>))"
proof -
  have "read_args base (Suc 0) s = Inr ([vsm_value.IntV i], s)"
    using assms by (simp add: st_bind_def read_stack_def arr_get_def)
  with assms show ?thesis
    by (simp add: exec_function_def YmslPrint_new_def exec_builtin_def st_bind_def st_lift_def
        write_stack_def arr_get_def arr_set_def YmslPrint_execute_def)
qed

end
