(* ===== verification/Ymsl_Compiler.thy ===== *)
theory Ymsl_Compiler
  imports Vsm_Module Print_Parse
begin

text \<open>
  The compiler: from a text through the syntax tree and the intermediate representation to a module
  (\<^verbatim>\<open>src/compiler/YmslCompiler.cc\<close>, \<^verbatim>\<open>AstMgr::read_source\<close>, \<^verbatim>\<open>IrMgr::elaborate\<close> with its imports). The
  generated parser, the search path and the files of the utility library are parameters.
\<close>

section \<open>Parameters and steps\<close>

text \<open>
  \<open>env_yyparse\<close> gives the status of the generated parser and the root it has set; \<open>env_search\<close> the full path
  of a file in the search path; \<open>env_open\<close> the text of a file.
\<close>

record comp_env =
  env_hash :: "string \<Rightarrow> u32"
  env_code :: "token \<Rightarrow> u32"
  env_strtod :: "string \<Rightarrow> f64"
  env_yyparse :: "lexeme_val list \<Rightarrow> int \<times> ast_stmt option"
  env_search :: "string \<Rightarrow> string option"
  env_open :: "string \<Rightarrow> string option"

text \<open>
  A step of the elaborator that may import works on the state of the manager and the modules made so
  far; \<open>None\<close> is out of fuel.
\<close>

type_synonym 'a comp = "vsm_module list \<Rightarrow> ('a \<times> vsm_module list) res option"

type_synonym 'a imp = "ir_mgr \<Rightarrow> ('a \<times> ir_mgr) comp"

definition im_ret :: "'a \<Rightarrow> 'a imp" where
  "im_ret x s ms = Some (Inr ((x, s), ms))"

definition im_bind :: "'a imp \<Rightarrow> ('a \<Rightarrow> 'b imp) \<Rightarrow> 'b imp" where
  "im_bind m f s ms =
     (case m s ms of
        None \<Rightarrow> None
      | Some (Inl e) \<Rightarrow> Some (Inl e)
      | Some (Inr ((x, s'), ms')) \<Rightarrow> f x s' ms')"

definition im_el :: "'a elab \<Rightarrow> 'a imp" where
  "im_el m s ms = Some (res_bind (m s) (\<lambda>r. Inr (r, ms)))"

definition im_call :: "'a comp \<Rightarrow> 'a imp" where
  "im_call m s ms = map_option (map_sum id (\<lambda>(x, ms'). ((x, s), ms'))) (m ms)"

definition im_module :: "nat \<Rightarrow> vsm_module imp" where
  "im_module p s ms = Some (res_bind (arr_get ms (int p)) (\<lambda>m. Inr ((m, s), ms)))"

section \<open>Reading the source\<close>

text \<open>Enough steps for every text; whether the parser has succeeded and the root.\<close>

definition read_source :: "comp_env \<Rightarrow> string \<Rightarrow> (bool \<times> ast_stmt option) res option" where
  "read_source env ido =
     (case YmslScanner_new (env_code env) ido of
        Inl e \<Rightarrow> Some (Inl e)
      | Inr sc \<Rightarrow>
          map_option (map_sum id (\<lambda>ts. case env_yyparse env ts of (stat, mToplevel) \<Rightarrow> (stat = 0, mToplevel)))
            (scan_all (env_strtod env) text_source (length ido + 2) (length ido + 1) sc))"

section \<open>Imports\<close>

text \<open>A counted loop.\<close>

primrec el_for :: "nat \<Rightarrow> (nat \<Rightarrow> unit elab) \<Rightarrow> unit elab" where
  "el_for 0 f = el_ret ()"
| "el_for (Suc n) f = el_seq (el_for n f) (f n)"

definition module2scope :: "(string \<Rightarrow> u32) \<Rightarrow> vsm_module \<Rightarrow> string \<Rightarrow> nat \<Rightarrow> nat elab" where
  "module2scope hash module name module_index =
     el_bind (open_scope hash None name) (\<lambda>scope.
     el_seq (el_for (imported_module_num module) (\<lambda>i.
       el_bind (el_res (imported_module module i)) (\<lambda>sub_module.
       el_bind (el_get (\<lambda>s. mScopeDict s sub_module)) (\<lambda>p. case p of
           None \<Rightarrow> el_fail AssertFail
         | Some sub_scope \<Rightarrow> declare_in hash scope (ScopeHandle name sub_scope)))))
     (el_seq (el_for (exported_function_num module) (\<lambda>local_index.
       el_bind (el_res (exported_function module local_index)) (\<lambda>func.
         declare_in hash scope (FuncHandle (vf_name func) (vf_type func) module_index local_index))))
     (el_seq (el_for (exported_variable_num module) (\<lambda>local_index.
       el_bind (el_res (exported_variable module local_index)) (\<lambda>var.
         declare_in hash scope (GlobalVarHandle (var_name var) (var_type var) module_index local_index))))
     (el_ret scope))))"

text \<open>
  The module of an import statement and its scope. The dictionary is searched and filled under the
  name of the module that is being compiled.
\<close>

definition module_scope ::
  "(string \<Rightarrow> u32) \<Rightarrow> (string \<Rightarrow> nat option comp) \<Rightarrow> string \<Rightarrow> string \<Rightarrow> nat \<Rightarrow> (nat \<times> nat) option imp" where
  "module_scope hash import name module_name module_index =
     im_bind (im_el (el_get (\<lambda>s. mModuleDict s name))) (\<lambda>p. case p of
         Some module \<Rightarrow>
           im_el (el_bind (el_get (\<lambda>s. mScopeDict s module)) (\<lambda>p. case p of
               None \<Rightarrow> el_fail AssertFail
             | Some scope \<Rightarrow> el_ret (Some (module, scope))))
       | None \<Rightarrow>
           im_bind (im_call (import module_name)) (\<lambda>p. case p of
               None \<Rightarrow> im_ret None
             | Some module \<Rightarrow>
                 im_bind (im_module module) (\<lambda>m.
                 im_el (el_bind (module2scope hash m name module_index) (\<lambda>scope.
                   el_seq (el_modify (\<lambda>s. s\<lparr>mModuleDict := (mModuleDict s)(name \<mapsto> module),
                       mScopeDict := (mScopeDict s)(module \<mapsto> scope)\<rparr>))
                     (el_ret (Some (module, scope))))))))"

definition add_imported_module :: "nat \<Rightarrow> unit elab" where
  "add_imported_module module = el_modify (\<lambda>s. s\<lparr>toplevel_block :=
     (toplevel_block s)\<lparr>mModuleList := mModuleList (toplevel_block s) @ [module]\<rparr>\<rparr>)"

text \<open>The import statements; whether all modules were found.\<close>

fun import_heads :: "(string \<Rightarrow> u32) \<Rightarrow> (string \<Rightarrow> nat option comp) \<Rightarrow> string \<Rightarrow> ast_stmt list \<Rightarrow> nat \<Rightarrow>
    nat \<Rightarrow> bool imp" where
  "import_heads hash import name [] module_index toplevel_scope = im_ret True"
| "import_heads hash import name (Import module_name alias # heads) module_index toplevel_scope =
     im_bind (module_scope hash import name module_name module_index) (\<lambda>p. case p of
         None \<Rightarrow> im_ret False
       | Some (module, scope) \<Rightarrow>
           im_bind (im_el (el_seq (add_imported_module module)
             (declare_in hash toplevel_scope
               (ScopeHandle (case alias of None \<Rightarrow> module_name | Some a \<Rightarrow> a) scope))))
             (\<lambda>_. import_heads hash import name heads (Suc module_index) toplevel_scope))"
| "import_heads hash import name (_ # heads) module_index toplevel_scope = im_el (el_fail AssertFail)"

section \<open>Elaboration of a module\<close>

definition new_Toplevel :: toplevel where
  "new_Toplevel = \<lparr>top_code = \<lparr>mVarList = [], mNodeList = []\<rparr>, mModuleList = [], mGlobalVarList = [],
     mFuncList = []\<rparr>"

definition IrMgr_new :: "ir_mgr res" where
  "IrMgr_new = res_bind TypeMgr_new (\<lambda>m. Inr
     \<lparr>mTypeMgr = m, mFuncCallList = [], mUndefList = [], mScopeList = [], mModuleDict = Map.empty,
      mScopeDict = Map.empty, label_defined = [], function_address = [], toplevel_block = new_Toplevel\<rparr>)"

definition elaborate :: "(string \<Rightarrow> u32) \<Rightarrow> (string \<Rightarrow> nat option comp) \<Rightarrow> ast_stmt option \<Rightarrow> string \<Rightarrow>
    toplevel option imp" where
  "elaborate hash import ast_root name =
     (case ast_root of
        None \<Rightarrow> im_el (el_fail NullDeref)
      | Some (Toplevel heads stmts) \<Rightarrow>
          im_bind (im_el (el_seq
            (el_modify (\<lambda>s. s\<lparr>mFuncCallList := [], mUndefList := [], toplevel_block := new_Toplevel\<rparr>))
            (open_scope hash None name))) (\<lambda>toplevel_scope.
          im_bind (import_heads hash import name heads 1 toplevel_scope) (\<lambda>found.
            if \<not> found then im_ret None
            else im_bind (im_el (elaborate_body hash stmts toplevel_scope)) (\<lambda>defined.
              if \<not> defined then im_ret None
              else im_el (el_get (\<lambda>s. Some (toplevel_block s))))))
      | Some _ \<Rightarrow> im_el (el_fail AssertFail))"

section \<open>Compilation\<close>

text \<open>
  When \<^verbatim>\<open>compile\<close> returns, its manager is destroyed with all types; what a module keeps of them are
  dangling pointers, which no later manager gives to a type.
\<close>

definition dangling :: tptr where "dangling = Some (2 ^ 64)"

definition freed :: "tptr \<Rightarrow> tptr" where
  "freed type = (if type = None then None else dangling)"

fun func_freed :: "vsm_func \<Rightarrow> vsm_func" where
  "func_freed (NativeFunc name type body) = NativeFunc name (freed type) body"
| "func_freed (BuiltinFunc name type n body) = BuiltinFunc name (freed type) n body"

definition module_freed :: "vsm_module \<Rightarrow> vsm_module" where
  "module_freed m = m\<lparr>mExportedFuncs := map func_freed (mExportedFuncs m),
     mExportedVarList := map (\<lambda>v. v\<lparr>var_type := freed (var_type v)\<rparr>) (mExportedVarList m)\<rparr>"

definition compile_from :: "comp_env \<Rightarrow> (string \<Rightarrow> nat option comp) \<Rightarrow> string \<Rightarrow> string \<Rightarrow> nat option comp" where
  "compile_from env import ido name ms =
     (case read_source env ido of
        None \<Rightarrow> None
      | Some (Inl e) \<Rightarrow> Some (Inl e)
      | Some (Inr (stat1, ast_toplevel)) \<Rightarrow>
          if \<not> stat1 then Some (Inr (None, ms))
          else (case IrMgr_new of
              Inl e \<Rightarrow> Some (Inl e)
            | Inr ir_mgr \<Rightarrow>
                (case elaborate (env_hash env) import ast_toplevel name ir_mgr ms of
                   None \<Rightarrow> None
                 | Some (Inl e) \<Rightarrow> Some (Inl e)
                 | Some (Inr ((None, _), ms')) \<Rightarrow> Some (Inr (None, ms'))
                 | Some (Inr ((Some ir_toplevel, _), ms')) \<Rightarrow>
                     Some (res_bind (code_gen ir_toplevel name) (\<lambda>module.
                       Inr (Some (length ms'), ms' @ [module_freed module]))))))"

text \<open>A source file is compiled anew at every import; a compiled file is opened and not loaded.\<close>

fun import_module :: "comp_env \<Rightarrow> nat \<Rightarrow> string \<Rightarrow> nat option comp" where
  "import_module env 0 name ms = None"
| "import_module env (Suc n) name ms =
     (case env_search env (name @ ''.ym'') of
        Some fullpath \<Rightarrow>
          (case env_open env fullpath of
             None \<Rightarrow> Some (Inl AssertFail)
           | Some ido \<Rightarrow> compile_from env (import_module env n) ido name ms)
      | None \<Rightarrow>
          (case env_search env (name @ ''.ymc'') of
             None \<Rightarrow> Some (Inr (None, ms))
           | Some fullpath \<Rightarrow>
               (case env_open env fullpath of
                  None \<Rightarrow> Some (Inl AssertFail)
                | Some _ \<Rightarrow> Some (Inr (None, ms)))))"

definition compile :: "comp_env \<Rightarrow> nat \<Rightarrow> string \<Rightarrow> string \<Rightarrow> nat option comp" where
  "compile env fuel = compile_from env (import_module env fuel)"

end
