(* ===== verification/Ir_Frame.thy ===== *)
theory Ir_Frame
  imports Ir_Stmt
begin

text \<open>
  What no step of the elaborator changes: a relation between the states before and after that holds
  for each way the elaborator writes its state holds for the elaboration of every statement.
\<close>

section \<open>The interface\<close>

locale el_frame =
  fixes R :: "ir_mgr \<Rightarrow> ir_mgr \<Rightarrow> bool"
  assumes refl: "R s s"
    and trans: "R s t \<Longrightarrow> R t u \<Longrightarrow> R s u"
    and types: "R s (s\<lparr>mTypeMgr := m\<rparr>)"
    and scopes: "R s (s\<lparr>mScopeList := scs\<rparr>)"
    and labels: "R s (s\<lparr>label_defined := ds\<rparr>)"
    and undefs: "R s (s\<lparr>mUndefList := us\<rparr>)"
    and calls: "R s (s\<lparr>function_address := fs, mFuncCallList := cs\<rparr>)"
    and resolved: "R s (s\<lparr>function_address := fs\<rparr>)"
    and code: "set_block b c (toplevel_block s) = Inr blocks \<Longrightarrow> R s (s\<lparr>toplevel_block := blocks\<rparr>)"
    and global: "handle_type_of v = hGlobalVar \<Longrightarrow>
      R s (s\<lparr>toplevel_block := (toplevel_block s)\<lparr>mGlobalVarList := mGlobalVarList (toplevel_block s) @ [v]\<rparr>\<rparr>)"
    and func: "handle_type_of (mFuncHandle f) = hFunction \<Longrightarrow>
      R s (s\<lparr>toplevel_block := (toplevel_block s)\<lparr>mFuncList := mFuncList (toplevel_block s) @ [f]\<rparr>\<rparr>)"
begin

definition frames :: "'a elab \<Rightarrow> bool" where
  "frames m \<longleftrightarrow> (\<forall>s x s'. m s = Inr (x, s') \<longrightarrow> R s s')"

lemma framesI: "(\<And>s x s'. m s = Inr (x, s') \<Longrightarrow> R s s') \<Longrightarrow> frames m"
  by (simp add: frames_def)

lemma framesD: "frames m \<Longrightarrow> m s = Inr (x, s') \<Longrightarrow> R s s'"
  by (simp add: frames_def)

text \<open>Steps that leave the state as it is.\<close>

lemma frames_read:
  "frames (el_ret x)" "frames (el_fail e)" "frames (el_res r)" "frames (el_read f)" "frames (el_get g)"
  "frames (find_in hash scope name)" "frames (global_scope scope)" "frames (check_name hash name scope)"
  "frames (next_local_index b)" "frames next_global_index" "frames next_func_index" "frames (is_defined l)"
  "frames (load_of h)" "frames (type_id_is k p)" "frames (\<lambda>a. Inr (y, a))" "frames (\<lambda>a. Inl e)"
  by (auto simp: frames_def el_ret_def el_fail_def el_res_def el_read_def el_get_def find_in_def
      global_scope_def check_name_def next_local_index_def next_global_index_def next_func_index_def
      is_defined_def load_of_def type_id_is_def res_bind_eq_Inr refl split: option.splits)

lemma frames_bind: "frames m \<Longrightarrow> (\<And>x. frames (f x)) \<Longrightarrow> frames (el_bind m f)"
proof (rule framesI)
  fix s x s'
  assume m: "frames m" and f: "\<And>x. frames (f x)" and run: "el_bind m f s = Inr (x, s')"
  then obtain y t where "m s = Inr (y, t)" "f y t = Inr (x, s')"
    by (auto simp: el_bind_def res_bind_eq_Inr)
  then show "R s s'" using trans framesD [OF m] framesD [OF f] by blast
qed

lemma frames_seq: "frames m \<Longrightarrow> frames k \<Longrightarrow> frames (el_seq m k)"
  by (simp add: el_seq_def frames_bind)

lemma frames_some: "frames m \<Longrightarrow> (\<And>x. frames (f x)) \<Longrightarrow> frames (el_some m f)"
  by (auto simp: el_some_def frames_read intro!: frames_bind split: option.split)

lemma frames_ptr: "frames m \<Longrightarrow> (\<And>x. frames (f x)) \<Longrightarrow> frames (el_ptr m f)"
  by (auto simp: el_ptr_def frames_read intro!: frames_bind split: option.split)

text \<open>Steps that write.\<close>

lemma frames_write:
  "frames (el_types g)" "frames (new_call e scope args)" "frames new_Label" "frames (set_defined l)"
  "frames (open_scope hash parent name)" "frames (declare_in hash scope h)"
  "frames (add_node b node)" "frames (add_local_var b v)"
  "frames (el_modify (\<lambda>s. s\<lparr>mUndefList := mUndefList s @ [l]\<rparr>))"
  using types scopes labels undefs calls code
  by (auto simp: frames_def el_types_def new_call_def new_Label_def set_defined_def open_scope_def
      declare_in_def add_node_def add_local_var_def on_block_def el_modify_def Let_def res_bind_eq_Inr)

lemma frames_add_global_var: "frames (add_global_var v)"
  using global by (auto simp: frames_def add_global_var_def el_seq_def el_bind_def el_res_def
      el_modify_def res_bind_eq_Inr)

lemma frames_add_function: "handle_type_of (mFuncHandle f) = hFunction \<Longrightarrow> frames (add_function f)"
  using func by (auto simp: frames_def add_function_def el_modify_def)

lemma frames_cases:
  "\<lbrakk>P \<Longrightarrow> frames m; \<not> P \<Longrightarrow> frames k\<rbrakk> \<Longrightarrow> frames (if P then m else k)"
  "\<lbrakk>frames m; \<And>x. frames (f x)\<rbrakk> \<Longrightarrow> frames (case p of None \<Rightarrow> m | Some x \<Rightarrow> f x)"
  "(\<And>x y. frames (g x y)) \<Longrightarrow> frames (case q of (x, y) \<Rightarrow> g x y)"
  by (auto split: option.split prod.split)

lemmas frames_intros = frames_cases frames_read frames_write frames_add_global_var frames_bind frames_seq frames_some
  frames_ptr

section \<open>Expressions and types\<close>

lemma frames_ops:
  "frames (uni_op opcode a)" "frames (bin_op opcode a b)" "frames (tri_op opcode a b c)"
  by (auto simp: uni_op_def bin_op_def tri_op_def intro!: frames_intros)

lemma frames_member_ref: "frames (member_ref hash member h)"
  by (auto simp: member_ref_def intro!: frames_intros split: option.split ir_handle.split)

lemma frames_expr:
  "frames (elab_expr hash e scope)" "frames (elab_args hash es scope)" "frames (elab_primary hash p scope)"
proof (induction hash e scope and hash es scope and hash p scope
    rule: elab_expr_elab_args_elab_primary.induct)
qed (subst elab_expr.simps elab_args.simps elab_primary.simps,
     (rule frames_intros frames_ops frames_member_ref | assumption)+)+

lemma frames_resolve_type: "frames (resolve_type hash t scope)"
  by (induction t arbitrary: scope) (auto intro!: frames_intros frames_expr split: type_id.split)

section \<open>Declarations\<close>

lemmas frames_rules = frames_intros frames_expr frames_resolve_type

lemma frames_reg_const: "frames (reg_const hash name t e scope)"
  by (auto simp: reg_const_def const_handle_def intro!: frames_rules split: type_id.split)

lemma frames_enum_elems: "frames (enum_elems hash ecs scope used v)"
  by (induction hash ecs scope used v rule: enum_elems.induct) (auto intro!: frames_rules)

lemma frames_reg_enum: "frames (reg_enum hash name enums scope)"
  by (auto simp: reg_enum_def intro!: frames_rules frames_enum_elems)

lemma frames_resolve_params: "frames (resolve_params hash func_scope scope ps)"
  by (induction hash func_scope scope ps rule: resolve_params.induct) (auto intro!: frames_rules)

lemma frames_add_params: "frames (add_params hash func_scope scope ps ts i)"
  by (induction hash func_scope scope ps ts i rule: add_params.induct)
    (auto simp: default_value_def Let_def intro!: frames_rules split: option.split)

lemma frames_reg_func:
  "(\<And>p b. frames (body p b)) \<Longrightarrow> frames (reg_func hash name t params body scope)"
  by (auto simp: reg_func_def Let_def new_FuncBlock_def intro!: frames_rules frames_resolve_params
      frames_add_params frames_add_function)

lemma frames_var: "frames (elab_var hash name t e scope b)"
  by (auto simp: elab_var_def Let_def intro!: frames_rules split: option.split)

section \<open>Statements\<close>

lemma frames_simple:
  "frames (elab_goto hash name scope b)" "frames (elab_label hash name scope b)" "frames (jump_to l b)"
  "frames (branch_true k cond b)" "frames (branch_false k cond b)" "frames (elab_step opcode hash e scope b)"
  "frames (elab_assign hash e e' scope b)" "frames (elab_inplace opcode hash e e' scope b)"
  "frames (elab_return hash r scope b)"
  by (auto simp: elab_goto_def elab_label_def jump_to_def branch_true_def branch_false_def elab_step_def
      elab_assign_def elab_inplace_def elab_return_def intro!: frames_rules split: option.split)

lemma frames_loops:
  "(\<And>x y. frames (body x y)) \<Longrightarrow> frames (elab_do hash e scope b body)"
  "(\<And>x y. frames (body x y)) \<Longrightarrow> frames (elab_while hash e scope b body)"
  "(\<And>x. frames (ini x)) \<Longrightarrow> (\<And>x y z. frames (next x y z)) \<Longrightarrow> (\<And>x y z. frames (inner x y z)) \<Longrightarrow>
    frames (elab_for hash e scope b ini next inner)"
  by (auto simp: elab_do_def elab_while_def elab_for_def intro!: frames_rules frames_simple)

lemma frames_if:
  "frames st \<Longrightarrow> (\<And>st. el = Some st \<Longrightarrow> frames st) \<Longrightarrow> frames (elab_if hash e scope b st el)"
  by (auto simp: elab_if_def intro!: frames_rules frames_simple split: option.split)

lemma frames_stmt:
  "frames (elab_stmt hash st scope l1 l2 b)" "frames (elab_stmts hash sts scope l1 l2 b)"
  "frames (elab_cases hash cs scope l1 l2 b)"
  by (induction hash st scope l1 l2 b and hash sts scope l1 l2 b and hash cs scope l1 l2 b
      rule: elab_stmt_elab_stmts_elab_cases.induct)
    (auto intro!: frames_rules frames_simple frames_loops frames_if frames_reg_const frames_reg_enum
      frames_reg_func frames_var split: option.splits)

lemma frames_resolve_func: "frames (resolve_func hash e scope node)"
proof -
  have "frames (\<lambda>s. res_bind (arr_set (function_address s) i h) (\<lambda>a. Inr (True, s\<lparr>function_address := a\<rparr>)))"
    for i h
    using resolved by (auto simp: frames_def res_bind_eq_Inr)
  then show ?thesis
    by (auto simp: resolve_func_def intro!: frames_rules split: option.split)
qed

lemma frames_resolve_calls: "frames (resolve_calls hash stubs)"
  by (induction stubs) (auto intro!: frames_rules frames_resolve_func)

lemma frames_labels_defined: "frames (labels_defined ls)"
  by (induction ls) (auto intro!: frames_rules)

lemma frames_body: "frames (elaborate_body hash stmts scope)"
  by (auto simp: elaborate_body_def intro!: frames_rules frames_stmt frames_resolve_calls frames_labels_defined)

end

section \<open>Two frames\<close>

text \<open>The modules that were imported, and the dictionaries of modules.\<close>

definition same_imports :: "ir_mgr \<Rightarrow> ir_mgr \<Rightarrow> bool" where
  "same_imports s s' \<longleftrightarrow>
     mModuleList (toplevel_block s') = mModuleList (toplevel_block s) \<and>
     mModuleDict s' = mModuleDict s \<and> mScopeDict s' = mScopeDict s"

lemma set_block_imports:
  "set_block b c t = Inr t' \<Longrightarrow> mModuleList t' = mModuleList t \<and> mGlobalVarList t' = mGlobalVarList t"
  by (auto simp: set_block_def res_bind_eq_Inr split: blk.splits)

interpretation import_frame: el_frame same_imports
  by unfold_locales (auto simp: same_imports_def dest: set_block_imports)

text \<open>The handles of the top level are of the kinds that code generation expects.\<close>

definition proper_handles :: "toplevel \<Rightarrow> bool" where
  "proper_handles t \<longleftrightarrow>
     (\<forall>h\<in>set (mGlobalVarList t). handle_type_of h = hGlobalVar) \<and>
     (\<forall>f\<in>set (mFuncList t). handle_type_of (mFuncHandle f) = hFunction)"

definition handles_stay_proper :: "ir_mgr \<Rightarrow> ir_mgr \<Rightarrow> bool" where
  "handles_stay_proper s s' \<longleftrightarrow>
     (proper_handles (toplevel_block s) \<longrightarrow> proper_handles (toplevel_block s'))"

lemma set_block_handles:
  assumes "set_block b c t = Inr t'" and "proper_handles t"
  shows "proper_handles t'"
proof (cases b)
  case TopBlock
  with assms show ?thesis by (auto simp: set_block_def proper_handles_def)
next
  case (FuncBlock i)
  then have i: "i < length (mFuncList t)"
    and t': "t' = t\<lparr>mFuncList := (mFuncList t)[i := (mFuncList t ! i)\<lparr>func_code := c\<rparr>]\<rparr>"
    using assms(1) by (auto simp: set_block_def res_bind_eq_Inr arr_get_def arr_set_def split: if_splits)
  have "\<forall>f\<in>set ((mFuncList t)[i := (mFuncList t ! i)\<lparr>func_code := c\<rparr>]). handle_type_of (mFuncHandle f) = hFunction"
    using assms(2) i by (auto simp: proper_handles_def dest!: subsetD [OF set_update_subset_insert])
  with assms(2) show ?thesis by (simp add: proper_handles_def t')
qed

interpretation handle_frame: el_frame handles_stay_proper
proof
  fix s t u
  assume "handles_stay_proper s t" and "handles_stay_proper t u"
  then show "handles_stay_proper s u" by (simp add: handles_stay_proper_def)
next
  fix b c and s :: ir_mgr and blocks
  assume "set_block b c (toplevel_block s) = Inr blocks"
  then show "handles_stay_proper s (s\<lparr>toplevel_block := blocks\<rparr>)"
    by (simp add: handles_stay_proper_def set_block_handles)
qed (simp_all add: handles_stay_proper_def proper_handles_def)

end
