(* ===== verification/Compiler_Props.thy ===== *)
theory Compiler_Props
  imports Ir_Frame Ymsl_Compiler Ir_Decl
begin

text \<open>
  Properties of the compiler: what every compiled module is, which modules it can import, and when
  compilation does not end or fails.
\<close>

section \<open>Steps with imports\<close>

lemma im_bind_Inr:
  "im_bind m f s ms = Some (Inr r) \<longleftrightarrow>
    (\<exists>x s' ms'. m s ms = Some (Inr ((x, s'), ms')) \<and> f x s' ms' = Some (Inr r))"
  by (auto simp: im_bind_def split: option.splits sum.splits)

lemma im_el_Inr: "im_el m s ms = Some (Inr ((x, s'), ms')) \<longleftrightarrow> m s = Inr (x, s') \<and> ms' = ms"
  by (auto simp: im_el_def res_bind_eq_Inr)

lemma im_ret_Inr: "im_ret x s ms = Some (Inr ((y, s'), ms')) \<longleftrightarrow> y = x \<and> s' = s \<and> ms' = ms"
  by (auto simp: im_ret_def)

lemma im_call_Inr:
  "im_call m s ms = Some (Inr ((x, s'), ms')) \<longleftrightarrow> m ms = Some (Inr (x, ms')) \<and> s' = s"
  by (auto simp: im_call_def map_sum_Inr)

lemma im_module_Inr:
  "im_module p s ms = Some (Inr ((m, s'), ms')) \<longleftrightarrow> p < length ms \<and> m = ms ! p \<and> s' = s \<and> ms' = ms"
  by (auto simp: im_module_def res_bind_eq_Inr arr_get_def split: if_splits)

lemmas im_Inr = im_bind_Inr im_el_Inr im_ret_Inr im_call_Inr im_module_Inr

text \<open>A new manager, with the scopes it has made.\<close>

definition fresh_mgr :: "type_mgr \<Rightarrow> ir_handle scope list \<Rightarrow> ir_mgr" where
  "fresh_mgr m scs = \<lparr>mTypeMgr = m, mFuncCallList = [], mUndefList = [], mScopeList = scs,
     mModuleDict = Map.empty, mScopeDict = Map.empty, label_defined = [], function_address = [],
     toplevel_block = new_Toplevel\<rparr>"

lemma fresh_mgr_simps [simp]:
  "mTypeMgr (fresh_mgr m scs) = m" "mScopeList (fresh_mgr m scs) = scs"
  "mModuleDict (fresh_mgr m scs) = Map.empty" "mScopeDict (fresh_mgr m scs) = Map.empty"
  "toplevel_block (fresh_mgr m scs) = new_Toplevel" "mFuncCallList (fresh_mgr m scs) = []"
  "mUndefList (fresh_mgr m scs) = []" "(fresh_mgr m scs)\<lparr>mScopeList := scs'\<rparr> = fresh_mgr m scs'"
  "(fresh_mgr m scs)\<lparr>mFuncCallList := [], mUndefList := [], toplevel_block := new_Toplevel\<rparr> = fresh_mgr m scs"
  by (simp_all add: fresh_mgr_def)

lemma IrMgr_new_ok: "\<exists>m. IrMgr_new = Inr (fresh_mgr m []) \<and> tm_ok m"
proof -
  obtain m where m: "TypeMgr_new = Inr m" "tm_ok m" using TypeMgr_new_inv by blast
  show ?thesis unfolding IrMgr_new_def m(1) res_bind_Inr using m(2) by (auto simp: fresh_mgr_def)
qed

lemma open_first_scope:
  "\<exists>scs. open_scope hash None name (fresh_mgr m []) = Inr (0, fresh_mgr m scs) \<and> length scs = 1 \<and>
    scopes_ok hash handle_name scs \<and> scope_items (scs ! 0) = [] \<and> scope_chain scs 0 = [0]"
proof -
  have "scopes_ok hash handle_name ([] :: ir_handle scope list)" by (simp add: scopes_ok_def)
  from new_scope_inv [OF this, of None name]
  obtain r where "new_scope hash handle_name None name ([] :: ir_handle scope list) = Inr (0, r)"
    "scopes_ok hash handle_name r" "scope_items (r ! 0) = []" "length r = 1"
    "scope_chain r 0 = [0]"
    by auto
  then show ?thesis by (intro exI [of _ r]) (simp add: open_scope_def)
qed

section \<open>Imports that go round in a circle\<close>

text \<open>A file of the search path and what the parser makes of it.\<close>

definition source_of :: "comp_env \<Rightarrow> string \<Rightarrow> ast_stmt list \<Rightarrow> ast_stmt list \<Rightarrow> bool" where
  "source_of env name heads stmts \<longleftrightarrow>
     (\<exists>fullpath ido. env_search env (name @ ''.ym'') = Some fullpath \<and> env_open env fullpath = Some ido \<and>
       read_source env ido = Some (Inr (True, Some (Toplevel heads stmts))))"

lemma compile_out_of_fuel:
  assumes "read_source env ido = Some (Inr (True, Some (Toplevel (Import g alias # heads) stmts)))"
    and "import g ms = None"
  shows "compile_from env import ido name ms = None"
proof -
  obtain m where new: "IrMgr_new = Inr (fresh_mgr m [])" using IrMgr_new_ok by blast
  obtain scs where "open_scope (env_hash env) None name (fresh_mgr m []) = Inr (0, fresh_mgr m scs)"
    using open_first_scope by blast
  then show ?thesis
    by (simp add: compile_from_def assms new elaborate_def im_bind_def im_el_def el_seq_def el_bind_def
        el_modify_def el_get_def module_scope_def im_call_def)
qed

text \<open>
  C15: import cycles. When every module of a set of source files begins with the import of a module of
  the set, importing one of them never ends: whatever the fuel, it does not suffice.
\<close>

theorem cyclic_import_diverges:
  assumes "\<forall>m\<in>S. \<exists>g alias heads stmts. g \<in> S \<and> source_of env m (Import g alias # heads) stmts"
    and "name \<in> S"
  shows "import_module env fuel name ms = None"
  using assms(2)
proof (induction fuel arbitrary: name ms)
  case (Suc n)
  then obtain g short heads stmts where g: "g \<in> S" "source_of env name (Import g short # heads) stmts"
    using assms(1) by blast
  then show ?case
    using compile_out_of_fuel [of env _ g short heads stmts "import_module env n"] Suc.IH
    by (auto simp: source_of_def)
qed simp

text \<open>A module that imports itself.\<close>

definition self_env :: comp_env where
  "self_env = \<lparr>env_hash = (\<lambda>_. 0), env_code = token_code, env_strtod = (\<lambda>_. 0),
     env_yyparse = (\<lambda>_. (0, Some (Toplevel [Import ''a'' None] []))), env_search = Some,
     env_open = (\<lambda>_. Some ''import a;'')\<rparr>"

lemma read_source_text:
  assumes "env_code env = token_code"
  shows "read_source env ido =
    (case env_yyparse env (lexed (env_strtod env) ido) of (stat, root) \<Rightarrow> Some (Inr (stat = 0, root)))"
proof -
  let ?sc = "\<lparr>mCurString = '''', mDic = dic token_code, mUngetToken = DUMMY, input = ido\<rparr>"
  have "scan_all (env_strtod env) text_source (length ido + 2) (length ido + 1) ?sc =
    Some (Inr (lexed (env_strtod env) ido))"
    using scan_all_text [OF text_source_reads sample_scanner, of ido] by (simp del: scan_all.simps)
  then show ?thesis
    by (simp add: read_source_def assms sample_scanner del: scan_all.simps split: prod.split)
qed

theorem cyclic_import_diverges_witness: "\<forall>fuel ms. import_module self_env fuel ''a'' ms = None"
  by (intro allI, rule cyclic_import_diverges [of "{''a''}"])
    (auto simp: source_of_def read_source_text self_env_def)

section \<open>What a module imports\<close>

context el_frame
begin

lemma frames_for: "(\<And>i. frames (f i)) \<Longrightarrow> frames (el_for n f)"
  by (induction n) (auto intro!: frames_intros)

lemma frames_module2scope: "frames (module2scope hash m name i)"
  by (auto simp: module2scope_def intro!: frames_intros frames_for)

end

lemma el_for_first: "el_for n f s = Inr r \<Longrightarrow> 0 < n \<Longrightarrow> \<exists>r. f 0 s = Inr r"
proof (induction n arbitrary: r)
  case (Suc n)
  then obtain r' where "el_for n f s = Inr r'" by (auto simp: el_seq_def el_bind_eq_Inr)
  with Suc show ?case by (cases n; cases r) (auto simp: el_seq_def el_bind_eq_Inr el_ret_def)
qed simp

text \<open>No module with imports of its own gets a scope while the dictionary of scopes is empty.\<close>

lemma module2scope_no_imports:
  assumes "module2scope hash m name i s = Inr (scope, s')" and "mScopeDict s = Map.empty"
  shows "mImportedModuleList m = []"
proof (rule ccontr)
  assume "mImportedModuleList m \<noteq> []"
  then have n: "0 < imported_module_num m" by (simp add: imported_module_num_def)
  obtain p t t' where t: "open_scope hash None name s = Inr (p, t)"
    "el_for (imported_module_num m) (\<lambda>i. el_bind (el_res (imported_module m i)) (\<lambda>sub_module.
       el_bind (el_get (\<lambda>s. mScopeDict s sub_module)) (\<lambda>q. case q of
           None \<Rightarrow> el_fail AssertFail
         | Some sub_scope \<Rightarrow> declare_in hash p (ScopeHandle name sub_scope)))) t = Inr ((), t')"
    using assms(1) by (auto simp: module2scope_def el_bind_eq_Inr el_seq_def)
  have "same_imports s t" using import_frame.framesD [OF import_frame.frames_write(5) t(1)] .
  with assms(2) have "mScopeDict t = Map.empty" by (simp add: same_imports_def)
  with el_for_first [OF t(2) n] show False
    by (auto simp: el_bind_def el_get_def res_bind_eq_Inr el_fail_def)
qed

text \<open>Nothing is imported yet, or one module that imports nothing, under the name of the importer.\<close>

definition one_import :: "string \<Rightarrow> ir_mgr \<Rightarrow> vsm_module list \<Rightarrow> bool" where
  "one_import name s ms \<longleftrightarrow>
     mModuleDict s = Map.empty \<and> mScopeDict s = Map.empty \<and> mModuleList (toplevel_block s) = [] \<or>
     (\<exists>q scope. mModuleDict s = [name \<mapsto> q] \<and> mScopeDict s = [q \<mapsto> scope] \<and>
       set (mModuleList (toplevel_block s)) \<subseteq> {q} \<and> q < length ms \<and> mImportedModuleList (ms ! q) = [])"

lemma one_import_frame: "one_import name s ms \<Longrightarrow> same_imports s s' \<Longrightarrow> one_import name s' ms"
  by (simp add: one_import_def same_imports_def)

lemma module_scope_one:
  assumes "module_scope hash import name m i s ms = Some (Inr ((Some (q, scope), s'), ms'))"
    and "one_import name s ms"
  shows "\<exists>scope'. mModuleDict s' = [name \<mapsto> q] \<and> mScopeDict s' = [q \<mapsto> scope'] \<and>
    set (mModuleList (toplevel_block s')) \<subseteq> {q} \<and> q < length ms' \<and> mImportedModuleList (ms' ! q) = []"
proof (cases "mModuleDict s name")
  case None
  then have empty: "mModuleDict s = Map.empty" "mScopeDict s = Map.empty" "mModuleList (toplevel_block s) = []"
    using assms(2) by (auto simp: one_import_def)
  obtain t where t: "q < length ms'" "module2scope hash (ms' ! q) name i s = Inr (scope, t)"
    "s' = t\<lparr>mModuleDict := (mModuleDict t)(name \<mapsto> q), mScopeDict := (mScopeDict t)(q \<mapsto> scope)\<rparr>"
    using assms(1) None
    by (auto simp: module_scope_def im_Inr el_get_def el_bind_eq_Inr el_seq_def el_modify_def el_ret_def
        split: option.splits)
  have "same_imports s t" using import_frame.framesD [OF import_frame.frames_module2scope t(2)] .
  then show ?thesis
    using t module2scope_no_imports [OF t(2) empty(2)] empty by (auto simp: same_imports_def)
next
  case (Some p)
  then obtain sc where "mModuleDict s = [name \<mapsto> p]" "mScopeDict s = [p \<mapsto> sc]"
    "set (mModuleList (toplevel_block s)) \<subseteq> {p}" "p < length ms" "mImportedModuleList (ms ! p) = []"
    using assms(2) by (auto simp: one_import_def split: if_splits)
  with assms(1) Some show ?thesis
    by (auto simp: module_scope_def im_Inr el_get_def el_bind_eq_Inr el_ret_def)
qed

lemma import_heads_one:
  assumes "import_heads hash import name heads i root s ms = Some (Inr ((True, s'), ms'))"
    and "one_import name s ms"
  shows "one_import name s' ms'"
  using assms
proof (induction hash import name heads i root arbitrary: s ms rule: import_heads.induct)
  case (1 hash import name i top)
  then show ?case by (simp add: im_ret_def)
next
  case (2 hash import name m short heads i root)
  obtain q scope t ms1 u where step:
    "module_scope hash import name m i s ms = Some (Inr ((Some (q, scope), t), ms1))"
    "el_seq (add_imported_module q) (declare_in hash root
       (ScopeHandle (case short of None \<Rightarrow> m | Some a \<Rightarrow> a) scope)) t = Inr ((), u)"
    "import_heads hash import name heads (Suc i) root u ms1 = Some (Inr ((True, s'), ms'))"
    using "2.prems"(1) by (auto simp: im_Inr split: option.splits)
  obtain scope' where t: "mModuleDict t = [name \<mapsto> q]" "mScopeDict t = [q \<mapsto> scope']"
    "set (mModuleList (toplevel_block t)) \<subseteq> {q}" "q < length ms1" "mImportedModuleList (ms1 ! q) = []"
    using module_scope_one [OF step(1) "2.prems"(2)] by blast
  let ?t = "t\<lparr>toplevel_block := (toplevel_block t)\<lparr>mModuleList := mModuleList (toplevel_block t) @ [q]\<rparr>\<rparr>"
  have "same_imports ?t u"
    using import_frame.framesD [OF import_frame.frames_write(6)] step(2)
    by (auto simp: el_seq_def el_bind_eq_Inr add_imported_module_def el_modify_def)
  moreover have "one_import name ?t ms1" using t by (auto simp: one_import_def)
  ultimately have "one_import name u ms1" by (rule one_import_frame [rotated])
  with "2.IH" step(3) show ?case by blast
qed (simp_all add: im_el_def el_fail_def)


section \<open>What elaboration hands to code generation\<close>

lemma proper_handles_modules [simp]: "proper_handles (t\<lparr>mModuleList := x\<rparr>) = proper_handles t"
  by (simp add: proper_handles_def)

lemma handles_head:
  "handles_stay_proper s (s\<lparr>toplevel_block := (toplevel_block s)\<lparr>mModuleList := x\<rparr>\<rparr>)"
  "handles_stay_proper s t \<Longrightarrow> handles_stay_proper s (t\<lparr>mModuleDict := d, mScopeDict := e\<rparr>)"
  by (simp_all add: handles_stay_proper_def)

lemma module_scope_handles:
  assumes "module_scope hash import name m i s ms = Some (Inr ((r, s'), ms'))"
  shows "handles_stay_proper s s'"
proof (cases "s' = s")
  case True
  then show ?thesis by (simp add: handle_frame.refl)
next
  case False
  then obtain q scope t where t: "module2scope hash (ms' ! q) name i s = Inr (scope, t)"
    "s' = t\<lparr>mModuleDict := (mModuleDict t)(name \<mapsto> q), mScopeDict := (mScopeDict t)(q \<mapsto> scope)\<rparr>"
    using assms
    by (auto simp: module_scope_def im_Inr el_get_def el_bind_eq_Inr el_seq_def el_modify_def el_ret_def
        el_fail_def split: option.splits)
  from handles_head(2) [OF handle_frame.framesD [OF handle_frame.frames_module2scope t(1)]] t(2)
  show ?thesis by simp
qed

lemma import_heads_handles:
  "import_heads hash import name heads i root s ms = Some (Inr ((r, s'), ms')) \<Longrightarrow> handles_stay_proper s s'"
proof (induction hash import name heads i root arbitrary: s ms rule: import_heads.induct)
  case (1 hash import name i root)
  then show ?case by (simp add: im_ret_def handle_frame.refl)
next
  case (2 hash import name m short heads i root)
  then obtain p t ms1 where step: "module_scope hash import name m i s ms = Some (Inr ((p, t), ms1))"
    by (auto simp: im_Inr)
  note st = module_scope_handles [OF step]
  show ?case
  proof (cases p)
    case None
    with 2 step st show ?thesis by (auto simp: im_Inr)
  next
    case (Some qs)
    then obtain q scope u where u: "p = Some (q, scope)"
      "declare_in hash root (ScopeHandle (case short of None \<Rightarrow> m | Some a \<Rightarrow> a) scope)
        (t\<lparr>toplevel_block := (toplevel_block t)\<lparr>mModuleList := mModuleList (toplevel_block t) @ [q]\<rparr>\<rparr>)
        = Inr ((), u)"
      "import_heads hash import name heads (Suc i) root u ms1 = Some (Inr ((r, s'), ms'))"
      using 2(2) step
      by (cases qs) (auto simp: im_Inr el_seq_def el_bind_eq_Inr add_imported_module_def el_modify_def)
    have "handles_stay_proper t u"
      by (rule handle_frame.trans [OF handles_head(1) handle_frame.framesD [OF handle_frame.frames_write(6) u(2)]])
    moreover have "handles_stay_proper u s'" using "2.IH" u(3) by blast
    ultimately show ?thesis using st handle_frame.trans by blast
  qed
qed (simp_all add: im_el_def el_fail_def)

lemma elaborated:
  assumes "elaborate hash import root name s ms = Some (Inr ((Some t, s'), ms'))"
    and "mModuleDict s = Map.empty" and "mScopeDict s = Map.empty"
  shows "t = toplevel_block s' \<and> one_import name s' ms' \<and> proper_handles t"
proof -
  let ?s = "s\<lparr>mFuncCallList := [], mUndefList := [], toplevel_block := new_Toplevel\<rparr>"
  obtain heads stmts scope s1 s2 where
    open_run: "open_scope hash None name ?s = Inr (scope, s1)" and
    heads_run: "import_heads hash import name heads 1 scope s1 ms = Some (Inr ((True, s2), ms'))" and
    body_run: "elaborate_body hash stmts scope s2 = Inr (True, s')" and t: "t = toplevel_block s'"
    using assms(1)
    by (auto simp: elaborate_def im_Inr el_fail_def el_seq_def el_modify_def el_get_def el_bind_eq_Inr
        split: option.splits ast_stmt.splits if_splits)
  have "same_imports ?s s1" using import_frame.framesD [OF import_frame.frames_write(5) open_run] .
  then have "one_import name s1 ms"
    using assms(2,3) by (auto simp: one_import_def same_imports_def new_Toplevel_def)
  from import_heads_one [OF heads_run this] have "one_import name s2 ms'" .
  then have "one_import name s' ms'"
    using one_import_frame import_frame.framesD [OF import_frame.frames_body body_run] by blast
  moreover have "handles_stay_proper ?s s'"
    using handle_frame.framesD [OF handle_frame.frames_write(5) open_run]
      import_heads_handles [OF heads_run] handle_frame.framesD [OF handle_frame.frames_body body_run]
      handle_frame.trans by blast
  then have "proper_handles t"
    by (simp add: t handles_stay_proper_def proper_handles_def new_Toplevel_def)
  ultimately show ?thesis using t by blast
qed

section \<open>Compiled modules\<close>

lemma gen_nodes_result: "gen_nodes nodes b = Inr b' \<Longrightarrow> b' = b \<and> None \<notin> set nodes"
  by (induction nodes b rule: gen_nodes.induct) auto

lemma code_gen_generable:
  assumes "code_gen t name = Inr m" and "proper_handles t"
  shows "generable t"
proof -
  have "None \<notin> set (mNodeList (func_code f))" if "f \<in> set fs" "gen_all gen_func fs b = Inr b'" for f fs b b'
    using that
    by (induction fs arbitrary: b) (auto simp: gen_func_def gen_block_def res_bind_eq_Inr dest: gen_nodes_result)
  with assms show ?thesis
    by (auto simp: code_gen_def gen_block_def Let_def res_bind_eq_Inr generable_def proper_handles_def
        dest: gen_nodes_result)
qed

lemma compile_result:
  assumes "compile_from env import ido name ms = Some (Inr (Some p, ms'))"
  shows "\<exists>t ms1. ms' = ms1 @ [module_freed (generated t name)] \<and> p = length ms1 \<and> generable t \<and>
    (\<exists>q. set (mModuleList t) \<subseteq> {q} \<and>
      (mModuleList t \<noteq> [] \<longrightarrow> q < length ms1 \<and> mImportedModuleList (ms1 ! q) = []))"
proof -
  obtain m where new: "IrMgr_new = Inr (fresh_mgr m [])" using IrMgr_new_ok by blast
  obtain root s t ms1 module where run:
    "elaborate (env_hash env) import root name (fresh_mgr m []) ms = Some (Inr ((Some t, s), ms1))"
    "code_gen t name = Inr module" "ms' = ms1 @ [module_freed module]" "p = length ms1"
    using assms
    by (auto simp: compile_from_def new res_bind_eq_Inr split: option.splits sum.splits if_splits)
  have el: "t = toplevel_block s \<and> one_import name s ms1 \<and> proper_handles t"
    by (rule elaborated [OF run(1)]) simp_all
  then have "generable t" using code_gen_generable [OF run(2)] by blast
  moreover from this have "module = generated t name" using code_gen_ok run(2) by simp
  ultimately show ?thesis
    using run(3,4) el by (intro exI [of _ t] exI [of _ ms1]) (auto simp: one_import_def)
qed


text \<open>
  C14: a compiled module. When \<^verbatim>\<open>compile\<close> returns a module, it is the newest one, has the name it was
  compiled under, and all modules it imports are one and the same, older module, which imports
  nothing itself.
\<close>

theorem compiled_imports:
  assumes "compile env fuel ido name ms = Some (Inr (Some p, ms'))"
  shows "length ms' = Suc p \<and> mod_name (ms' ! p) = name \<and>
    (mImportedModuleList (ms' ! p) = [] \<or>
     (\<exists>q < p. set (mImportedModuleList (ms' ! p)) = {q} \<and> mImportedModuleList (ms' ! q) = []))"
proof -
  obtain t ms1 q where t: "ms' = ms1 @ [module_freed (generated t name)]" "p = length ms1"
    "set (mModuleList t) \<subseteq> {q}"
    "mModuleList t \<noteq> [] \<longrightarrow> q < length ms1 \<and> mImportedModuleList (ms1 ! q) = []"
    using compile_result assms unfolding compile_def by blast
  show ?thesis
  proof (cases "mModuleList t = []")
    case True
    with t show ?thesis by (simp add: module_freed_def generated_def)
  next
    case False
    with t(3) have "set (mModuleList t) = {q}" by (cases "mModuleList t") auto
    with False t show ?thesis
      by (simp add: module_freed_def generated_def nth_append)
  qed
qed

text \<open>
  C17: a compiled program does nothing. Whatever the source text, executing the top level of a
  compiled module or any of the functions it exports leaves the machine as it was.
\<close>

theorem compiled_code_empty:
  assumes "compile env fuel ido name ms = Some (Inr (Some p, ms'))"
  shows "execute_toplevel (Suc n) (ms' ! p) vm = Some (Inr vm) \<and>
    (\<forall>f\<in>set (mExportedFuncs (ms' ! p)). exec_function (Suc n) f base vm = Some (Inr vm))"
proof -
  obtain t ms1 where t: "ms' = ms1 @ [module_freed (generated t name)]" "p = length ms1" "generable t"
    using compile_result assms unfolding compile_def by blast
  have "exec_function (Suc n) (func_freed (module_func (mFuncHandle f))) base vm = Some (Inr vm)"
    if "f \<in> set (mFuncList t)" for f
    using that t(3)
    by (cases "mFuncHandle f") (auto simp: generable_def exec_function_def no_code_runs)
  with t(1,2) show ?thesis
    by (auto simp: module_freed_def generated_def execute_toplevel_def no_code_runs)
qed


section \<open>The names of an imported module\<close>

lemma el_for_cong: "(\<And>i. i < n \<Longrightarrow> f i = g i) \<Longrightarrow> el_for n f = el_for n g"
  by (induction n) simp_all

lemma declare_for:
  assumes "in_scope hash s p" and "length (scope_items (mScopeList s ! p)) + n < 2 ^ 28"
  shows "\<exists>t. el_for n (\<lambda>i. declare_in hash p (h i)) s = Inr ((), s\<lparr>mScopeList := (mScopeList s)[p := t]\<rparr>) \<and>
    in_scope hash (s\<lparr>mScopeList := (mScopeList s)[p := t]\<rparr>) p \<and>
    mset (scope_items t) = mset (map h [0..<n]) + mset (scope_items (mScopeList s ! p))"
  using assms(2)
proof (induction n)
  case 0
  show ?case using assms(1) by (intro exI [of _ "mScopeList s ! p"]) (simp add: el_ret_def in_scope_def)
next
  case (Suc n)
  then obtain t where t: "el_for n (\<lambda>i. declare_in hash p (h i)) s = Inr ((), s\<lparr>mScopeList := (mScopeList s)[p := t]\<rparr>)"
    "in_scope hash (s\<lparr>mScopeList := (mScopeList s)[p := t]\<rparr>) p"
    "mset (scope_items t) = mset (map h [0..<n]) + mset (scope_items (mScopeList s ! p))"
    by auto
  have len: "p < length (mScopeList s)" using assms(1) by (simp add: in_scope_def)
  have "length (scope_items t) = n + length (scope_items (mScopeList s ! p))"
    using arg_cong [OF t(3), of size] by simp
  then have "Ir_Decl.room (s\<lparr>mScopeList := (mScopeList s)[p := t]\<rparr>) p"
    using Suc.prems len by (simp add: room_def)
  from declare_in_ok [OF t(2) this, of "h n"] obtain u where
    "declare_in hash p (h n) (s\<lparr>mScopeList := (mScopeList s)[p := t]\<rparr>) =
      Inr ((), s\<lparr>mScopeList := (mScopeList s)[p := u]\<rparr>)"
    "in_scope hash (s\<lparr>mScopeList := (mScopeList s)[p := u]\<rparr>) p"
    "mset (scope_items u) = add_mset (h n) (mset (scope_items t))"
    using len by auto
  then show ?case using t by (intro exI [of _ u]) (simp add: el_seq_def)
qed

definition module_exports :: "vsm_module \<Rightarrow> nat \<Rightarrow> ir_handle list" where
  "module_exports m module_index =
     map (\<lambda>i. FuncHandle (vf_name (mExportedFuncs m ! i)) (vf_type (mExportedFuncs m ! i)) module_index i)
       [0..<length (mExportedFuncs m)] @
     map (\<lambda>i. GlobalVarHandle (var_name (mExportedVarList m ! i)) (var_type (mExportedVarList m ! i)) module_index i)
       [0..<length (mExportedVarList m)]"

lemma open_root_scope:
  assumes "in_scope hash s p"
  shows "\<exists>scs. open_scope hash None name s = Inr (length (mScopeList s), s\<lparr>mScopeList := scs\<rparr>) \<and>
    in_scope hash (s\<lparr>mScopeList := scs\<rparr>) (length (mScopeList s)) \<and>
    take (length (mScopeList s)) scs = mScopeList s \<and> scope_items (scs ! length (mScopeList s)) = []"
proof -
  have "scopes_ok hash handle_name (mScopeList s)" using assms by (simp add: in_scope_def)
  from new_scope_inv [OF this, of None name] obtain r where
    "new_scope hash handle_name None name (mScopeList s) = Inr (length (mScopeList s), r)"
    "scopes_ok hash handle_name r" "take (length (mScopeList s)) r = mScopeList s"
    "scope_items (r ! length (mScopeList s)) = []" "length r = Suc (length (mScopeList s))"
    by auto
  with assms show ?thesis by (intro exI [of _ r]) (simp add: open_scope_def in_scope_def)
qed

lemma module2scope_ok:
  assumes "in_scope hash s root" and "mImportedModuleList m = []" and "length (module_exports m i) < 2 ^ 28"
  shows "\<exists>scs. module2scope hash m name i s = Inr (length (mScopeList s), s\<lparr>mScopeList := scs\<rparr>) \<and>
    in_scope hash (s\<lparr>mScopeList := scs\<rparr>) (length (mScopeList s)) \<and>
    take (length (mScopeList s)) scs = mScopeList s \<and>
    mset (scope_items (scs ! length (mScopeList s))) = mset (module_exports m i)"
proof -
  let ?p = "length (mScopeList s)" and ?F = "mExportedFuncs m" and ?V = "mExportedVarList m"
  let ?f = "\<lambda>j. FuncHandle (vf_name (?F ! j)) (vf_type (?F ! j)) i j"
  let ?v = "\<lambda>j. GlobalVarHandle (var_name (?V ! j)) (var_type (?V ! j)) i j"
  obtain scs where scs: "open_scope hash None name s = Inr (?p, s\<lparr>mScopeList := scs\<rparr>)"
    "in_scope hash (s\<lparr>mScopeList := scs\<rparr>) ?p" "take ?p scs = mScopeList s" "scope_items (scs ! ?p) = []"
    using open_root_scope [OF assms(1)] by blast
  have n: "length ?F + length ?V < 2 ^ 28" using assms(3) by (simp add: module_exports_def)
  have "length (scope_items (mScopeList (s\<lparr>mScopeList := scs\<rparr>) ! ?p)) + length ?F < 2 ^ 28"
    using n scs(4) by simp
  from declare_for [OF scs(2) this, of ?f] obtain t where t:
    "el_for (length ?F) (\<lambda>j. declare_in hash ?p (?f j)) (s\<lparr>mScopeList := scs\<rparr>) =
      Inr ((), s\<lparr>mScopeList := scs[?p := t]\<rparr>)"
    "in_scope hash (s\<lparr>mScopeList := scs[?p := t]\<rparr>) ?p" "mset (scope_items t) = mset (map ?f [0..<length ?F])"
    using scs(4) by auto
  have len: "?p < length scs" using scs(2) by (simp add: in_scope_def)
  have "length (scope_items t) = length ?F" using arg_cong [OF t(3), of size] by simp
  then have "length (scope_items (mScopeList (s\<lparr>mScopeList := scs[?p := t]\<rparr>) ! ?p)) + length ?V < 2 ^ 28"
    using n len by simp
  from declare_for [OF t(2) this, of ?v] obtain u where u:
    "el_for (length ?V) (\<lambda>j. declare_in hash ?p (?v j)) (s\<lparr>mScopeList := scs[?p := t]\<rparr>) =
      Inr ((), s\<lparr>mScopeList := scs[?p := u]\<rparr>)"
    "in_scope hash (s\<lparr>mScopeList := scs[?p := u]\<rparr>) ?p"
    "mset (scope_items u) = mset (map ?v [0..<length ?V]) + mset (scope_items t)"
    using len by auto
  have funs: "el_for (length ?F) (\<lambda>j. el_bind (el_res (exported_function m j)) (\<lambda>func.
      declare_in hash ?p (FuncHandle (vf_name func) (vf_type func) i j))) =
    el_for (length ?F) (\<lambda>j. declare_in hash ?p (?f j))"
    by (rule el_for_cong) (simp add: fun_eq_iff exported_function_def exported_function_num_def)
  have vars: "el_for (length ?V) (\<lambda>j. el_bind (el_res (exported_variable m j)) (\<lambda>var.
      declare_in hash ?p (GlobalVarHandle (var_name var) (var_type var) i j))) =
    el_for (length ?V) (\<lambda>j. declare_in hash ?p (?v j))"
    by (rule el_for_cong) (simp add: fun_eq_iff exported_variable_def exported_variable_num_def)
  have "module2scope hash m name i s = Inr (?p, s\<lparr>mScopeList := scs[?p := u]\<rparr>)"
    using scs(1) t(1) u(1)
    by (simp add: module2scope_def assms(2) imported_module_num_def exported_function_num_def
        exported_variable_num_def el_seq_def funs vars)
  moreover have "mset (scope_items (scs[?p := u] ! ?p)) = mset (module_exports m i)"
    using u(3) t(3) len by (simp add: module_exports_def)
  ultimately show ?thesis using u(2) scs(3) by (intro exI [of _ "scs[?p := u]"]) simp
qed

lemma hit_new:
  assumes "scope_ok hash nm t" and "mset (scope_items t) = mset hs + mset old"
    and "distinct (map nm hs)" and "\<forall>x\<in>set old. nm x \<notin> nm ` set hs" and "h \<in> set hs"
  shows "hit hash nm (nm h) t = Some h"
proof -
  have set: "set (scope_items t) = set hs \<union> set old"
    using assms(2) by (metis mset_append mset_eq_setD set_append)
  obtain r where "scope_find_local hash nm (nm h) t = Inr r"
    "case r of None \<Rightarrow> \<forall>x \<in> set (scope_items t). nm x \<noteq> nm h
     | Some x \<Rightarrow> x \<in> set (scope_items t) \<and> nm x = nm h"
    using scope_find_local_ok [OF assms(1)] by blast
  then show ?thesis
    using assms(3-5) set by (cases r) (auto simp: hit_def distinct_map dest: inj_onD)
qed

lemmas hit_item = hit_new [where old = "[]", simplified]

lemma import_head_ok:
  assumes "in_scope hash s root" and "Ir_Decl.room s root" and "mModuleDict s name = None"
    and "import m ms = Some (Inr (Some q, ms'))" and "q < length ms'"
    and "mImportedModuleList (ms' ! q) = []" and "length (module_exports (ms' ! q) i) < 2 ^ 28"
  shows "\<exists>scs s' t. import_heads hash import name (Import m short # heads) i root s ms =
      import_heads hash import name heads (Suc i) root s' ms' \<and>
    mScopeList s' = scs[root := t] \<and> mTypeMgr s' = mTypeMgr s \<and> in_scope hash s' root \<and>
    take (length (mScopeList s)) scs = mScopeList s \<and> length (mScopeList s) < length scs \<and>
    scope_ok hash handle_name t \<and>
    mset (scope_items t) = add_mset (ScopeHandle (case short of None \<Rightarrow> m | Some a \<Rightarrow> a) (length (mScopeList s)))
      (mset (scope_items (mScopeList s ! root))) \<and>
    mset (scope_items (scs ! length (mScopeList s))) = mset (module_exports (ms' ! q) i) \<and>
    mModuleDict s' name = Some q \<and> mScopeDict s' q = Some (length (mScopeList s)) \<and>
    mFuncCallList s' = mFuncCallList s \<and> mUndefList s' = mUndefList s \<and>
    toplevel_block s' = (toplevel_block s)\<lparr>mModuleList := mModuleList (toplevel_block s) @ [q]\<rparr>"
proof -
  let ?p = "length (mScopeList s)" and ?m = "ms' ! q"
  let ?h = "ScopeHandle (case short of None \<Rightarrow> m | Some a \<Rightarrow> a) ?p"
  obtain scs where scs: "module2scope hash ?m name i s = Inr (?p, s\<lparr>mScopeList := scs\<rparr>)"
    "in_scope hash (s\<lparr>mScopeList := scs\<rparr>) ?p" "take ?p scs = mScopeList s"
    "mset (scope_items (scs ! ?p)) = mset (module_exports ?m i)"
    using module2scope_ok [OF assms(1,6,7)] by blast
  have len: "?p < length scs" using scs(2) by (simp add: in_scope_def)
  have root: "root < ?p" using assms(1) by (simp add: in_scope_def)
  have same: "scs ! root = mScopeList s ! root" using scs(3) root by (metis nth_take)
  let ?t = "s\<lparr>mScopeList := scs, mModuleDict := (mModuleDict s)(name \<mapsto> q),
    mScopeDict := (mScopeDict s)(q \<mapsto> ?p),
    toplevel_block := (toplevel_block s)\<lparr>mModuleList := mModuleList (toplevel_block s) @ [q]\<rparr>\<rparr>"
  have "in_scope hash ?t root" using scs(2) root len by (simp add: in_scope_def)
  moreover have "Ir_Decl.room ?t root" using assms(2) same by (simp add: Ir_Decl.room_def)
  ultimately obtain t where t: "declare_in hash root ?h ?t = Inr ((), ?t\<lparr>mScopeList := scs[root := t]\<rparr>)"
    "in_scope hash (?t\<lparr>mScopeList := scs[root := t]\<rparr>) root" "scope_ok hash handle_name t"
    "mset (scope_items t) = add_mset ?h (mset (scope_items (mScopeList s ! root)))"
    using declare_in_ok [of hash ?t root ?h] same by auto
  have "module_scope hash import name m i s ms = Some (Inr ((Some (q, ?p), s\<lparr>mScopeList := scs,
      mModuleDict := (mModuleDict s)(name \<mapsto> q), mScopeDict := (mScopeDict s)(q \<mapsto> ?p)\<rparr>), ms'))"
    using assms(3,4,5) scs(1)
    by (simp add: module_scope_def im_bind_def im_el_def im_call_def im_module_def el_get_def el_bind_def
        el_seq_def el_modify_def)
  then have "import_heads hash import name (Import m short # heads) i root s ms =
    import_heads hash import name heads (Suc i) root (?t\<lparr>mScopeList := scs[root := t]\<rparr>) ms'"
    using t(1)
    by (simp add: im_bind_def im_el_def im_ret_def el_seq_def add_imported_module_def el_modify_def el_bind_def)
  then show ?thesis
    using t(2-4) scs(3,4) len
    by (intro exI [of _ scs] exI [of _ "?t\<lparr>mScopeList := scs[root := t]\<rparr>"] exI [of _ t]) simp
qed

text \<open>
  The modules and aliases of import statements, and the name each of them binds.
\<close>

definition import_list :: "(string \<times> string option) list \<Rightarrow> ast_stmt list" where
  "import_list ims = map (\<lambda>(m, short). Import m short) ims"

fun alias_of :: "string \<times> string option \<Rightarrow> string" where
  "alias_of (m, short) = (case short of None \<Rightarrow> m | Some a \<Rightarrow> a)"

lemma import_list_simps [simp]:
  "import_list [] = []" "import_list ((m, short) # ims) = Import m short # import_list ims"
  by (simp_all add: import_list_def)

text \<open>Once a module is in the dictionary, later statements load nothing: each binds the same scope.\<close>

lemma later_import_step:
  assumes "mModuleDict s name = Some q" and "mScopeDict s q = Some p"
    and "declare_in hash root (ScopeHandle (alias_of (m, short)) p)
      (s\<lparr>toplevel_block := (toplevel_block s)\<lparr>mModuleList := mModuleList (toplevel_block s) @ [q]\<rparr>\<rparr>) = Inr ((), s')"
  shows "import_heads hash import name (Import m short # heads) i root s ms =
    import_heads hash import name heads (Suc i) root s' ms"
  using assms
  by (simp add: module_scope_def im_bind_def im_el_def im_ret_def el_get_def el_bind_def el_seq_def
      add_imported_module_def el_modify_def)

lemma later_imports:
  assumes "in_scope hash s root" and "mModuleDict s name = Some q" and "mScopeDict s q = Some p"
    and "length (scope_items (mScopeList s ! root)) + length ims < 2 ^ 28"
  shows "\<exists>t s'. import_heads hash import name (import_list ims) i root s ms = Some (Inr ((True, s'), ms)) \<and>
    mScopeList s' = (mScopeList s)[root := t] \<and> in_scope hash s' root \<and>
    mset (scope_items t) =
      mset (map (\<lambda>x. ScopeHandle (alias_of x) p) ims) + mset (scope_items (mScopeList s ! root)) \<and>
    mModuleList (toplevel_block s') = mModuleList (toplevel_block s) @ replicate (length ims) q"
  using assms
proof (induction ims arbitrary: s i)
  case Nil
  then show ?case
    by (intro exI [of _ "mScopeList s ! root"] exI [of _ s]) (simp add: im_ret_def)
next
  case (Cons x ims)
  obtain m short where x: "x = (m, short)" by force
  let ?u = "s\<lparr>toplevel_block := (toplevel_block s)\<lparr>mModuleList := mModuleList (toplevel_block s) @ [q]\<rparr>\<rparr>"
  have root: "root < length (mScopeList s)" using Cons.prems(1) by (simp add: in_scope_def)
  have "in_scope hash ?u root" "Ir_Decl.room ?u root"
    using Cons.prems(1,4) by (simp_all add: in_scope_def Ir_Decl.room_def)
  from declare_in_ok [OF this, of "ScopeHandle (alias_of x) p"] obtain t where t:
    "declare_in hash root (ScopeHandle (alias_of x) p) ?u = Inr ((), ?u\<lparr>mScopeList := (mScopeList s)[root := t]\<rparr>)"
    "in_scope hash (?u\<lparr>mScopeList := (mScopeList s)[root := t]\<rparr>) root"
    "mset (scope_items t) = add_mset (ScopeHandle (alias_of x) p) (mset (scope_items (mScopeList s ! root)))"
    by auto
  let ?v = "?u\<lparr>mScopeList := (mScopeList s)[root := t]\<rparr>"
  have "length (scope_items t) = Suc (length (scope_items (mScopeList s ! root)))"
    using t(3) by (metis size_add_mset size_mset)
  then have "length (scope_items (mScopeList ?v ! root)) + length ims < 2 ^ 28"
    using Cons.prems(4) root by simp
  from Cons.IH [OF t(2) _ _ this, of "Suc i"] Cons.prems(2,3) obtain t' s' where s':
    "import_heads hash import name (import_list ims) (Suc i) root ?v ms = Some (Inr ((True, s'), ms))"
    "mScopeList s' = (mScopeList s)[root := t']" "in_scope hash s' root"
    "mset (scope_items t') = mset (map (\<lambda>x. ScopeHandle (alias_of x) p) ims) + mset (scope_items t)"
    "mModuleList (toplevel_block s') = mModuleList (toplevel_block s) @ q # replicate (length ims) q"
    using root by auto
  have "import_heads hash import name (import_list (x # ims)) i root s ms = Some (Inr ((True, s'), ms))"
    unfolding x import_list_simps
    using later_import_step [OF Cons.prems(2,3) t(1) [unfolded x]] s'(1) x by metis
  then show ?case using s'(2-5) t(3) by (intro exI [of _ t'] exI [of _ s']) simp
qed

lemma import_list_ok:
  assumes "in_scope hash s root" and "mModuleDict s name = None"
    and "length (scope_items (mScopeList s ! root)) + Suc (length ims) < 2 ^ 28"
    and "import m ms = Some (Inr (Some q, ms'))" and "q < length ms'"
    and "mImportedModuleList (ms' ! q) = []" and "length (module_exports (ms' ! q) i) < 2 ^ 28"
  shows "\<exists>s' t scs. import_heads hash import name (import_list ((m, short) # ims)) i root s ms =
      Some (Inr ((True, s'), ms')) \<and> in_scope hash s' root \<and> mScopeList s' = scs[root := t] \<and>
    length (mScopeList s) < length scs \<and>
    mset (scope_items (scs ! length (mScopeList s))) = mset (module_exports (ms' ! q) i) \<and>
    mset (scope_items t) = mset (map (\<lambda>x. ScopeHandle (alias_of x) (length (mScopeList s))) ((m, short) # ims))
      + mset (scope_items (mScopeList s ! root)) \<and>
    mModuleList (toplevel_block s') = mModuleList (toplevel_block s) @ replicate (Suc (length ims)) q"
proof -
  let ?p = "length (mScopeList s)"
  have "Ir_Decl.room s root" using assms(3) by (simp add: Ir_Decl.room_def)
  note head = import_head_ok [of hash s root name import m ms q ms' i short "import_list ims",
      OF assms(1) this assms(2,4-7)]
  obtain scs u t where u: "import_heads hash import name (Import m short # import_list ims) i root s ms =
      import_heads hash import name (import_list ims) (Suc i) root u ms'"
    "mScopeList u = scs[root := t]" "in_scope hash u root" "?p < length scs"
    "mset (scope_items t) = add_mset (ScopeHandle (alias_of (m, short)) ?p) (mset (scope_items (mScopeList s ! root)))"
    "mset (scope_items (scs ! ?p)) = mset (module_exports (ms' ! q) i)"
    "mModuleDict u name = Some q" "mScopeDict u q = Some ?p"
    "mModuleList (toplevel_block u) = mModuleList (toplevel_block s) @ [q]"
    using head by auto
  have root: "root < ?p" using assms(1) by (simp add: in_scope_def)
  have "length (scope_items t) = Suc (length (scope_items (mScopeList s ! root)))"
    using u(5) by (metis size_add_mset size_mset)
  then have "length (scope_items (mScopeList u ! root)) + length ims < 2 ^ 28"
    using assms(3) root u(2,4) by simp
  from later_imports [OF u(3,7,8) this, of import "Suc i" ms'] obtain t' s' where s':
    "import_heads hash import name (import_list ims) (Suc i) root u ms' = Some (Inr ((True, s'), ms'))"
    "mScopeList s' = (mScopeList u)[root := t']" "in_scope hash s' root"
    "mset (scope_items t') =
      mset (map (\<lambda>x. ScopeHandle (alias_of x) ?p) ims) + mset (scope_items (mScopeList u ! root))"
    "mModuleList (toplevel_block s') = mModuleList (toplevel_block u) @ replicate (length ims) q"
    by blast
  have "mScopeList s' = scs[root := t']" using s'(2) u(2) by simp
  then show ?thesis
    using u(1,4-6,9) s' u(2) root
    by (intro exI [of _ s'] exI [of _ t'] exI [of _ scs]) simp
qed

text \<open>
  C16: the names of an imported module. Let the import statements of a module bind different free
  names, let the module of the first statement be found, import nothing itself and export functions
  and variables of different names. Then all statements succeed, only the first loads a module, and
  each of the names they bind, of the first statement as of every later one, whatever module it
  asks for, is bound to the names of this first module: each of its exports is found as a member
  under each name, with its position as local index.
\<close>

theorem imported_names_found:
  assumes "in_scope hash s root" and "mModuleDict s name = None"
    and "length (scope_items (mScopeList s ! root)) + Suc (length ims) < 2 ^ 28"
    and "import m ms = Some (Inr (Some q, ms'))" and "q < length ms'"
    and "mImportedModuleList (ms' ! q) = []" and "length (module_exports (ms' ! q) i) < 2 ^ 28"
    and "distinct (map handle_name (module_exports (ms' ! q) i))"
    and "distinct (map alias_of ((m, short) # ims))"
    and "\<forall>x\<in>set ((m, short) # ims). free_name hash s root (alias_of x)"
  shows "\<exists>s'. import_heads hash import name (import_list ((m, short) # ims)) i root s ms =
      Some (Inr ((True, s'), ms')) \<and>
    mModuleList (toplevel_block s') = mModuleList (toplevel_block s) @ replicate (Suc (length ims)) q \<and>
    (\<forall>x\<in>set ((m, short) # ims). \<forall>h\<in>set (module_exports (ms' ! q) i).
      elab_primary hash (MemberRefE (SymbolE (alias_of x)) (handle_name h)) root s' = Inr (Some h, s'))"
proof -
  let ?p = "length (mScopeList s)" and ?ims = "(m, short) # ims"
  let ?hs = "map (\<lambda>x. ScopeHandle (alias_of x) ?p) ?ims"
  obtain s' t scs where s': "import_heads hash import name (import_list ?ims) i root s ms =
      Some (Inr ((True, s'), ms'))" "in_scope hash s' root" "mScopeList s' = scs[root := t]" "?p < length scs"
    "mset (scope_items (scs ! ?p)) = mset (module_exports (ms' ! q) i)"
    "mset (scope_items t) = mset ?hs + mset (scope_items (mScopeList s ! root))"
    "mModuleList (toplevel_block s') = mModuleList (toplevel_block s) @ replicate (Suc (length ims)) q"
    using import_list_ok [of hash s root name ims import m ms q ms' i short, OF assms(1-7)] by blast
  have root: "root < ?p" and old: "scope_ok hash handle_name (mScopeList s ! root)"
    using assms(1) by (auto simp: in_scope_def scopes_okD(1))
  have in_p: "in_scope hash s' ?p" using s'(2-4) by (simp add: in_scope_def)
  have scopes: "scopes_ok hash handle_name (scs[root := t])" using s'(2,3) by (simp add: in_scope_def)
  have ok: "scope_ok hash handle_name t" "scope_ok hash handle_name (scs ! ?p)"
    using scopes_okD(1) [OF scopes, of root] scopes_okD(1) [OF scopes, of ?p] s'(4) root by simp_all
  have names: "handle_name ` set ?hs = alias_of ` set ?ims" "distinct (map handle_name ?hs)"
    using assms(9) by (simp_all add: image_image comp_def)
  have "\<forall>y\<in>set (scope_items (mScopeList s ! root)). handle_name y \<notin> handle_name ` set ?hs"
    unfolding names using hit_other [OF old] assms(10) by (auto simp: free_name_def)
  note bound = hit_new [OF ok(1) s'(6) names(2) this]
  have alias_found: "scope_env hash s' root (alias_of x) = Some (ScopeHandle (alias_of x) ?p)"
    if "x \<in> set ?ims" for x
    using bound [of "ScopeHandle (alias_of x) ?p"] that root s'(3,4) by (intro env_local) auto
  have "scope_env hash s' ?p (handle_name h) = Some h" if "h \<in> set (module_exports (ms' ! q) i)" for h
    using hit_item [OF ok(2) s'(5) assms(8) that] root s'(3,4) by (intro env_local) simp
  then show ?thesis
    using s'(1,2,7) in_p alias_found by (intro exI [of _ s']) (simp add: member_ref_def)
qed

section \<open>Modules without imports\<close>

lemma compile_no_imports:
  assumes "read_source env ido = Some (Inr (True, Some (Toplevel [] stmts)))"
  obtains m scs where "in_scope (env_hash env) (fresh_mgr m scs) 0" and "scope_items (scs ! 0) = []"
    and "scope_chain scs 0 = [0]" and "length scs = 1"
    and "compile_from env import ido name ms =
      (case elaborate_body (env_hash env) stmts 0 (fresh_mgr m scs) of
         Inl e \<Rightarrow> Some (Inl e)
       | Inr (defined, s) \<Rightarrow>
           if \<not> defined then Some (Inr (None, ms))
           else Some (res_bind (code_gen (toplevel_block s) name) (\<lambda>module.
             Inr (Some (length ms), ms @ [module_freed module]))))"
proof -
  obtain m where new: "IrMgr_new = Inr (fresh_mgr m [])" and m: "tm_ok m"
    using IrMgr_new_ok by blast
  obtain scs where scs: "open_scope (env_hash env) None name (fresh_mgr m []) = Inr (0, fresh_mgr m scs)"
    "length scs = 1" "scopes_ok (env_hash env) handle_name scs" "scope_items (scs ! 0) = []"
    "scope_chain scs 0 = [0]"
    using open_first_scope by blast
  show thesis
  proof (rule that)
    show "in_scope (env_hash env) (fresh_mgr m scs) 0" using scs(2,3) m by (simp add: in_scope_def)
    show "compile_from env import ido name ms =
      (case elaborate_body (env_hash env) stmts 0 (fresh_mgr m scs) of
         Inl e \<Rightarrow> Some (Inl e)
       | Inr (defined, s) \<Rightarrow>
           if \<not> defined then Some (Inr (None, ms))
           else Some (res_bind (code_gen (toplevel_block s) name) (\<lambda>module.
             Inr (Some (length ms), ms @ [module_freed module]))))"
      by (simp add: compile_from_def assms new elaborate_def im_bind_def im_el_def im_ret_def
          el_seq_def el_bind_def el_modify_def el_get_def scs(1) split: sum.split)
  qed (use scs in simp_all)
qed

lemma fresh_name:
  assumes "in_scope hash (fresh_mgr m scs) 0" and "scope_items (scs ! 0) = []" and "scope_chain scs 0 = [0]"
  shows "scope_env hash (fresh_mgr m scs) 0 x = None"
proof -
  have "scope_ok hash handle_name (scs ! 0)" using assms(1) by (auto simp: in_scope_def scopes_okD(1))
  then have "hit hash handle_name x (scs ! 0) = None"
    using scope_find_local_ok [of hash handle_name "scs ! 0" x] assms(2) by (auto simp: hit_def split: option.splits)
  with assms(3) show ?thesis by (simp add: scope_env_def)
qed

text \<open>
  C18: an expression statement whose expression has no node crashes the compiler. A module that
  consists of a name that is not declared elaborates to a block with a null pointer, which code
  generation dereferences.
\<close>

theorem undeclared_name_crashes:
  assumes "read_source env ido = Some (Inr (True, Some (Toplevel [] [ExprStmt (SymbolE x)])))"
  shows "compile env fuel ido name ms = Some (Inl NullDeref)"
proof -
  obtain m scs where in_s: "in_scope (env_hash env) (fresh_mgr m scs) 0"
    and empty: "scope_items (scs ! 0) = []" "scope_chain scs 0 = [0]"
    and run: "compile env fuel ido name ms =
      (case elaborate_body (env_hash env) [ExprStmt (SymbolE x)] 0 (fresh_mgr m scs) of
         Inl e \<Rightarrow> Some (Inl e)
       | Inr (defined, s) \<Rightarrow>
           if \<not> defined then Some (Inr (None, ms))
           else Some (res_bind (code_gen (toplevel_block s) name) (\<lambda>module.
             Inr (Some (length ms), ms @ [module_freed module]))))"
    unfolding compile_def by (rule compile_no_imports [OF assms])
  have "elab_stmt (env_hash env) (ExprStmt (SymbolE x)) 0 None None TopBlock (fresh_mgr m scs) =
    add_node TopBlock None (fresh_mgr m scs)"
    using in_s fresh_name [OF in_s empty] by simp
  then have "\<exists>s. elaborate_body (env_hash env) [ExprStmt (SymbolE x)] 0 (fresh_mgr m scs) = Inr (True, s) \<and>
    mNodeList (top_code (toplevel_block s)) = [None]"
    by (simp add: elaborate_body_def el_seq_def el_bind_def el_ret_def el_get_def add_node_def on_block_def
        block_of_def set_block_def new_Toplevel_def fresh_mgr_def del: elab_stmt.simps)
  then show ?thesis by (auto simp: run code_gen_def gen_block_def)
qed

section \<open>Witnesses\<close>

text \<open>
  Two sources: \<^verbatim>\<open>lib\<close> declares nothing, the other imports it. The parser knows the two by their first
  token.
\<close>

definition two_files :: comp_env where
  "two_files = \<lparr>env_hash = (\<lambda>_. 0), env_code = token_code, env_strtod = (\<lambda>_. 0),
     env_yyparse = (\<lambda>ts. (0, Some (Toplevel (if ts = [] then [] else [Import ''lib'' None]) []))),
     env_search = Some,
     env_open = (\<lambda>path. if path = ''lib.ym'' then Some '''' else None)\<rparr>"

lemma compile_empty:
  assumes "read_source env ido = Some (Inr (True, Some (Toplevel [] [])))"
  shows "compile_from env import ido name ms =
    Some (Inr (Some (length ms), ms @ [module_freed (generated new_Toplevel name)]))"
proof -
  obtain m scs where "compile_from env import ido name ms =
      (case elaborate_body (env_hash env) [] 0 (fresh_mgr m scs) of
         Inl e \<Rightarrow> Some (Inl e)
       | Inr (defined, s) \<Rightarrow>
           if \<not> defined then Some (Inr (None, ms))
           else Some (res_bind (code_gen (toplevel_block s) name) (\<lambda>module.
             Inr (Some (length ms), ms @ [module_freed module]))))"
    by (rule compile_no_imports [OF assms])
  moreover have "elaborate_body (env_hash env) [] 0 (fresh_mgr m scs) = Inr (True, fresh_mgr m scs)"
    by (simp add: elaborate_body_def el_seq_def el_bind_def el_get_def)
  moreover have "code_gen new_Toplevel name = Inr (generated new_Toplevel name)"
    by (rule code_gen_ok) (simp add: generable_def new_Toplevel_def)
  ultimately show ?thesis by simp
qed

text \<open>A module whose only statement imports a module that exports nothing.\<close>

lemma compile_one_import:
  assumes "read_source env ido = Some (Inr (True, Some (Toplevel [Import m None] [])))"
    and "import m ms = Some (Inr (Some q, ms'))" and "q < length ms'"
    and "mImportedModuleList (ms' ! q) = []" and "length (module_exports (ms' ! q) 1) < 2 ^ 28"
  shows "compile_from env import ido name ms = Some (Inr (Some (length ms'),
    ms' @ [module_freed (generated (new_Toplevel\<lparr>mModuleList := [q]\<rparr>) name)]))"
proof -
  let ?t = "new_Toplevel\<lparr>mModuleList := [q]\<rparr>"
  obtain tm where new: "IrMgr_new = Inr (fresh_mgr tm [])" and tm: "tm_ok tm"
    using IrMgr_new_ok by blast
  obtain scs where scs: "open_scope (env_hash env) None name (fresh_mgr tm []) = Inr (0, fresh_mgr tm scs)"
    "length scs = 1" "scopes_ok (env_hash env) handle_name scs" "scope_items (scs ! 0) = []"
    using open_first_scope by blast
  have in_s: "in_scope (env_hash env) (fresh_mgr tm scs) 0" "Ir_Decl.room (fresh_mgr tm scs) 0"
    using scs tm by (simp_all add: in_scope_def Ir_Decl.room_def)
  obtain s where s: "import_heads (env_hash env) import name [Import m None] 1 0 (fresh_mgr tm scs) ms =
      Some (Inr ((True, s), ms'))"
    "mFuncCallList s = []" "mUndefList s = []" "toplevel_block s = ?t"
    using import_head_ok [of "env_hash env" "fresh_mgr tm scs" 0 name import m ms q ms' 1 None "[]",
        OF in_s _ assms(2-5)] by (auto simp: new_Toplevel_def im_ret_def simp del: One_nat_def)
  have body: "elaborate_body (env_hash env) [] 0 s = Inr (True, s)"
    using s(2,3) by (simp add: elaborate_body_def el_seq_def el_bind_def el_get_def)
  have gen: "code_gen ?t name = Inr (generated ?t name)"
    by (rule code_gen_ok) (simp add: generable_def new_Toplevel_def)
  show ?thesis
    by (simp add: compile_from_def assms(1) new elaborate_def im_bind_def im_el_def im_ret_def
        el_seq_def el_bind_def el_modify_def el_get_def scs(1) s(1,4) body gen
        del: import_heads.simps One_nat_def)
qed

lemma two_files_compiled:
  "\<exists>lib main. compile two_files 1 ''import lib;'' ''main'' [] = Some (Inr (Some 1, [lib, main])) \<and>
    mImportedModuleList main = [0]"
proof -
  have lib: "read_source two_files '''' = Some (Inr (True, Some (Toplevel [] [])))"
    by (simp add: read_source_text two_files_def)
  have "text_tokens ''import lib;'' \<noteq> []"
    by code_simp
  then have "lexed (env_strtod two_files) ''import lib;'' \<noteq> []"
    by (simp add: lexed_def)
  then have main: "read_source two_files ''import lib;'' =
      Some (Inr (True, Some (Toplevel [Import ''lib'' None] [])))"
    by (simp add: read_source_text two_files_def)
  let ?lib = "module_freed (generated new_Toplevel ''lib'')"
  have import: "import_module two_files 1 ''lib'' [] = Some (Inr (Some 0, [?lib]))"
    using compile_empty [OF lib] by (simp add: two_files_def)
  have "mImportedModuleList ?lib = []" "module_exports ?lib 1 = []"
    by (simp_all add: module_freed_def generated_def new_Toplevel_def module_exports_def)
  then show ?thesis
    using compile_one_import [of two_files _ "''lib''" "import_module two_files 1" "[]" 0, OF main import] by (simp add: compile_def module_freed_def generated_def)
qed

theorem compiled_imports_witness:
  "\<exists>p ms. compile two_files 1 ''import lib;'' ''main'' [] = Some (Inr (Some p, ms)) \<and>
    (\<exists>q < p. set (mImportedModuleList (ms ! p)) = {q} \<and> mImportedModuleList (ms ! q) = [])"
proof -
  obtain lib main where *: "compile two_files 1 ''import lib;'' ''main'' [] = Some (Inr (Some 1, [lib, main]))"
    "mImportedModuleList main = [0]"
    using two_files_compiled by blast
  with compiled_imports [OF *(1)] show ?thesis by auto
qed

theorem compiled_code_empty_witness:
  "\<exists>p ms. compile two_files 1 ''import lib;'' ''main'' [] = Some (Inr (Some p, ms)) \<and>
    execute_toplevel 1 (ms ! p) Vsm_new = Some (Inr Vsm_new)"
proof -
  obtain lib main where *: "compile two_files 1 ''import lib;'' ''main'' [] = Some (Inr (Some 1, [lib, main]))"
    using two_files_compiled by blast
  with compiled_code_empty [OF *, of 0 Vsm_new] show ?thesis by auto
qed

text \<open>The source \<^verbatim>\<open>x;\<close> read by a parser that returns its tree.\<close>

theorem undeclared_name_crashes_witness:
  "compile (two_files\<lparr>env_yyparse := \<lambda>_. (0, Some (Toplevel [] [ExprStmt (SymbolE ''x'')]))\<rparr>) 0 ''x;'' ''main'' [] =
    Some (Inl NullDeref)"
  by (rule undeclared_name_crashes) (simp add: read_source_text two_files_def)

text \<open>
  A module with a function and a variable, imported as \<^verbatim>\<open>l\<close> into the sample module, and a second
  import of another module, which is not loaded.
\<close>

definition demo_lib :: vsm_module where
  "demo_lib = \<lparr>mod_name = ''lib'', mImportedModuleList = [],
    mExportedFuncs = [NativeFunc ''f'' dangling no_code], mExportedVarList = [\<lparr>var_name = ''v'', var_type = dangling\<rparr>],
    mToplevelCode = no_code\<rparr>"

theorem imported_names_found_witness:
  "\<exists>s'. import_heads (\<lambda>_. 0) (\<lambda>m ms. if m = ''lib'' then Some (Inr (Some (length ms), ms @ [demo_lib])) else None)
      ''main'' [Import ''lib'' (Some ''l''), Import ''b'' None] 1 0 demo_ir [] = Some (Inr ((True, s'), [demo_lib])) \<and>
    elab_primary (\<lambda>_. 0) (MemberRefE (SymbolE ''l'') ''f'') 0 s' = Inr (Some (FuncHandle ''f'' dangling 1 0), s') \<and>
    elab_primary (\<lambda>_. 0) (MemberRefE (SymbolE ''b'') ''v'') 0 s' = Inr (Some (GlobalVarHandle ''v'' dangling 1 0), s')"
proof -
  let ?import = "\<lambda>m ms. if m = ''lib'' then Some (Inr (Some (length ms), ms @ [demo_lib])) else None"
  have exports: "module_exports demo_lib 1 = [FuncHandle ''f'' dangling 1 0, GlobalVarHandle ''v'' dangling 1 0]"
    by (simp add: module_exports_def demo_lib_def)
  have small: "length (scope_items (mScopeList demo_ir ! 0)) + Suc (length [(''b'', None)]) < 2 ^ 28"
    by (simp add: demo_ir_def demo_scope_def empty_scope_def scope_items_def)
  have free: "free_name (\<lambda>_. 0) demo_ir 0 ''l''" "free_name (\<lambda>_. 0) demo_ir 0 ''b''"
    by (simp_all add: free_name_def demo_ir_def hit_def scope_find_local_def demo_scope_def empty_scope_def u_mod_def)
  have dict: "mModuleDict demo_ir ''main'' = None" by (simp add: demo_ir_def)
  have lib: "mImportedModuleList demo_lib = []" by (simp add: demo_lib_def)
  from imported_names_found [of "\<lambda>_. 0" demo_ir 0 "''main''" "[(''b'', None)]" ?import "''lib''" "[]" 0
        "[demo_lib]" 1 "Some ''l''", OF demo_in_scope dict small] exports lib free
  show ?thesis by (auto simp del: import_heads.simps elab_primary.simps)
qed

end
