(* ===== verification/Ast_Class.thy ===== *)
theory Ast_Class
  imports Ast_Printer Ir_Interp
begin

text \<open>
  The classes of the syntax tree (\<^verbatim>\<open>src/ast/expr\<close>, \<^verbatim>\<open>src/ast/type\<close>, \<^verbatim>\<open>src/ast/stmt\<close>) as objects: a record of
  the answers of the virtual functions. A base class asserts in nearly all of them, and each class
  overrides the ones its trees have. The printer of the syntax tree is then written over these
  objects, as \<^verbatim>\<open>src/ast/AstPrinter.cc\<close> is, and shown to be the function \<open>Ast_Printer\<close> defines over the
  trees.
\<close>

text \<open>An element of an array, after the assertion that the position is below the size.\<close>

definition elem_at :: "'a list \<Rightarrow> nat \<Rightarrow> 'a res" where
  "elem_at xs pos = res_bind (assert_cond (pos < length xs)) (\<lambda>_. arr_get xs (int pos))"

lemma elem_at_nth [simp]: "pos < length xs \<Longrightarrow> elem_at xs pos = Inr (xs ! pos)"
  by (simp add: elem_at_def arr_get_def assert_cond_def)

section \<open>Expressions\<close>

datatype expr_kind =
    eTrue | eFalse | eIntConst | eFloatConst | eStringConst | eSymbolExpr | eArrayRef | eMemberRef
  | eUniOp | eBinOp | eTriOp | eFuncCall

record expr_obj =
  expr_type :: expr_kind
  e_int_val :: "i32 res"
  e_float_val :: "f64 res"
  e_string_val :: "string res"
  e_symbol :: "string res"
  e_body :: "ast_expr res"
  e_member :: "string res"
  e_index :: "ast_expr res"
  e_opcode :: "op_code res"
  e_operand_num :: nat
  e_operand :: "nat \<Rightarrow> ast_expr res"
  e_func :: "ast_expr res"
  e_arglist_num :: "nat res"
  e_arglist_elem :: "nat \<Rightarrow> ast_expr res"

definition AstExpr :: "expr_kind \<Rightarrow> expr_obj" where
  "AstExpr k =
     \<lparr>expr_type = k, e_int_val = Inl AssertFail, e_float_val = Inl AssertFail,
      e_string_val = Inl AssertFail, e_symbol = Inl AssertFail, e_body = Inl AssertFail,
      e_member = Inl AssertFail, e_index = Inl AssertFail, e_opcode = Inl AssertFail,
      e_operand_num = 0, e_operand = \<lambda>pos. Inl AssertFail, e_func = Inl AssertFail,
      e_arglist_num = Inl AssertFail, e_arglist_elem = \<lambda>pos. Inl AssertFail\<rparr>"

definition AstOp :: "expr_kind \<Rightarrow> op_code \<Rightarrow> expr_obj" where
  "AstOp k opcode = (AstExpr k)\<lparr>e_opcode := Inr opcode\<rparr>"

definition AstTrue :: "expr_obj" where
  "AstTrue = AstExpr eTrue"

definition AstFalse :: "expr_obj" where
  "AstFalse = AstExpr eFalse"

definition AstIntConst :: "i32 \<Rightarrow> expr_obj" where
  "AstIntConst val = (AstExpr eIntConst)\<lparr>e_int_val := Inr val\<rparr>"

definition AstFloatConst :: "f64 \<Rightarrow> expr_obj" where
  "AstFloatConst val = (AstExpr eFloatConst)\<lparr>e_float_val := Inr val\<rparr>"

definition AstStringConst :: "string \<Rightarrow> expr_obj" where
  "AstStringConst val = (AstExpr eStringConst)\<lparr>e_string_val := Inr val\<rparr>"

definition AstSymbolExpr :: "string \<Rightarrow> expr_obj" where
  "AstSymbolExpr symbol = (AstExpr eSymbolExpr)\<lparr>e_symbol := Inr symbol\<rparr>"

definition AstArrayRef :: "ast_expr \<Rightarrow> ast_expr \<Rightarrow> expr_obj" where
  "AstArrayRef body index = (AstExpr eArrayRef)
     \<lparr>e_body := Inr body, e_index := Inr index\<rparr>"

definition AstMemberRef :: "ast_expr \<Rightarrow> string \<Rightarrow> expr_obj" where
  "AstMemberRef body member = (AstExpr eMemberRef)
     \<lparr>e_body := Inr body, e_member := Inr member\<rparr>"

text \<open>The assertion of a unary operator lets the position 1 pass.\<close>

definition AstUniOp :: "op_code \<Rightarrow> ast_expr \<Rightarrow> expr_obj" where
  "AstUniOp opcode opr = (AstOp eUniOp opcode)
     \<lparr>e_operand_num := 1,
      e_operand := \<lambda>pos. res_bind (assert_cond (pos \<le> 1)) (\<lambda>_. Inr opr)\<rparr>"

definition AstBinOp ::
  "op_code \<Rightarrow> ast_expr \<Rightarrow> ast_expr \<Rightarrow> expr_obj" where
  "AstBinOp opcode left right = (AstOp eBinOp opcode)
     \<lparr>e_operand_num := 2,
      e_operand := \<lambda>pos. if pos = 0 then Inr left else if pos = 1 then Inr right else Inl AssertFail\<rparr>"

definition AstIteOp ::
  "ast_expr \<Rightarrow> ast_expr \<Rightarrow> ast_expr \<Rightarrow> expr_obj" where
  "AstIteOp opr1 opr2 opr3 = (AstOp eTriOp kOpIte)
     \<lparr>e_operand_num := 3, e_operand := elem_at [opr1, opr2, opr3]\<rparr>"

definition AstFuncCall :: "ast_expr \<Rightarrow> ast_expr list \<Rightarrow> expr_obj" where
  "AstFuncCall func expr_list = (AstExpr eFuncCall)
     \<lparr>e_func := Inr func, e_arglist_num := Inr (length expr_list),
      e_arglist_elem := elem_at expr_list\<rparr>"

fun as_expr :: "ast_expr \<Rightarrow> expr_obj" where
  "as_expr TrueE = AstTrue"
| "as_expr FalseE = AstFalse"
| "as_expr (IntConstE val) = AstIntConst val"
| "as_expr (FloatConstE val) = AstFloatConst val"
| "as_expr (StringConstE val) = AstStringConst val"
| "as_expr (SymbolE symbol) = AstSymbolExpr symbol"
| "as_expr (ArrayRefE body index) = AstArrayRef body index"
| "as_expr (MemberRefE body member) = AstMemberRef body member"
| "as_expr (UniOpE opcode opr) = AstUniOp opcode opr"
| "as_expr (BinOpE opcode left right) = AstBinOp opcode left right"
| "as_expr (IteOpE opr1 opr2 opr3) = AstIteOp opr1 opr2 opr3"
| "as_expr (FuncCallE func expr_list) = AstFuncCall func expr_list"

section \<open>Types\<close>

record type_obj =
  type_kind :: type_id
  t_key_type :: "ast_type res"
  t_elem_type :: "ast_type res"
  t_name :: "ast_expr res"

definition AstType :: "type_id \<Rightarrow> type_obj" where
  "AstType k =
     \<lparr>type_kind = k, t_key_type = Inl AssertFail, t_elem_type = Inl AssertFail,
      t_name = Inl AssertFail\<rparr>"

definition AstPrimType :: "type_id \<Rightarrow> type_obj" where
  "AstPrimType t = AstType t"

definition AstNamedType :: "ast_expr \<Rightarrow> type_obj" where
  "AstNamedType name = (AstType kNamedType)\<lparr>t_name := Inr name\<rparr>"

definition AstArrayType :: "ast_type \<Rightarrow> type_obj" where
  "AstArrayType elem = (AstType kArrayType)\<lparr>t_elem_type := Inr elem\<rparr>"

definition AstSetType :: "ast_type \<Rightarrow> type_obj" where
  "AstSetType elem = (AstType kSetType)\<lparr>t_elem_type := Inr elem\<rparr>"

definition AstMapType :: "ast_type \<Rightarrow> ast_type \<Rightarrow> type_obj" where
  "AstMapType key elem = (AstType kMapType)
     \<lparr>t_key_type := Inr key, t_elem_type := Inr elem\<rparr>"

fun as_type :: "ast_type \<Rightarrow> type_obj" where
  "as_type (PrimT t) = AstPrimType t"
| "as_type (NamedT name) = AstNamedType name"
| "as_type (ArrayT elem) = AstArrayType elem"
| "as_type (SetT elem) = AstSetType elem"
| "as_type (MapT key elem) = AstMapType key elem"

section \<open>Statements\<close>

datatype stmt_kind =
    sBlock | sBreak | sConstDecl | sContinue | sDecr | sDoWhile | sEnumDecl | sAssignment
  | sInplaceOp | sExpr | sFor | sFuncDecl | sGoto | sIf | sIncr | sImport | sLabel | sNullStmt
  | sReturn | sSwitch | sToplevel | sVarDecl | sWhile

fun show_stmt_kind :: "stmt_kind \<Rightarrow> string" where
  "show_stmt_kind sBlock = ''Block''"
| "show_stmt_kind sBreak = ''Break''"
| "show_stmt_kind sConstDecl = ''ConstDecl''"
| "show_stmt_kind sContinue = ''Continue''"
| "show_stmt_kind sDecr = ''Decr''"
| "show_stmt_kind sDoWhile = ''DoWhile''"
| "show_stmt_kind sEnumDecl = ''EnumDecl''"
| "show_stmt_kind sAssignment = ''Assignment''"
| "show_stmt_kind sInplaceOp = ''InplaceOp''"
| "show_stmt_kind sExpr = ''Expr''"
| "show_stmt_kind sFor = ''For''"
| "show_stmt_kind sFuncDecl = ''FuncDecl''"
| "show_stmt_kind sGoto = ''Goto''"
| "show_stmt_kind sIf = ''If''"
| "show_stmt_kind sIncr = ''Incr''"
| "show_stmt_kind sImport = ''Import''"
| "show_stmt_kind sLabel = ''Label''"
| "show_stmt_kind sNullStmt = ''NullStmt''"
| "show_stmt_kind sReturn = ''Return''"
| "show_stmt_kind sSwitch = ''Switch''"
| "show_stmt_kind sToplevel = ''Topleevel''"
| "show_stmt_kind sVarDecl = ''VarDecl''"
| "show_stmt_kind sWhile = ''While''"

record stmt_obj =
  stmt_type :: stmt_kind
  s_name :: "string res"
  s_type :: "ast_type res"
  s_param_num :: "nat res"
  s_param_name :: "nat \<Rightarrow> string res"
  s_param_type :: "nat \<Rightarrow> ast_type res"
  s_param_expr :: "nat \<Rightarrow> ast_expr option res"
  s_enum_num :: "nat res"
  s_enum_const :: "nat \<Rightarrow> string res"
  s_enum_const_expr :: "nat \<Rightarrow> ast_expr option res"
  s_opcode :: "op_code res"
  s_lhs_expr :: "ast_expr res"
  s_expr :: "ast_expr option res"
  s_headlist_num :: "nat res"
  s_headlist_elem :: "nat \<Rightarrow> ast_stmt res"
  s_stmtlist_num :: "nat res"
  s_stmtlist_elem :: "nat \<Rightarrow> ast_stmt res"
  s_stmt :: "ast_stmt res"
  s_else_stmt :: "ast_stmt option res"
  s_init_stmt :: "ast_stmt res"
  s_next_stmt :: "ast_stmt res"
  s_switch_num :: "nat res"
  s_case_label :: "nat \<Rightarrow> ast_expr option res"
  s_case_stmt :: "nat \<Rightarrow> ast_stmt res"
  s_label :: "string res"
  s_import_module :: "string res"
  s_import_alias :: "string option res"

definition AstStatement :: "stmt_kind \<Rightarrow> stmt_obj" where
  "AstStatement k =
     \<lparr>stmt_type = k, s_name = Inl AssertFail, s_type = Inl AssertFail,
      s_param_num = Inl AssertFail, s_param_name = \<lambda>pos. Inl AssertFail,
      s_param_type = \<lambda>pos. Inl AssertFail, s_param_expr = \<lambda>pos. Inl AssertFail,
      s_enum_num = Inl AssertFail, s_enum_const = \<lambda>pos. Inl AssertFail,
      s_enum_const_expr = \<lambda>pos. Inl AssertFail, s_opcode = Inl AssertFail,
      s_lhs_expr = Inl AssertFail, s_expr = Inl AssertFail, s_headlist_num = Inl AssertFail,
      s_headlist_elem = \<lambda>pos. Inl AssertFail, s_stmtlist_num = Inl AssertFail,
      s_stmtlist_elem = \<lambda>pos. Inl AssertFail, s_stmt = Inl AssertFail,
      s_else_stmt = Inl AssertFail, s_init_stmt = Inl AssertFail, s_next_stmt = Inl AssertFail,
      s_switch_num = Inl AssertFail, s_case_label = \<lambda>pos. Inl AssertFail,
      s_case_stmt = \<lambda>pos. Inl AssertFail, s_label = Inl AssertFail,
      s_import_module = Inl AssertFail, s_import_alias = Inl AssertFail\<rparr>"

definition AstAssignment :: "ast_expr \<Rightarrow> ast_expr \<Rightarrow> stmt_obj" where
  "AstAssignment left right = (AstStatement sAssignment)
     \<lparr>s_lhs_expr := Inr left, s_expr := Inr (Some right)\<rparr>"

definition AstBlockStmt :: "stmt_kind \<Rightarrow> ast_stmt list \<Rightarrow> stmt_obj" where
  "AstBlockStmt k stmts = (AstStatement k)
     \<lparr>s_stmtlist_num := Inr (length stmts), s_stmtlist_elem := elem_at stmts\<rparr>"

definition AstBreak :: "stmt_obj" where
  "AstBreak = AstStatement sBreak"

definition AstConstDecl ::
  "string \<Rightarrow> ast_type \<Rightarrow> ast_expr \<Rightarrow> stmt_obj" where
  "AstConstDecl name type expr = (AstStatement sConstDecl)
     \<lparr>s_name := Inr name, s_type := Inr type, s_expr := Inr (Some expr)\<rparr>"

definition AstContinue :: "stmt_obj" where
  "AstContinue = AstStatement sContinue"

definition AstDecr :: "ast_expr \<Rightarrow> stmt_obj" where
  "AstDecr expr = (AstStatement sDecr)\<lparr>s_lhs_expr := Inr expr\<rparr>"

definition AstDoWhile :: "ast_stmt \<Rightarrow> ast_expr \<Rightarrow> stmt_obj" where
  "AstDoWhile stmt cond = (AstStatement sDoWhile)
     \<lparr>s_expr := Inr (Some cond), s_stmt := Inr stmt\<rparr>"

definition AstEnumDecl ::
  "string \<Rightarrow> (string \<times> ast_expr option) list \<Rightarrow> stmt_obj" where
  "AstEnumDecl name consts = (AstStatement sEnumDecl)
     \<lparr>s_name := Inr name, s_enum_num := Inr (length consts),
      s_enum_const := \<lambda>pos. res_map fst (elem_at consts pos),
      s_enum_const_expr := \<lambda>pos. res_map snd (elem_at consts pos)\<rparr>"

definition AstExprStmt :: "ast_expr \<Rightarrow> stmt_obj" where
  "AstExprStmt expr = (AstStatement sExpr)\<lparr>s_expr := Inr (Some expr)\<rparr>"

definition AstFor ::
  "ast_stmt \<Rightarrow> ast_expr \<Rightarrow> ast_stmt \<Rightarrow> ast_stmt \<Rightarrow> stmt_obj" where
  "AstFor ini cond next stmt = (AstStatement sFor)
     \<lparr>s_expr := Inr (Some cond), s_init_stmt := Inr ini, s_next_stmt := Inr next,
      s_stmt := Inr stmt\<rparr>"

definition AstFuncDecl ::
  "string \<Rightarrow> ast_type \<Rightarrow> (string \<times> ast_type \<times> ast_expr option) list \<Rightarrow> ast_stmt \<Rightarrow> stmt_obj" where
  "AstFuncDecl name type params stmt = (AstStatement sFuncDecl)
     \<lparr>s_name := Inr name, s_type := Inr type, s_param_num := Inr (length params),
      s_param_name := \<lambda>pos. res_map fst (elem_at params pos),
      s_param_type := \<lambda>pos. res_map (fst \<circ> snd) (elem_at params pos),
      s_param_expr := \<lambda>pos. res_map (snd \<circ> snd) (elem_at params pos),
      s_stmt := Inr stmt\<rparr>"

definition AstGoto :: "string \<Rightarrow> stmt_obj" where
  "AstGoto label = (AstStatement sGoto)\<lparr>s_label := Inr label\<rparr>"

definition AstIf ::
  "ast_expr \<Rightarrow> ast_stmt \<Rightarrow> ast_stmt option \<Rightarrow> stmt_obj" where
  "AstIf expr then_stmt else_stmt = (AstStatement sIf)
     \<lparr>s_expr := Inr (Some expr), s_stmt := Inr then_stmt, s_else_stmt := Inr else_stmt\<rparr>"

definition AstImport :: "string \<Rightarrow> string option \<Rightarrow> stmt_obj" where
  "AstImport module alias_name = (AstStatement sImport)
     \<lparr>s_import_module := Inr module, s_import_alias := Inr alias_name\<rparr>"

definition AstIncr :: "ast_expr \<Rightarrow> stmt_obj" where
  "AstIncr expr = (AstStatement sIncr)\<lparr>s_lhs_expr := Inr expr\<rparr>"

definition AstInplaceOp ::
  "op_code \<Rightarrow> ast_expr \<Rightarrow> ast_expr \<Rightarrow> stmt_obj" where
  "AstInplaceOp opcode left right = (AstStatement sInplaceOp)
     \<lparr>s_opcode := Inr opcode, s_lhs_expr := Inr left, s_expr := Inr (Some right)\<rparr>"

definition AstLabel :: "string \<Rightarrow> stmt_obj" where
  "AstLabel label = (AstStatement sLabel)\<lparr>s_label := Inr label\<rparr>"

definition AstNullStmt :: "stmt_obj" where
  "AstNullStmt = AstStatement sNullStmt"

definition AstReturn :: "ast_expr option \<Rightarrow> stmt_obj" where
  "AstReturn expr = (AstStatement sReturn)\<lparr>s_expr := Inr expr\<rparr>"

definition AstSwitch ::
  "ast_expr \<Rightarrow> (ast_expr option \<times> ast_stmt) list \<Rightarrow> stmt_obj" where
  "AstSwitch expr cases = (AstStatement sSwitch)
     \<lparr>s_expr := Inr (Some expr), s_switch_num := Inr (length cases),
      s_case_label := \<lambda>pos. res_map fst (elem_at cases pos),
      s_case_stmt := \<lambda>pos. res_map snd (elem_at cases pos)\<rparr>"

definition AstToplevel :: "ast_stmt list \<Rightarrow> ast_stmt list \<Rightarrow> stmt_obj" where
  "AstToplevel heads stmts = (AstBlockStmt sToplevel stmts)
     \<lparr>s_headlist_num := Inr (length heads), s_headlist_elem := elem_at heads\<rparr>"

definition AstVarDecl ::
  "string \<Rightarrow> ast_type \<Rightarrow> ast_expr option \<Rightarrow> stmt_obj" where
  "AstVarDecl name type expr = (AstStatement sVarDecl)
     \<lparr>s_name := Inr name, s_type := Inr type, s_expr := Inr expr\<rparr>"

definition AstWhile :: "ast_expr \<Rightarrow> ast_stmt \<Rightarrow> stmt_obj" where
  "AstWhile cond stmt = (AstStatement sWhile)
     \<lparr>s_expr := Inr (Some cond), s_stmt := Inr stmt\<rparr>"

fun as_stmt :: "ast_stmt \<Rightarrow> stmt_obj" where
  "as_stmt (BlockStmt stmts) = AstBlockStmt sBlock stmts"
| "as_stmt Break = AstBreak"
| "as_stmt (ConstDecl name type expr) = AstConstDecl name type expr"
| "as_stmt Continue = AstContinue"
| "as_stmt (Decr expr) = AstDecr expr"
| "as_stmt (DoWhile stmt cond) = AstDoWhile stmt cond"
| "as_stmt (EnumDecl name consts) = AstEnumDecl name consts"
| "as_stmt (Assignment left right) = AstAssignment left right"
| "as_stmt (InplaceOp opcode left right) = AstInplaceOp opcode left right"
| "as_stmt (ExprStmt expr) = AstExprStmt expr"
| "as_stmt (For ini cond next stmt) = AstFor ini cond next stmt"
| "as_stmt (FuncDecl name type params stmt) = AstFuncDecl name type params stmt"
| "as_stmt (Goto label) = AstGoto label"
| "as_stmt (If expr then_stmt else_stmt) = AstIf expr then_stmt else_stmt"
| "as_stmt (Import module alias_name) = AstImport module alias_name"
| "as_stmt (Incr expr) = AstIncr expr"
| "as_stmt (LabelStmt label) = AstLabel label"
| "as_stmt NullStmt = AstNullStmt"
| "as_stmt (ReturnStmt expr) = AstReturn expr"
| "as_stmt (Switch expr cases) = AstSwitch expr cases"
| "as_stmt (Toplevel heads stmts) = AstToplevel heads stmts"
| "as_stmt (VarDecl name type expr) = AstVarDecl name type expr"
| "as_stmt (While cond stmt) = AstWhile cond stmt"

section \<open>The printer over the objects\<close>

text \<open>
  The bodies of the three printing functions: a switch over the kind, with the calls of the printing
  functions themselves as parameters. \<open>reads\<close> is a loop over the positions of a list.
\<close>

definition reads :: "nat \<Rightarrow> (nat \<Rightarrow> string res) \<Rightarrow> string res list" where
  "reads n f = map f [0..<n]"

definition print_expr_body ::
  "(f64 \<Rightarrow> string) \<Rightarrow> (ast_expr \<Rightarrow> string res) \<Rightarrow> expr_obj \<Rightarrow> string res" where
  "print_expr_body sf pe e = (case expr_type e of
     eTrue \<Rightarrow> out ''true''
   | eFalse \<Rightarrow> out ''false''
   | eIntConst \<Rightarrow> res_bind (e_int_val e) (\<lambda>v. out (show_int v))
   | eFloatConst \<Rightarrow> res_bind (e_float_val e) (\<lambda>v. out (sf v))
   | eStringConst \<Rightarrow> res_bind (e_string_val e) (\<lambda>v. out ([CHR 0x22] @ v @ [CHR 0x22]))
   | eSymbolExpr \<Rightarrow> res_bind (e_symbol e) out
   | eMemberRef \<Rightarrow> outs [res_bind (e_body e) pe, out ''.'', res_bind (e_member e) out]
   | eArrayRef \<Rightarrow> outs [res_bind (e_body e) pe, out ''['', res_bind (e_index e) pe, out '']'']
   | eUniOp \<Rightarrow> res_bind (e_opcode e) (\<lambda>opcode. uni_text opcode (res_bind (e_operand e 0) pe))
   | eBinOp \<Rightarrow> res_bind (e_opcode e) (\<lambda>opcode.
       outs [out ''('', res_bind (e_operand e 0) pe, bin_symbol opcode, res_bind (e_operand e 1) pe,
         out '')''])
   | eTriOp \<Rightarrow> res_bind (e_opcode e) (\<lambda>opcode. case opcode of
       kOpIte \<Rightarrow> outs [out ''('', res_bind (e_operand e 0) pe, out '' ? '',
         res_bind (e_operand e 1) pe, out '' : '', res_bind (e_operand e 2) pe, out '')'']
     | _ \<Rightarrow> Inl AssertFail)
   | eFuncCall \<Rightarrow> outs [res_bind (e_func e) pe, out ''('',
       res_bind (e_arglist_num e) (\<lambda>n. commas (reads n (\<lambda>i. res_bind (e_arglist_elem e i) pe))),
       out '')''])"

definition print_type_body ::
  "(ast_expr \<Rightarrow> string res) \<Rightarrow> (ast_type \<Rightarrow> string res) \<Rightarrow> type_obj \<Rightarrow> string res" where
  "print_type_body pe pt t = (case type_kind t of
     kVoidType \<Rightarrow> out ''void''
   | kBooleanType \<Rightarrow> out ''boolean''
   | kIntType \<Rightarrow> out ''int''
   | kFloatType \<Rightarrow> out ''float''
   | kStringType \<Rightarrow> out ''string''
   | kArrayType \<Rightarrow> outs [out ''array('', res_bind (t_elem_type t) pt, out '')'']
   | kSetType \<Rightarrow> outs [out ''set('', res_bind (t_elem_type t) pt, out '')'']
   | kMapType \<Rightarrow> outs [out ''map('', res_bind (t_key_type t) pt, out '', '',
       res_bind (t_elem_type t) pt, out '')'']
   | kNamedType \<Rightarrow> res_bind (t_name t) pe
   | _ \<Rightarrow> Inl AssertFail)"

text \<open>Pointers that are dereferenced, and pointers that are printed when they are not \<^verbatim>\<open>NULL\<close>.\<close>

definition ptr :: "('a \<Rightarrow> string res) \<Rightarrow> 'a option res \<Rightarrow> string res" where
  "ptr f p = res_bind p (\<lambda>q. case q of None \<Rightarrow> Inl NullDeref | Some x \<Rightarrow> f x)"

definition opt :: "('a \<Rightarrow> string res) \<Rightarrow> 'a option res \<Rightarrow> string res" where
  "opt f p = res_bind p (\<lambda>q. case q of None \<Rightarrow> out '''' | Some x \<Rightarrow> f x)"

definition print_stmt_body ::
  "(ast_expr \<Rightarrow> string res) \<Rightarrow> (ast_type \<Rightarrow> string res) \<Rightarrow> (ast_stmt \<Rightarrow> nat \<Rightarrow> string res)
     \<Rightarrow> stmt_obj \<Rightarrow> nat \<Rightarrow> string res" where
  "print_stmt_body pe pt ps s i = (let nested = (\<lambda>st. ps st (i + 1)) in case stmt_type s of
     sBlock \<Rightarrow> outs [print_indent i, out (''{'' @ [nl]),
       res_bind (s_stmtlist_num s) (\<lambda>n. outs (reads n (\<lambda>k. res_bind (s_stmtlist_elem s k) nested))),
       print_indent i, out (''}'' @ [nl])]
   | sBreak \<Rightarrow> outs [print_indent i, out (''break;'' @ [nl])]
   | sConstDecl \<Rightarrow> outs [print_indent i, out ''const '', res_bind (s_name s) out, out '': '',
       res_bind (s_type s) pt, out '' = '', ptr pe (s_expr s), out ('';'' @ [nl])]
   | sContinue \<Rightarrow> outs [print_indent i, out (''continue;'' @ [nl])]
   | sDecr \<Rightarrow> outs [print_indent i, res_bind (s_lhs_expr s) pe, out ('' --;'' @ [nl])]
   | sDoWhile \<Rightarrow> outs [print_indent i, out (''do'' @ [nl]), res_bind (s_stmt s) nested,
       print_indent i, out ''while '', ptr pe (s_expr s), out [nl]]
   | sEnumDecl \<Rightarrow> outs [print_indent i, out ''enum '', res_bind (s_name s) out, out ('' {'' @ [nl]),
       res_bind (s_enum_num s) (\<lambda>n. outs (reads n (\<lambda>k. outs [print_indent (i + 1),
         res_bind (s_enum_const s k) out, opt (\<lambda>e. cat (out '' = '') (pe e)) (s_enum_const_expr s k),
         out (if k < n - 1 then '','' else ''''), out [nl]]))),
       print_indent i, out (''}'' @ [nl])]
   | sAssignment \<Rightarrow> outs [print_indent i, res_bind (s_lhs_expr s) pe, out '' = '', ptr pe (s_expr s),
       out ('';'' @ [nl])]
   | sInplaceOp \<Rightarrow> outs [print_indent i, res_bind (s_lhs_expr s) pe,
       res_bind (s_opcode s) eq_symbol, ptr pe (s_expr s), out ('';'' @ [nl])]
   | sExpr \<Rightarrow> outs [print_indent i, ptr pe (s_expr s), out ('';'' @ [nl])]
   | sFor \<Rightarrow> outs [print_indent i, out (''for ('' @ [nl]), res_bind (s_init_stmt s) nested,
       print_indent (i + 1), ptr pe (s_expr s), out ('';'' @ [nl]), res_bind (s_next_stmt s) nested,
       res_bind (s_stmt s) nested]
   | sFuncDecl \<Rightarrow> outs [print_indent i, out ''function '', res_bind (s_name s) out, out ''('',
       res_bind (s_param_num s) (\<lambda>n. commas (reads n (\<lambda>k. outs [res_bind (s_param_name s k) out,
         out '': '', res_bind (s_param_type s k) pt,
         opt (\<lambda>e. cat (out '' = '') (pe e)) (s_param_expr s k)]))),
       out ('')'' @ [nl]), res_bind (s_stmt s) nested]
   | sGoto \<Rightarrow> outs [print_indent i, out ''goto '', res_bind (s_label s) out, out ('';'' @ [nl])]
   | sIf \<Rightarrow> outs [print_indent i, out ''if '', ptr pe (s_expr s), out [nl],
       res_bind (s_stmt s) nested,
       opt (\<lambda>st. outs [print_indent i, out (''else'' @ [nl]), nested st]) (s_else_stmt s)]
   | sImport \<Rightarrow> outs [print_indent i, out ''import '', res_bind (s_import_module s) out,
       opt (\<lambda>a. cat (out '' as '') (out a)) (s_import_alias s), out ('';'' @ [nl])]
   | sIncr \<Rightarrow> outs [print_indent i, res_bind (s_lhs_expr s) pe, out ('' ++;'' @ [nl])]
   | sLabel \<Rightarrow> outs [print_indent i, res_bind (s_label s) out, out ('':'' @ [nl])]
   | sNullStmt \<Rightarrow> outs [print_indent i, out ('';'' @ [nl])]
   | sReturn \<Rightarrow> outs [print_indent i, out ''return'',
       opt (\<lambda>e. cat (out '' '') (pe e)) (s_expr s), out ('';'' @ [nl])]
   | sSwitch \<Rightarrow> outs [print_indent i, out ''switch '', ptr pe (s_expr s), out (''{'' @ [nl]),
       res_bind (s_switch_num s) (\<lambda>n. outs (reads n (\<lambda>k. outs [print_indent i,
         res_bind (s_case_label s k) (\<lambda>l. case l of
           None \<Rightarrow> out ''default'' | Some l \<Rightarrow> cat (out ''case '') (pe l)),
         out ('': '' @ [nl]), res_bind (s_case_stmt s k) nested, out [nl]]))),
       print_indent i, out (''}'' @ [nl])]
   | sToplevel \<Rightarrow> outs [
       res_bind (s_headlist_num s) (\<lambda>n. outs (reads n (\<lambda>k. res_bind (s_headlist_elem s k) nested))),
       res_bind (s_stmtlist_num s) (\<lambda>n. outs (reads n (\<lambda>k. res_bind (s_stmtlist_elem s k) nested)))]
   | sVarDecl \<Rightarrow> outs [print_indent i, out ''var '', res_bind (s_name s) out, out '': '',
       res_bind (s_type s) pt, opt (\<lambda>e. cat (out '' = '') (pe e)) (s_expr s), out ('';'' @ [nl])]
   | sWhile \<Rightarrow> outs [print_indent i, out ''while '', ptr pe (s_expr s), out [nl],
       res_bind (s_stmt s) nested])"

section \<open>Agreement with the printer over the trees\<close>

named_theorems ast_class

lemmas expr_classes [ast_class] = AstExpr_def AstOp_def AstTrue_def AstFalse_def AstIntConst_def
  AstFloatConst_def AstStringConst_def AstSymbolExpr_def AstArrayRef_def AstMemberRef_def
  AstUniOp_def AstBinOp_def AstIteOp_def AstFuncCall_def

lemmas type_classes [ast_class] = AstType_def AstPrimType_def AstNamedType_def AstArrayType_def
  AstSetType_def AstMapType_def

lemmas stmt_classes [ast_class] = AstStatement_def AstAssignment_def AstBlockStmt_def AstBreak_def
  AstConstDecl_def AstContinue_def AstDecr_def AstDoWhile_def AstEnumDecl_def AstExprStmt_def
  AstFor_def AstFuncDecl_def AstGoto_def AstIf_def AstImport_def AstIncr_def AstInplaceOp_def
  AstLabel_def AstNullStmt_def AstReturn_def AstSwitch_def AstToplevel_def AstVarDecl_def
  AstWhile_def

lemma reads_elem [simp]: "reads (length xs) (\<lambda>k. res_bind (elem_at xs k) f) = map f xs"
  by (auto simp: reads_def intro: nth_equalityI)

lemma print_expr_body: "print_expr_body sf (print_expr sf) (as_expr e) = print_expr sf e"
  by (cases e) (simp_all add: print_expr_body_def ast_class)

lemma print_expr_unique:
  assumes "\<And>e. f e = print_expr_body sf f (as_expr e)"
  shows "f e = print_expr sf e"
proof (induction e)
  case (FuncCallE func args)
  have args: "map f args = map (print_expr sf) args" using FuncCallE(2) by simp
  show ?case by (subst assms) (simp add: print_expr_body_def ast_class FuncCallE(1) args)
qed (subst assms, simp add: print_expr_body_def ast_class)+

lemma cat_fault: "cat (Inl e) f = Inl e" "cat (Inr x) (Inl e) = Inl e"
  by (simp_all add: cat_def)

lemma print_type_body:
  "print_type_body (print_expr sf) (print_type sf) (as_type t) = print_type sf t"
  by (cases t) (simp_all add: print_type_body_def ast_class cat_fault out_def split: type_id.split)

lemma print_type_unique:
  assumes "\<And>t. f t = print_type_body (print_expr sf) f (as_type t)"
  shows "f t = print_type sf t"
proof (induction t)
  case (PrimT x)
  show ?case
    by (subst assms) (simp add: print_type_body_def ast_class cat_fault out_def split: type_id.split)
qed (subst assms, simp add: print_type_body_def ast_class)+

text \<open>The loop over the enumerators, with its test for the last one.\<close>

lemma cat_assoc: "cat (cat f g) h = cat f (cat g h)"
  by (cases f; cases g; cases h) (simp_all add: cat_def)

lemma cat_empty [simp]: "cat (out []) f = f" "cat f (out []) = f"
  by (cases f; simp add: cat_def out_def)+

lemma enums_loop:
  "outs (map (\<lambda>k. outs [print_indent (i + 1), out (fst (ecs ! k)), print_init sf (snd (ecs ! k)),
     out (if Suc k < length ecs then '','' else ''''), out [nl]]) [0..<length ecs])
   = print_enums sf i ecs"
proof (induction sf i ecs rule: print_enums.induct)
  case (2 sf i name e ecs)
  have "[0..<length ((name, e) # ecs)] = 0 # map Suc [0..<length ecs]"
    by (simp add: upt_conv_Cons map_Suc_upt del: upt_Suc)
  then show ?case using 2 by (simp add: cat_assoc comp_def del: upt_Suc)
qed simp

lemma reads_eq: "(\<And>k. k < length xs \<Longrightarrow> g k = f (xs ! k)) \<Longrightarrow> reads (length xs) g = map f xs"
  by (auto simp: reads_def intro: nth_equalityI)

lemma enums_read:
  "outs (reads (length ecs) (\<lambda>k. outs [print_indent (i + 1), res_bind (res_map fst (elem_at ecs k)) out,
     opt (\<lambda>e. cat (out '' = '') (print_expr sf e)) (res_map snd (elem_at ecs k)),
     out (if k < length ecs - 1 then '','' else ''''), out [nl]]))
   = print_enums sf i ecs"
  unfolding enums_loop [symmetric] reads_def
  by (intro arg_cong [of _ _ outs] map_cong)
    (auto simp: opt_def print_init_def res_map_def less_diff_conv)

lemma params_read:
  "reads (length ps) (\<lambda>k. outs [res_bind (res_map fst (elem_at ps k)) out, out '': '',
     res_bind (res_map (fst \<circ> snd) (elem_at ps k)) (print_type sf),
     opt (\<lambda>e. cat (out '' = '') (print_expr sf e)) (res_map (snd \<circ> snd) (elem_at ps k))])
   = map (print_param sf) ps"
  by (intro reads_eq)
    (simp add: opt_def print_param_def print_init_def res_map_def split: prod.split)

lemma cases_read:
  "reads (length cs) (\<lambda>k. outs [print_indent i,
     res_bind (res_map fst (elem_at cs k)) (\<lambda>l. case l of
       None \<Rightarrow> out ''default'' | Some l \<Rightarrow> cat (out ''case '') (pe l)),
     out ('': '' @ [nl]), res_bind (res_map snd (elem_at cs k)) nested, out [nl]])
   = map (\<lambda>(label, st). outs [print_indent i,
       (case label of None \<Rightarrow> out ''default'' | Some l \<Rightarrow> cat (out ''case '') (pe l)),
       out ('': '' @ [nl]), nested st, out [nl]]) cs"
  by (intro reads_eq) (simp add: res_map_def split: prod.split)

lemmas stmt_body_simps = print_stmt_body_def ast_class ptr_def Let_def enums_read [simplified]
  params_read [simplified] cases_read [simplified]

lemma opt_Inr: "opt f (Inr p) = (case p of None \<Rightarrow> out '''' | Some x \<Rightarrow> f x)"
  by (simp add: opt_def)

lemma print_stmt_body:
  "print_stmt_body (print_expr sf) (print_type sf) (print_stmt sf) (as_stmt st) i = print_stmt sf st i"
  by (cases st)
    (simp_all add: stmt_body_simps opt_Inr print_init_def cat_assoc split: option.split)

lemma print_stmt_unique:
  assumes "\<And>st i. f st i = print_stmt_body (print_expr sf) (print_type sf) f (as_stmt st) i"
  shows "f st i = print_stmt sf st i"
proof (induction st arbitrary: i)
  case (BlockStmt sts)
  have "map (\<lambda>st. f st (i + 1)) sts = map (\<lambda>st. print_stmt sf st (i + 1)) sts"
    using BlockStmt by simp
  then show ?case by (subst assms) (simp add: stmt_body_simps del: map_eq_conv)
next
  case (If e st1 st2)
  then show ?case
    by (subst assms) (cases st2; simp add: stmt_body_simps opt_Inr)
next
  case (Switch e cs)
  have "map (\<lambda>(label, st). outs [print_indent i,
       (case label of None \<Rightarrow> out ''default'' | Some l \<Rightarrow> cat (out ''case '') (print_expr sf l)),
       out ('': '' @ [nl]), f st (i + 1), out [nl]]) cs
     = map (\<lambda>(label, st). outs [print_indent i,
       (case label of None \<Rightarrow> out ''default'' | Some l \<Rightarrow> cat (out ''case '') (print_expr sf l)),
       out ('': '' @ [nl]), print_stmt sf st (i + 1), out [nl]]) cs"
    using Switch by (intro map_cong) auto
  then show ?case by (subst assms) (simp add: stmt_body_simps del: map_eq_conv)
next
  case (Toplevel heads sts)
  have "map (\<lambda>st. f st (i + 1)) heads = map (\<lambda>st. print_stmt sf st (i + 1)) heads"
    "map (\<lambda>st. f st (i + 1)) sts = map (\<lambda>st. print_stmt sf st (i + 1)) sts"
    using Toplevel by simp_all
  then show ?case by (subst assms) (simp add: stmt_body_simps del: map_eq_conv)
qed (subst assms, simp add: stmt_body_simps opt_Inr print_init_def split: option.split)+

text \<open>
  C24: The printer of the source reads the trees through virtual functions that assert in the classes
  that do not override them. Its three recursive functions, written over those objects, have exactly
  one solution, the printing functions over the trees: each kind of node is only asked what its class
  answers.
\<close>

theorem printer_reads_classes:
  "(\<forall>e. pe e = print_expr_body sf pe (as_expr e)) \<and>
   (\<forall>t. pt t = print_type_body pe pt (as_type t)) \<and>
   (\<forall>st i. ps st i = print_stmt_body pe pt ps (as_stmt st) i) \<longleftrightarrow>
   pe = print_expr sf \<and> pt = print_type sf \<and> ps = print_stmt sf"
proof (intro iffI; (elim conjE)?)
  assume e: "\<forall>e. pe e = print_expr_body sf pe (as_expr e)"
    and t: "\<forall>t. pt t = print_type_body pe pt (as_type t)"
    and s: "\<forall>st i. ps st i = print_stmt_body pe pt ps (as_stmt st) i"
  have pe: "pe = print_expr sf" using print_expr_unique [of pe sf] e by blast
  then have "pt = print_type sf" using print_type_unique [of pt sf] t by blast
  then show "pe = print_expr sf \<and> pt = print_type sf \<and> ps = print_stmt sf"
    using print_stmt_unique [of ps sf] s pe by blast
qed (simp add: print_expr_body print_type_body print_stmt_body)

end
