(* ===== verification/Ir_Printer.thy ===== *)
theory Ir_Printer
  imports Vsm_Module
begin

text \<open>
  The printer of the intermediate representation (\<^verbatim>\<open>src/ir/IrPrinter.cc\<close>), which numbers the trees of
  a block and writes one line for each node. What is written to the stream is returned; how the
  stream writes a \<^verbatim>\<open>double\<close> is the parameter \<open>sf\<close>.
\<close>

section \<open>Modules of handles\<close>

fun module_index :: "ir_handle \<Rightarrow> nat res" where
  "module_index (GlobalVarHandle _ _ i _) = Inr i"
| "module_index (LocalVarHandle _ _ i _) = Inr i"
| "module_index (FuncHandle _ _ i _) = Inr i"
| "module_index _ = Inl AssertFail"

section \<open>Numbering\<close>

text \<open>
  \<^verbatim>\<open>dfs_node\<close> and \<^verbatim>\<open>dfs_handle\<close> visit these nodes, in this order. A numbered node stands in the list
  with the numbers its operands got; its own number is its position.
\<close>

fun handle_operands :: "ir_handle \<Rightarrow> ir_node list" where
  "handle_operands (ArrayRef base offset) = [base, offset]"
| "handle_operands (MemberRef base) = [base]"
| "handle_operands _ = []"

fun node_operands :: "ir_node \<Rightarrow> ir_node list" where
  "node_operands (UniOp _ _ a) = [a]"
| "node_operands (BinOp _ _ a b) = [a, b]"
| "node_operands (TriOp _ _ a b c) = [a, b, c]"
| "node_operands (Load _ h) = handle_operands h"
| "node_operands (Store h v) = handle_operands h @ [v]"
| "node_operands (InplaceUniOp _ h) = handle_operands h"
| "node_operands (InplaceBinOp _ h a) = handle_operands h @ [a]"
| "node_operands (FuncCall _ args) = args"
| "node_operands (Return v) = (case v of None \<Rightarrow> [] | Some a \<Rightarrow> [a])"
| "node_operands (Jump _) = []"
| "node_operands (BranchTrue _ c) = [c]"
| "node_operands (BranchFalse _ c) = [c]"
| "node_operands (Label _) = []"
| "node_operands Halt = []"

lemma size_args: "(\<Sum>n\<leftarrow>ns. size n) \<le> size_list size ns"
  by (induction ns) simp_all

lemma size_operands:
  "(\<Sum>n\<leftarrow>handle_operands h. size n) \<le> size h"
  "node_operands n = [] \<or> (\<Sum>n\<leftarrow>node_operands n. size n) < size n"
proof -
  show h: "(\<Sum>n\<leftarrow>handle_operands h. size n) \<le> size h" for h by (cases h) simp_all
  show "node_operands n = [] \<or> (\<Sum>n\<leftarrow>node_operands n. size n) < size n"
    by (cases n) (use h size_args in \<open>auto simp: less_Suc_eq_le intro: add_mono split: option.split\<close>)
qed

type_synonym entry = "ir_node \<times> nat list"

text \<open>A node follows its operands; the pointers of a block's list may be \<^verbatim>\<open>NULL\<close>.\<close>

function dfs_node :: "ir_node \<Rightarrow> entry list \<Rightarrow> nat \<times> entry list"
  and dfs_operands :: "ir_node list \<Rightarrow> entry list \<Rightarrow> nat list \<times> entry list" where
  "dfs_node n es = (case dfs_operands (node_operands n) es of (ids, es') \<Rightarrow>
     (length es', es' @ [(n, ids)]))"
| "dfs_operands [] es = ([], es)"
| "dfs_operands (n # ns) es = (case dfs_node n es of (i, es') \<Rightarrow>
     (case dfs_operands ns es' of (is, es'') \<Rightarrow> (i # is, es'')))"
  by pat_completeness auto
termination
proof (relation "measures [case_sum (\<lambda>p. size (fst p)) (\<lambda>p. \<Sum>n\<leftarrow>fst p. size n),
      case_sum (\<lambda>p. 1) (\<lambda>p. 2 * length (fst p))]")
  fix n :: ir_node and es :: "entry list"
  show "(Inr (node_operands n, es), Inl (n, es))
      \<in> measures [case_sum (\<lambda>p. size (fst p)) (\<lambda>p. \<Sum>n\<leftarrow>fst p. size n),
          case_sum (\<lambda>p. 1) (\<lambda>p. 2 * length (fst p))]"
    using size_operands(2) [of n] by auto
qed auto

declare dfs_node.simps [simp del]

fun dfs_all :: "ir_node option list \<Rightarrow> entry list \<Rightarrow> (nat list \<times> entry list) res" where
  "dfs_all [] es = Inr ([], es)"
| "dfs_all (None # nodes) es = Inl NullDeref"
| "dfs_all (Some n # nodes) es = (case dfs_node n es of (i, es') \<Rightarrow>
     res_map (\<lambda>(is, es''). (i # is, es'')) (dfs_all nodes es'))"

text \<open>
  The numbers the labels have afterwards: the number of a label is read through the pointer of a
  jump, whichever block it was numbered in, and is not initialised before.
\<close>

fun label_ids :: "nat \<Rightarrow> entry list \<Rightarrow> (nat \<rightharpoonup> nat) \<Rightarrow> (nat \<rightharpoonup> nat)" where
  "label_ids i [] ids = ids"
| "label_ids i ((n, _) # es) ids =
     label_ids (Suc i) es (case n of Label l \<Rightarrow> ids(l \<mapsto> i) | _ \<Rightarrow> ids)"

definition label_id :: "(nat \<rightharpoonup> nat) \<Rightarrow> nat \<Rightarrow> nat res" where
  "label_id ids l = (case ids l of None \<Rightarrow> Inl Uninit | Some i \<Rightarrow> Inr i)"

section \<open>Lines\<close>

fun uni_name :: "op_code \<Rightarrow> string res" where
  "uni_name kOpCastBoolean = out ''cast_to_boolean''"
| "uni_name kOpCastInt = out ''cast_to_int''"
| "uni_name kOpCastFloat = out ''cast_to_float''"
| "uni_name kOpBitNeg = out ''bit_neg''"
| "uni_name kOpLogNot = out ''log_not''"
| "uni_name kOpUniMinus = out ''complement''"
| "uni_name _ = Inl AssertFail"

fun bin_name :: "op_code \<Rightarrow> string res" where
  "bin_name kOpBitAnd = out ''bit_and''"
| "bin_name kOpBitOr = out ''bit_or''"
| "bin_name kOpBitXor = out ''bit_xor''"
| "bin_name kOpLogAnd = out ''log_and''"
| "bin_name kOpLogOr = out ''log_or''"
| "bin_name kOpAdd = out ''add''"
| "bin_name kOpSub = out ''sub''"
| "bin_name kOpMul = out ''mul''"
| "bin_name kOpDiv = out ''div''"
| "bin_name kOpMod = out ''mod''"
| "bin_name kOpLshift = out ''l_shift''"
| "bin_name kOpRshift = out ''r_shift''"
| "bin_name kOpEqual = out ''equal''"
| "bin_name kOpNotEq = out ''not_equal''"
| "bin_name kOpLt = out ''less_than''"
| "bin_name kOpLe = out ''less_than_or_equal''"
| "bin_name _ = Inl AssertFail"

fun tri_name :: "op_code \<Rightarrow> string res" where
  "tri_name kOpIte = out ''if_then_else''"
| "tri_name _ = Inl AssertFail"

fun inplace_uni_name :: "op_code \<Rightarrow> string res" where
  "inplace_uni_name kOpInc = out ''inc ''"
| "inplace_uni_name kOpDec = out ''dec ''"
| "inplace_uni_name _ = Inl AssertFail"

fun inplace_bin_name :: "op_code \<Rightarrow> string res" where
  "inplace_bin_name kOpBitAnd = out ''inplace_bit_and ''"
| "inplace_bin_name kOpBitOr = out ''inplace_bit_or ''"
| "inplace_bin_name kOpBitXor = out ''inplace_bit_xor ''"
| "inplace_bin_name kOpAdd = out ''inplace_add ''"
| "inplace_bin_name kOpSub = out ''inplace_sub ''"
| "inplace_bin_name kOpMul = out ''inplace_mul ''"
| "inplace_bin_name kOpDiv = out ''inplace_div ''"
| "inplace_bin_name kOpMod = out ''inplace_mod ''"
| "inplace_bin_name kOpLshift = out ''inplace_lshift ''"
| "inplace_bin_name kOpRshift = out ''inplace_rshift ''"
| "inplace_bin_name _ = Inl AssertFail"

definition ref :: "nat \<Rightarrow> string" where
  "ref i = CHR ''%'' # show_nat i"

definition refs :: "nat list \<Rightarrow> string" where
  "refs ids = concat (map (\<lambda>i. CHR '' '' # ref i) ids)"

text \<open>A variable or function; \<open>ids\<close> are the numbers of the nodes a handle refers to.\<close>

definition indexed :: "string \<Rightarrow> ir_handle \<Rightarrow> string res" where
  "indexed kind h =
     res_bind (module_index h) (\<lambda>m. res_bind (handle_local_index h) (\<lambda>i.
       out (kind @ ''['' @ handle_name h @ '': module#'' @ show_nat m @ '': #'' @ show_nat i @ '']'')))"

fun print_handle :: "(f64 \<Rightarrow> string) \<Rightarrow> ir_handle \<Rightarrow> nat list \<Rightarrow> string res" where
  "print_handle sf (ScopeHandle name _) ids = out (''scope['' @ name @ '']'')"
| "print_handle sf (LocalVarHandle name type m i) ids = indexed ''var'' (LocalVarHandle name type m i)"
| "print_handle sf (GlobalVarHandle name type m i) ids =
     indexed ''global var'' (GlobalVarHandle name type m i)"
| "print_handle sf (FuncHandle name type m i) ids = indexed ''function'' (FuncHandle name type m i)"
| "print_handle sf (BooleanConst _ b) ids =
     out (''boolean['' @ (if b then ''true'' else ''false'') @ '']'')"
| "print_handle sf (IntConst _ v) ids = out (''int['' @ show_int v @ '']'')"
| "print_handle sf (FloatConst _ v) ids = out (''float['' @ sf v @ '']'')"
| "print_handle sf (StringConst _ v) ids = out (''string['' @ v @ '']'')"
| "print_handle sf (LabelHandle name _) ids = out (''label['' @ name @ '']'')"
| "print_handle sf (TypeHandle name _ _) ids = out (''named_type['' @ name @ '']'')"
| "print_handle sf (ArrayRef _ _) ids =
     res_bind (arr_get ids 0) (\<lambda>i. res_bind (arr_get ids 1) (\<lambda>j.
       out (''array_ref('' @ ref i @ '', '' @ ref j @ '')'')))"
| "print_handle sf (MemberRef base) ids =
     res_bind (arr_get ids 0) (\<lambda>i.
       out (''member_ref('' @ ref i @ '', var['' @ handle_name (MemberRef base) @ '']''))"

text \<open>
  One line. \<open>fs\<close> are the functions the calls were resolved to, \<open>ls\<close> the numbers of the labels and
  \<open>ids\<close> those of the operands, the ones of the handle first.
\<close>

definition on_handle ::
  "(f64 \<Rightarrow> string) \<Rightarrow> ir_handle \<Rightarrow> nat list \<Rightarrow> string res" where
  "on_handle sf h ids = (let k = length (handle_operands h) in
     outs [print_handle sf h (take k ids), out (refs (drop k ids))])"

fun node_text ::
  "(f64 \<Rightarrow> string) \<Rightarrow> ir_handle option list \<Rightarrow> (nat \<rightharpoonup> nat) \<Rightarrow> ir_node \<Rightarrow> nat list \<Rightarrow> string res" where
  "node_text sf fs ls (UniOp opc _ _) ids = outs [uni_name opc, out (refs ids)]"
| "node_text sf fs ls (BinOp opc _ _ _) ids = outs [bin_name opc, out (refs ids)]"
| "node_text sf fs ls (TriOp opc _ _ _ _) ids = outs [tri_name opc, out (refs ids)]"
| "node_text sf fs ls (Load _ h) ids = outs [out ''load '', on_handle sf h ids]"
| "node_text sf fs ls (Store h _) ids = outs [out ''store '', on_handle sf h ids]"
| "node_text sf fs ls (InplaceUniOp opc h) ids = outs [inplace_uni_name opc, on_handle sf h ids]"
| "node_text sf fs ls (InplaceBinOp opc h _) ids = outs [inplace_bin_name opc, on_handle sf h ids]"
| "node_text sf fs ls (FuncCall c _) ids =
     res_bind (arr_get fs (int c)) (\<lambda>f. case f of
        None \<Rightarrow> Inl NullDeref
      | Some h \<Rightarrow> outs [out ''func_call '', print_handle sf h [], out (refs ids)])"
| "node_text sf fs ls (Return _) ids = outs [out ''return'', out (refs ids)]"
| "node_text sf fs ls (Jump l) ids =
     res_bind (label_id ls l) (\<lambda>i. outs [out ''jump'', out (refs [i])])"
| "node_text sf fs ls (BranchTrue l _) ids =
     res_bind (label_id ls l) (\<lambda>i. outs [out ''branch_true'', out (refs (i # ids))])"
| "node_text sf fs ls (BranchFalse l _) ids =
     res_bind (label_id ls l) (\<lambda>i. outs [out ''branch_false'', out (refs (i # ids))])"
| "node_text sf fs ls (Label _) ids = out ''label''"
| "node_text sf fs ls Halt ids = out ''halt''"

definition print_node ::
  "(f64 \<Rightarrow> string) \<Rightarrow> ir_handle option list \<Rightarrow> (nat \<rightharpoonup> nat) \<Rightarrow> nat \<Rightarrow> entry \<Rightarrow> string res" where
  "print_node sf fs ls i e =
     outs [out (ref i @ '' = ''), node_text sf fs ls (fst e) (snd e), out [nl]]"

text \<open>The numbers of the labels are kept for the blocks that follow.\<close>

definition print_node_list ::
  "(f64 \<Rightarrow> string) \<Rightarrow> ir_handle option list \<Rightarrow> (nat \<rightharpoonup> nat) \<Rightarrow> ir_node option list
     \<Rightarrow> (string \<times> (nat \<rightharpoonup> nat)) res" where
  "print_node_list sf fs ls nodes =
     res_bind (dfs_all nodes []) (\<lambda>(_, es). let ls' = label_ids 0 es ls
       in res_map (\<lambda>text. (text, ls'))
            (outs (map (\<lambda>i. print_node sf fs ls' i (es ! i)) [0..<length es])))"

section \<open>Types\<close>

fun type_word :: "type_id \<Rightarrow> string" where
  "type_word kVoidType = ''void''"
| "type_word kBooleanType = ''boolean''"
| "type_word kIntType = ''int''"
| "type_word kFloatType = ''float''"
| "type_word kStringType = ''string''"
| "type_word kArrayType = ''__array__''"
| "type_word kSetType = ''__set__''"
| "type_word kMapType = ''__map__''"
| "type_word kFuncType = ''__function__''"
| "type_word kNamedType = ''__named__''"
| "type_word kClassType = ''__class__''"
| "type_word kEnumType = ''__enum__''"
| "type_word kUserDefType = ''__user__''"

text \<open>
  The virtual \<^verbatim>\<open>print\<close> of a type follows the pointers to other types. One unit of fuel is spent on
  each, and \<open>None\<close> means that it ran out.
\<close>

fun print_type :: "nat \<Rightarrow> ty list \<Rightarrow> nat \<Rightarrow> string res option" where
  "print_type 0 tys p = None"
| "print_type (Suc fuel) tys p =
     (case type_at tys p of
        Inl e \<Rightarrow> Some (Inl e)
      | Inr (PrimTy k) \<Rightarrow> Some (out (type_word k))
      | Inr (ArrayTy e) \<Rightarrow>
          map_option (\<lambda>x. outs [out ''array('', x, out '')'']) (print_type fuel tys e)
      | Inr (SetTy e) \<Rightarrow>
          map_option (\<lambda>x. outs [out ''set('', x, out '')'']) (print_type fuel tys e)
      | Inr (MapTy k e) \<Rightarrow>
          Option.bind (print_type fuel tys k) (\<lambda>x. map_option
            (\<lambda>y. outs [out ''map('', x, out '', '', y, out '')'']) (print_type fuel tys e))
      | Inr (FuncTy r ins) \<Rightarrow>
          Option.bind (those (map (print_type fuel tys) ins)) (\<lambda>xs. map_option
            (\<lambda>y. outs [out ''function('', commas xs, out '') : '', y]) (print_type fuel tys r))
      | Inr (EnumTy name _) \<Rightarrow> Some (out name))"

section \<open>Blocks\<close>

text \<open>The lines for the variables and those for the functions of a toplevel block.\<close>

definition print_var :: "string \<Rightarrow> ty list \<Rightarrow> ir_handle \<Rightarrow> string res option" where
  "print_var kind tys h =
     (case res_bind (handle_local_index h) (\<lambda>i. res_bind (handle_value_type h) (\<lambda>t.
             res_map (Pair i) (deref t))) of
        Inl e \<Rightarrow> Some (Inl e)
      | Inr (i, p) \<Rightarrow>
          map_option (\<lambda>x. outs [out (kind @ '' #'' @ show_nat i @ '': '' @ handle_name h @ '': ''), x, out [nl]])
            (print_type (Suc (length tys)) tys p))"

fun print_funcs ::
  "(f64 \<Rightarrow> string) \<Rightarrow> ir_handle option list \<Rightarrow> (nat \<rightharpoonup> nat) \<Rightarrow> func_block list \<Rightarrow> string res" where
  "print_funcs sf fs ls [] = out ''''"
| "print_funcs sf fs ls (b # bs) =
     res_bind (handle_local_index (mFuncHandle b)) (\<lambda>i.
     res_bind (print_node_list sf fs ls (mNodeList (func_code b))) (\<lambda>(text, ls').
       cat (out ([nl] @ ''function #'' @ show_nat i @ '': '' @ handle_name (mFuncHandle b) @ [nl] @ text))
         (print_funcs sf fs ls' bs)))"

definition print_code ::
  "(f64 \<Rightarrow> string) \<Rightarrow> ty list \<Rightarrow> ir_handle option list \<Rightarrow> (nat \<rightharpoonup> nat) \<Rightarrow> toplevel \<Rightarrow> string res option" where
  "print_code sf tys fs ls block =
     Option.bind (those (map (print_var ''global'' tys) (mGlobalVarList block))) (\<lambda>globals.
     map_option (\<lambda>vars.
       outs [outs globals, outs vars,
         res_bind (print_node_list sf fs ls (mNodeList (top_code block))) (\<lambda>(text, ls').
           outs [out text, out (''--- end of toplevel code ---'' @ [nl]),
             print_funcs sf fs ls' (mFuncList block)])])
       (those (map (print_var ''var'' tys) (mVarList (top_code block)))))"

section \<open>Printed types\<close>

lemma those_Some: "(\<And>x. x \<in> set xs \<Longrightarrow> \<exists>y. f x = Some y) \<Longrightarrow> \<exists>ys. those (map f xs) = Some ys"
  by (induction xs) fastforce+

lemma print_type_total:
  assumes "refs_ok tys" "p < length tys" "p < fuel"
  shows "\<exists>r. print_type fuel tys p = Some r"
  using assms(2,3)
proof (induction fuel arbitrary: p)
  case (Suc fuel)
  have t: "type_at tys p = Inr (tys ! p)" using Suc.prems by (simp add: type_at_def arr_get_def)
  have rec: "\<exists>r. print_type fuel tys q = Some r" if "q \<in> set (type_refs (tys ! p))" for q
  proof -
    have "q < p" using that assms(1) Suc.prems(1) by (auto simp: refs_ok_def)
    then show ?thesis using Suc.prems by (intro Suc.IH) simp_all
  qed
  show ?case
  proof (cases "tys ! p")
    case (FuncTy r ins)
    obtain xs where "those (map (print_type fuel tys) ins) = Some xs"
      using those_Some [of ins "print_type fuel tys"] rec FuncTy by auto
    moreover obtain y where "print_type fuel tys r = Some y" using rec [of r] FuncTy by auto
    ultimately show ?thesis by (simp add: t FuncTy)
  next
    case (MapTy k e)
    obtain x y where "print_type fuel tys k = Some x" "print_type fuel tys e = Some y"
      using rec [of k] rec [of e] MapTy by auto
    then show ?thesis by (simp add: t MapTy)
  qed (use rec in \<open>auto simp: t\<close>)
qed simp

lemma print_var_total: "refs_ok tys \<Longrightarrow> \<exists>r. print_var kind tys h = Some r"
proof -
  assume tys: "refs_ok tys"
  have "\<exists>r. print_type (Suc (length tys)) tys p = Some r" for p
  proof (cases "p < length tys")
    case True
    then show ?thesis by (intro print_type_total [OF tys]) simp_all
  next
    case False
    then show ?thesis by (simp add: type_at_def)
  qed
  then show ?thesis
    by (auto simp: print_var_def split: sum.split)
qed

text \<open>
  C26: The printer terminates on every toplevel block when the pointers in the types lead to older
  types, as they do in the type manager: the fuel of the types, one more than there are types, never
  runs out, whatever the handles of the variables point to.
\<close>

theorem print_code_terminates:
  assumes "tm_ok m"
  shows "\<exists>r. print_code sf (mTypeList m) fs ls block = Some r"
proof -
  have tys: "refs_ok (mTypeList m)" using assms by (simp add: tm_ok_def tm_core_def)
  have "\<exists>ys. those (map (print_var kind (mTypeList m)) hs) = Some ys" for kind hs
    using print_var_total [OF tys] by (intro those_Some) blast
  then obtain globals vars where
    "those (map (print_var ''global'' (mTypeList m)) (mGlobalVarList block)) = Some globals"
    "those (map (print_var ''var'' (mTypeList m)) (mVarList (top_code block))) = Some vars"
    by meson
  then show ?thesis by (simp add: print_code_def)
qed

section \<open>The numbers of a block\<close>

text \<open>
  The numbers kept with an entry are those of earlier entries, and the nodes there are its operands.
  \<open>used\<close> collects all of them.
\<close>

definition numbered :: "entry list \<Rightarrow> bool" where
  "numbered es \<longleftrightarrow> (\<forall>i < length es.
     (\<forall>j \<in> set (snd (es ! i)). j < i) \<and>
     map (\<lambda>j. fst (es ! j)) (snd (es ! i)) = node_operands (fst (es ! i)))"

definition used :: "entry list \<Rightarrow> nat multiset" where
  "used es = mset (concat (map snd es))"

text \<open>\<open>es'\<close> continues \<open>es\<close> with the trees \<open>ns\<close>, whose roots are numbered \<open>is\<close>.\<close>

definition continues :: "ir_node list \<Rightarrow> nat list \<Rightarrow> entry list \<Rightarrow> entry list \<Rightarrow> bool" where
  "continues ns is es es' \<longleftrightarrow>
     (\<exists>xs. es' = es @ xs) \<and> map (\<lambda>i. fst (es' ! i)) is = ns \<and>
     (\<forall>i \<in> set is. length es \<le> i \<and> i < length es') \<and> sorted is \<and>
     used es' + mset is = used es + mset [length es..<length es'] \<and>
     (numbered es \<longrightarrow> numbered es')"

lemma continues_nil: "continues [] [] es es"
  by (simp add: continues_def)

lemma continues_cons:
  assumes "continues [n] [i] es es'" "continues ns is es' es''"
  shows "continues (n # ns) (i # is) es es''"
proof -
  obtain xs ys where app: "es' = es @ xs" "es'' = es' @ ys" using assms by (auto simp: continues_def)
  have "mset [length es..<length es''] = mset [length es..<length es'] + mset [length es'..<length es'']"
    using app upt_add_eq_append [of "length es" "length es'" "length ys"]
    by (metis length_append le_add1 mset_append)
  moreover have "used es' + {#i#} = used es + mset [length es..<length es']"
    "used es'' + mset is = used es' + mset [length es'..<length es'']"
    using assms by (simp_all add: continues_def)
  ultimately have "used es'' + mset (i # is) = used es + mset [length es..<length es'']"
    by (simp add: ac_simps)
  moreover have i: "i < length es'" "fst (es' ! i) = n" "length es \<le> i"
    using assms(1) by (auto simp: continues_def)
  ultimately show ?thesis
    using assms app by (fastforce simp: continues_def nth_append)
qed

lemma continues_node:
  assumes "continues (node_operands n) ids es es'"
  shows "continues [n] [length es'] es (es' @ [(n, ids)])"
proof -
  obtain xs where app: "es' = es @ xs" using assms by (auto simp: continues_def)
  have ids: "map (\<lambda>i. fst (es' ! i)) ids = node_operands n" "\<forall>i \<in> set ids. i < length es'"
    using assms by (auto simp: continues_def)
  have "numbered (es' @ [(n, ids)])" if "numbered es'"
    unfolding numbered_def
  proof (intro allI impI)
    fix i assume "i < length (es' @ [(n, ids)])"
    then consider "i < length es'" | "i = length es'" by fastforce
    then show "(\<forall>j \<in> set (snd ((es' @ [(n, ids)]) ! i)). j < i) \<and>
        map (\<lambda>j. fst ((es' @ [(n, ids)]) ! j)) (snd ((es' @ [(n, ids)]) ! i))
          = node_operands (fst ((es' @ [(n, ids)]) ! i))"
    proof cases
      case 1
      then have "\<forall>j \<in> set (snd (es' ! i)). j < i"
        "map (\<lambda>j. fst (es' ! j)) (snd (es' ! i)) = node_operands (fst (es' ! i))"
        using that by (auto simp: numbered_def)
      moreover have "map (\<lambda>j. fst ((es' @ [(n, ids)]) ! j)) (snd (es' ! i))
          = map (\<lambda>j. fst (es' ! j)) (snd (es' ! i))"
        using 1 calculation(1) by (intro map_cong) (auto simp: nth_append)
      ultimately show ?thesis using 1 by (simp add: nth_append)
    next
      case 2
      have "map (\<lambda>j. fst ((es' @ [(n, ids)]) ! j)) ids = map (\<lambda>j. fst (es' ! j)) ids"
        using ids(2) by (intro map_cong) (auto simp: nth_append)
      then show ?thesis using 2 ids by simp
    qed
  qed
  then show ?thesis using assms app by (simp add: continues_def used_def)
qed

lemma dfs_continues:
  "case dfs_node n es of (i, es') \<Rightarrow> continues [n] [i] es es'"
  "case dfs_operands ns es of (is, es') \<Rightarrow> continues ns is es es'"
proof (induction n es and ns es rule: dfs_node_dfs_operands.induct)
  case (1 n es)
  then show ?case by (auto simp: dfs_node.simps continues_node split: prod.splits)
next
  case (3 n ns es)
  then show ?case by (auto split: prod.splits intro: continues_cons)
qed (simp add: continues_nil)

lemma dfs_all_continues:
  "dfs_all nodes es = Inr (is, es') \<Longrightarrow> \<exists>ns. nodes = map Some ns \<and> continues ns is es es'"
proof (induction nodes es arbitrary: "is" rule: dfs_all.induct)
  case (1 es)
  then show ?case by (simp add: continues_nil)
next
  case (3 n nodes es)
  obtain i es1 where d: "dfs_node n es = (i, es1)" by fastforce
  then obtain js where js: "dfs_all nodes es1 = Inr (js, es')" "is = i # js"
    using 3(2) by (auto simp: res_map_def split: sum.splits)
  obtain ns where "nodes = map Some ns" "continues ns js es1 es'" using 3(1) [OF d [symmetric] js(1)] by blast
  then show ?case
    using dfs_continues(1) [of n es] continues_cons d js by (intro exI [of _ "n # ns"]) fastforce
qed simp

lemma label_ids_other: "Label l \<notin> fst ` set es \<Longrightarrow> label_ids i es ids l = ids l"
  by (induction i es ids rule: label_ids.induct) (auto split: ir_node.split)

lemma label_ids_at:
  "Label l \<in> fst ` set es \<Longrightarrow> \<exists>k < length es. label_ids i es ids l = Some (i + k) \<and> fst (es ! k) = Label l"
proof (induction i es ids rule: label_ids.induct)
  case (2 i n js es ids)
  show ?case
  proof (cases "Label l \<in> fst ` set es")
    case True
    then obtain k where "k < length es" "fst (es ! k) = Label l"
      "label_ids (Suc i) es (case n of Label l \<Rightarrow> ids(l \<mapsto> i) | _ \<Rightarrow> ids) l = Some (Suc i + k)"
      using 2(1) by blast
    then show ?thesis by (intro exI [of _ "Suc k"]) simp
  next
    case False
    then show ?thesis using 2(2) by (auto simp: label_ids_other intro!: exI [of _ 0])
  qed
qed simp

lemma outs_map_Inr: "outs (map f xs) = Inr t \<Longrightarrow> \<exists>ys. map f xs = map Inr ys \<and> t = concat ys"
proof (induction xs arbitrary: t)
  case (Cons x xs)
  then obtain y t' where y: "f x = Inr y" "outs (map f xs) = Inr t'" "t = y @ t'"
    by (cases "f x"; cases "outs (map f xs)") (auto simp: cat_def)
  then obtain ys where "map f xs = map Inr ys" "t' = concat ys" using Cons.IH by blast
  then show ?case using y by (intro exI [of _ "y # ys"]) simp
qed (simp add: out_def)

lemma res_map_Inr: "res_map (\<lambda>x. (x, c)) r = Inr (y, d) \<longleftrightarrow> r = Inr y \<and> d = c"
  by (cases r) (auto simp: res_map_def)

text \<open>
  C25: What is printed for a block is a linear form of its trees. There is one line for each node,
  numbered from 0; the operands of a line are numbers of earlier lines, and the nodes there are the
  operands of its node; the nodes of the block appear in their order; every line is a node of the
  block or the operand of exactly one other line, once. A label of the block is printed in every
  jump as the number of the line of that label.
\<close>

theorem printed_block_linear:
  assumes "print_node_list sf fs ls nodes = Inr (text, ls')"
  shows "\<exists>roots es lines. text = concat lines \<and> length lines = length es \<and>
    (\<forall>i < length es. print_node sf fs ls' i (es ! i) = Inr (lines ! i)) \<and>
    map (\<lambda>i. Some (fst (es ! i))) roots = nodes \<and> sorted roots \<and> numbered es \<and>
    used es + mset roots = mset [0..<length es] \<and>
    (\<forall>l. Label l \<in> fst ` set es \<longrightarrow> (\<exists>k < length es. ls' l = Some k \<and> fst (es ! k) = Label l))"
proof -
  obtain roots es where d: "dfs_all nodes [] = Inr (roots, es)"
    using assms by (cases "dfs_all nodes []") (auto simp: print_node_list_def)
  from assms have ls': "ls' = label_ids 0 es ls"
    and p: "outs (map (\<lambda>i. print_node sf fs ls' i (es ! i)) [0..<length es]) = Inr text"
    by (simp_all add: print_node_list_def d Let_def res_map_Inr)
  obtain ns where ns: "nodes = map Some ns" "continues ns roots [] es"
    using dfs_all_continues [OF d] by blast
  obtain lines where lines: "map (\<lambda>i. print_node sf fs ls' i (es ! i)) [0..<length es] = map Inr lines"
    "text = concat lines"
    using outs_map_Inr [OF p] by blast
  have len: "length lines = length es" using arg_cong [OF lines(1), of length] by simp
  have "print_node sf fs ls' i (es ! i) = Inr (lines ! i)" if "i < length es" for i
    using arg_cong [OF lines(1), of "\<lambda>xs. xs ! i"] that len by simp
  moreover have "map (\<lambda>i. Some (fst (es ! i))) roots = nodes" "sorted roots" "numbered es"
    "used es + mset roots = mset [0..<length es]"
    using ns by (auto simp: continues_def numbered_def used_def)
  moreover have "\<exists>k < length es. ls' l = Some k \<and> fst (es ! k) = Label l" if "Label l \<in> fst ` set es" for l
    using label_ids_at [OF that, of 0] by (simp add: ls')
  ultimately show ?thesis
    using lines(2) len by (intro exI [of _ roots] exI [of _ es] exI [of _ lines]) blast
qed

definition demo_nodes :: "ir_node option list" where
  "demo_nodes = [Some (Label 0),
     Some (Store (LocalVarHandle ''x'' (Some 2) 0 1)
       (BinOp kOpAdd (Some 2) (Load (Some 2) (LocalVarHandle ''x'' (Some 2) 0 1))
         (Load (Some 2) (IntConst ''one'' 1)))),
     Some (Jump 0)]"

definition demo_lines :: string where
  "demo_lines = ''%0 = label'' @ [nl] @ ''%1 = load var[x: module#0: #1]'' @ [nl] @
     ''%2 = load int[1]'' @ [nl] @ ''%3 = add %1 %2'' @ [nl] @
     ''%4 = store var[x: module#0: #1] %3'' @ [nl] @ ''%5 = jump %0'' @ [nl]"

lemma demo_printed: "res_map fst (print_node_list (\<lambda>_. []) [] Map.empty demo_nodes) = Inr demo_lines"
  by code_simp

theorem printed_block_linear_witness:
  "\<exists>ls' roots es lines. demo_lines = concat lines \<and> length lines = length es \<and>
    (\<forall>i < length es. print_node (\<lambda>_. []) [] ls' i (es ! i) = Inr (lines ! i)) \<and>
    map (\<lambda>i. Some (fst (es ! i))) roots = demo_nodes \<and> sorted roots \<and> numbered es \<and>
    used es + mset roots = mset [0..<length es] \<and>
    (\<forall>l. Label l \<in> fst ` set es \<longrightarrow> (\<exists>k < length es. ls' l = Some k \<and> fst (es ! k) = Label l))"
proof -
  obtain ls' where "print_node_list (\<lambda>_. []) [] Map.empty demo_nodes = Inr (demo_lines, ls')"
    using demo_printed by (auto simp: res_map_def split: sum.splits)
  from printed_block_linear [OF this] show ?thesis by (intro exI [of _ ls'])
qed

theorem print_code_terminates_witness:
  "\<exists>m r. TypeMgr_new = Inr m \<and> print_code (\<lambda>_. []) (mTypeList m) [] Map.empty
     \<lparr>top_code = \<lparr>mVarList = [], mNodeList = demo_nodes\<rparr>, mModuleList = [],
      mGlobalVarList = [GlobalVarHandle ''g'' (Some 3) 0 0], mFuncList = []\<rparr> = Some r"
proof -
  obtain m where m: "TypeMgr_new = Inr m" "tm_ok m" using TypeMgr_new_ok by blast
  then show ?thesis using print_code_terminates [OF m(2)] by blast
qed

end
