(* ===== verification/Ir_Class.thy ===== *)
theory Ir_Class
  imports Ast_Class Ir_Printer
begin

text \<open>
  The classes of nodes and handles of the intermediate representation (\<^verbatim>\<open>src/ir/node\<close>,
  \<^verbatim>\<open>src/ir/handle\<close>) as objects, like those of the syntax tree in \<open>Ast_Class\<close>: a record of the answers
  of the virtual functions, given by a base class and overridden by the classes. The accessors the
  other theories use, functions on trees, are shown to be the answers of these objects.
\<close>

section \<open>Handles\<close>

text \<open>
  The base class asserts or answers \<^verbatim>\<open>NULL\<close>; the name, the kind and whether the handle is static are
  pure virtual and given by every class.
\<close>

record handle_obj =
  h_type :: handle_type
  h_name :: string
  h_is_static :: bool
  h_scope :: "nat res"
  h_value_type :: "tptr res"
  h_module_index :: "nat res"
  h_local_index :: "nat res"
  h_boolean_val :: "bool res"
  h_int_val :: "i32 res"
  h_float_val :: "f64 res"
  h_string_val :: "string res"
  h_label :: "nat option"
  h_named_type :: tptr
  h_array_expr :: "ir_node option"
  h_array_index :: "ir_node option"
  h_obj_expr :: "ir_node option"

definition IrHandle ::
  "handle_type \<Rightarrow> string \<Rightarrow> bool \<Rightarrow> handle_obj" where
  "IrHandle k name static =
     \<lparr>h_type = k, h_name = name, h_is_static = static, h_scope = Inl AssertFail,
      h_value_type = Inl AssertFail, h_module_index = Inl AssertFail,
      h_local_index = Inl AssertFail, h_boolean_val = Inl AssertFail, h_int_val = Inl AssertFail,
      h_float_val = Inl AssertFail, h_string_val = Inl AssertFail, h_label = None,
      h_named_type = None, h_array_expr = None, h_array_index = None, h_obj_expr = None\<rparr>"

definition IrIndexHandle ::
  "handle_type \<Rightarrow> string \<Rightarrow> tptr \<Rightarrow> nat \<Rightarrow> nat \<Rightarrow> handle_obj" where
  "IrIndexHandle k name type mi li = (IrHandle k name False)
     \<lparr>h_value_type := Inr type, h_module_index := Inr mi, h_local_index := Inr li\<rparr>"

definition IrGlobalVarHandle ::
  "string \<Rightarrow> tptr \<Rightarrow> nat \<Rightarrow> nat \<Rightarrow> handle_obj" where
  "IrGlobalVarHandle name type mi li = IrIndexHandle hGlobalVar name type mi li"

definition IrLocalVarHandle ::
  "string \<Rightarrow> tptr \<Rightarrow> nat \<Rightarrow> nat \<Rightarrow> handle_obj" where
  "IrLocalVarHandle name type mi li = IrIndexHandle hLocalVar name type mi li"

definition IrFuncHandle ::
  "string \<Rightarrow> tptr \<Rightarrow> nat \<Rightarrow> nat \<Rightarrow> handle_obj" where
  "IrFuncHandle name type mi li = IrIndexHandle hFunction name type mi li"

definition IrScopeHandle :: "string \<Rightarrow> nat \<Rightarrow> handle_obj" where
  "IrScopeHandle name scope = (IrHandle hScope name False)\<lparr>h_scope := Inr scope\<rparr>"

definition IrBooleanConst :: "string \<Rightarrow> bool \<Rightarrow> handle_obj" where
  "IrBooleanConst name val = (IrHandle hBooleanConst name True)
     \<lparr>h_boolean_val := Inr val\<rparr>"

definition IrIntConst :: "string \<Rightarrow> i32 \<Rightarrow> handle_obj" where
  "IrIntConst name val = (IrHandle hIntConst name True)\<lparr>h_int_val := Inr val\<rparr>"

definition IrFloatConst :: "string \<Rightarrow> f64 \<Rightarrow> handle_obj" where
  "IrFloatConst name val = (IrHandle hFloatConst name True)\<lparr>h_float_val := Inr val\<rparr>"

definition IrStringConst :: "string \<Rightarrow> string \<Rightarrow> handle_obj" where
  "IrStringConst name val = (IrHandle hStringConst name True)
     \<lparr>h_string_val := Inr val\<rparr>"

definition IrLabelHandle :: "string \<Rightarrow> nat \<Rightarrow> handle_obj" where
  "IrLabelHandle name label = (IrHandle hLabel name False)\<lparr>h_label := Some label\<rparr>"

text \<open>The name of a handle of a type is that of the type, which is kept with the handle.\<close>

definition IrTypeHandle ::
  "string \<Rightarrow> tptr \<Rightarrow> nat \<Rightarrow> handle_obj" where
  "IrTypeHandle name type scope = (IrHandle hNamedType name False)
     \<lparr>h_scope := Inr scope, h_named_type := type\<rparr>"

definition IrArrayRef :: "ir_node \<Rightarrow> ir_node \<Rightarrow> handle_obj" where
  "IrArrayRef base offset = (IrHandle hArrayRef [] False)
     \<lparr>h_array_expr := Some base, h_array_index := Some offset\<rparr>"

definition IrMemberRef :: "ir_node \<Rightarrow> handle_obj" where
  "IrMemberRef base = (IrHandle hMemberRef [] False)\<lparr>h_obj_expr := Some base\<rparr>"

fun as_handle :: "ir_handle \<Rightarrow> handle_obj" where
  "as_handle (ScopeHandle name scope) = IrScopeHandle name scope"
| "as_handle (GlobalVarHandle name type m i) = IrGlobalVarHandle name type m i"
| "as_handle (LocalVarHandle name type m i) = IrLocalVarHandle name type m i"
| "as_handle (FuncHandle name type m i) = IrFuncHandle name type m i"
| "as_handle (BooleanConst name val) = IrBooleanConst name val"
| "as_handle (IntConst name val) = IrIntConst name val"
| "as_handle (FloatConst name val) = IrFloatConst name val"
| "as_handle (StringConst name val) = IrStringConst name val"
| "as_handle (LabelHandle name label) = IrLabelHandle name label"
| "as_handle (TypeHandle name type scope) = IrTypeHandle name type scope"
| "as_handle (ArrayRef base offset) = IrArrayRef base offset"
| "as_handle (MemberRef base) = IrMemberRef base"

section \<open>Nodes\<close>

text \<open>
  \<^verbatim>\<open>is_static\<close> is pure virtual and asks the operands, so it takes the question as an argument. The
  function a call was resolved to and whether a label is defined are kept by number in the manager.
\<close>

fun show_ir_type :: "ir_type \<Rightarrow> string res" where
  "show_ir_type kUniOp = Inr ''UniOp''"
| "show_ir_type kBinOp = Inr ''BinOp''"
| "show_ir_type kTriOp = Inr ''TriOp''"
| "show_ir_type kLoad = Inr ''Load''"
| "show_ir_type kStore = Inr ''Store''"
| "show_ir_type kFuncCall = Inr ''FuncCall''"
| "show_ir_type kReturn = Inr ''Return''"
| "show_ir_type kJump = Inr ''Jump''"
| "show_ir_type kBranchTrue = Inr ''BranchTrue''"
| "show_ir_type kBranchFalse = Inr ''BranchFalse''"
| "show_ir_type kLabel = Inr ''Label''"
| "show_ir_type kHalt = Inr ''Halt''"
| "show_ir_type _ = Inl AssertFail"

record node_obj =
  n_type :: ir_type
  n_value_type :: tptr
  n_is_static :: "(ir_node \<Rightarrow> bool) \<Rightarrow> bool res"
  n_opcode :: "op_code res"
  n_operand_num :: nat
  n_operand :: "nat \<Rightarrow> ir_node res"
  n_address :: "ir_handle res"
  n_store_val :: "ir_node res"
  n_arglist_num :: "nat res"
  n_arglist_elem :: "nat \<Rightarrow> ir_node res"
  n_jump_addr :: "nat res"
  n_branch_cond :: "ir_node option res"
  n_return_val :: "ir_node option res"

definition IrNode ::
  "ir_type \<Rightarrow> tptr \<Rightarrow> ((ir_node \<Rightarrow> bool) \<Rightarrow> bool res) \<Rightarrow> node_obj" where
  "IrNode k type static =
     \<lparr>n_type = k, n_value_type = type, n_is_static = static, n_opcode = Inl AssertFail,
      n_operand_num = 0, n_operand = \<lambda>pos. Inl AssertFail, n_address = Inl AssertFail,
      n_store_val = Inl AssertFail, n_arglist_num = Inl AssertFail,
      n_arglist_elem = \<lambda>pos. Inl AssertFail, n_jump_addr = Inl AssertFail,
      n_branch_cond = Inl AssertFail, n_return_val = Inl AssertFail\<rparr>"

definition always :: "bool \<Rightarrow> (ir_node \<Rightarrow> bool) \<Rightarrow> bool res" where
  "always b = (\<lambda>_. Inr b)"

definition all_static :: "nat \<Rightarrow> (nat \<Rightarrow> ir_node res) \<Rightarrow> (ir_node \<Rightarrow> bool) \<Rightarrow> bool res" where
  "all_static n operands static =
     fold (\<lambda>i r. res_bind r (\<lambda>b. if b then res_map static (operands i) else Inr False)) [0..<n] (Inr True)"

definition IrOp ::
  "ir_type \<Rightarrow> op_code \<Rightarrow> tptr \<Rightarrow> ((ir_node \<Rightarrow> bool) \<Rightarrow> bool res) \<Rightarrow> node_obj" where
  "IrOp k opcode type static = (IrNode k type static)\<lparr>n_opcode := Inr opcode\<rparr>"

definition IrUniOp ::
  "op_code \<Rightarrow> tptr \<Rightarrow> ir_node \<Rightarrow> node_obj" where
  "IrUniOp opcode type src1 = (IrOp kUniOp opcode type (all_static 1 (elem_at [src1])))
     \<lparr>n_operand_num := 1, n_operand := elem_at [src1]\<rparr>"

definition IrBinOp ::
  "op_code \<Rightarrow> tptr \<Rightarrow> ir_node \<Rightarrow> ir_node \<Rightarrow> node_obj" where
  "IrBinOp opcode type src1 src2 = (IrOp kBinOp opcode type (all_static 2 (elem_at [src1, src2])))
     \<lparr>n_operand_num := 2, n_operand := elem_at [src1, src2]\<rparr>"

definition IrTriOp ::
  "op_code \<Rightarrow> tptr \<Rightarrow> ir_node \<Rightarrow> ir_node \<Rightarrow> ir_node \<Rightarrow> node_obj" where
  "IrTriOp opcode type src1 src2 src3 = (IrOp kTriOp opcode type (all_static 3 (elem_at [src1, src2, src3])))
     \<lparr>n_operand_num := 3, n_operand := elem_at [src1, src2, src3]\<rparr>"

definition IrLoad :: "tptr \<Rightarrow> ir_handle \<Rightarrow> node_obj" where
  "IrLoad type addr = (IrNode kLoad type (always (h_is_static (as_handle addr))))
     \<lparr>n_address := Inr addr\<rparr>"

definition IrStore :: "ir_handle \<Rightarrow> ir_node \<Rightarrow> node_obj" where
  "IrStore addr val = (IrNode kStore None (always False))
     \<lparr>n_address := Inr addr, n_store_val := Inr val\<rparr>"

definition IrInplaceOp ::
  "ir_type \<Rightarrow> op_code \<Rightarrow> ir_handle \<Rightarrow> node_obj" where
  "IrInplaceOp k opcode lhs_addr = (IrOp k opcode None (always False))
     \<lparr>n_address := Inr lhs_addr\<rparr>"

definition IrInplaceUniOp :: "op_code \<Rightarrow> ir_handle \<Rightarrow> node_obj" where
  "IrInplaceUniOp opcode lhs_addr = IrInplaceOp kInplaceUniOp opcode lhs_addr"

definition IrInplaceBinOp ::
  "op_code \<Rightarrow> ir_handle \<Rightarrow> ir_node \<Rightarrow> node_obj" where
  "IrInplaceBinOp opcode lhs_addr opr1 = (IrInplaceOp kInplaceBinOp opcode lhs_addr)
     \<lparr>n_operand_num := 1,
      n_operand := \<lambda>pos. res_bind (assert_cond (pos = 0)) (\<lambda>_. Inr opr1)\<rparr>"

definition IrFuncCall :: "ir_node list \<Rightarrow> node_obj" where
  "IrFuncCall args = (IrNode kFuncCall None (always False))
     \<lparr>n_arglist_num := Inr (length args), n_arglist_elem := elem_at args\<rparr>"

definition IrReturn :: "ir_node option \<Rightarrow> node_obj" where
  "IrReturn ret_val = (IrNode kReturn None (\<lambda>static. Inr (case ret_val of None \<Rightarrow> True | Some a \<Rightarrow> static a)))
     \<lparr>n_return_val := Inr ret_val\<rparr>"

definition IrJump ::
  "ir_type \<Rightarrow> nat \<Rightarrow> ir_node option \<Rightarrow> node_obj" where
  "IrJump k label cond = (IrNode k None (always True))
     \<lparr>n_jump_addr := Inr label, n_branch_cond := Inr cond\<rparr>"

definition IrLabel :: "node_obj" where
  "IrLabel = IrNode kLabel None (always True)"

text \<open>No class has the kind \<^verbatim>\<open>kHalt\<close> and nothing makes such a node; it has the answers of the base.\<close>

fun as_node :: "ir_node \<Rightarrow> node_obj" where
  "as_node (UniOp opcode type a) = IrUniOp opcode type a"
| "as_node (BinOp opcode type a b) = IrBinOp opcode type a b"
| "as_node (TriOp opcode type a b c) = IrTriOp opcode type a b c"
| "as_node (Load type h) = IrLoad type h"
| "as_node (Store h a) = IrStore h a"
| "as_node (InplaceUniOp opcode h) = IrInplaceUniOp opcode h"
| "as_node (InplaceBinOp opcode h a) = IrInplaceBinOp opcode h a"
| "as_node (FuncCall _ args) = IrFuncCall args"
| "as_node (Return v) = IrReturn v"
| "as_node (Jump l) = IrJump kJump l None"
| "as_node (BranchTrue l c) = IrJump kBranchTrue l (Some c)"
| "as_node (BranchFalse l c) = IrJump kBranchFalse l (Some c)"
| "as_node (Label _) = IrLabel"
| "as_node Halt = IrNode kHalt None (always True)"

named_theorems ir_class

lemmas handle_classes [ir_class] = IrHandle_def IrIndexHandle_def IrGlobalVarHandle_def
  IrLocalVarHandle_def IrFuncHandle_def IrScopeHandle_def IrBooleanConst_def IrIntConst_def
  IrFloatConst_def IrStringConst_def IrLabelHandle_def IrTypeHandle_def IrArrayRef_def IrMemberRef_def

lemmas node_classes [ir_class] = IrNode_def IrOp_def IrUniOp_def IrBinOp_def IrTriOp_def IrLoad_def
  IrStore_def IrInplaceOp_def IrInplaceUniOp_def IrInplaceBinOp_def IrFuncCall_def IrReturn_def
  IrJump_def IrLabel_def

section \<open>The accessors on trees\<close>

text \<open>
  The functions by which the elaborator and the code generator ask a handle for its kind, name,
  scope, types and indices, and whether it is static, are the virtual functions of the classes.
\<close>

theorem handle_accessors:
  "handle_type_of h = h_type (as_handle h) \<and> handle_name h = h_name (as_handle h) \<and>
   handle_is_static h = h_is_static (as_handle h) \<and> handle_scope h = h_scope (as_handle h) \<and>
   handle_value_type h = h_value_type (as_handle h) \<and>
   Ir_Printer.module_index h = h_module_index (as_handle h) \<and>
   handle_local_index h = h_local_index (as_handle h) \<and>
   handle_named_type h = h_named_type (as_handle h)"
  by (cases h) (simp_all add: ir_class)

lemma static_operands [simp]:
  "all_static (Suc 0) (elem_at [a]) s = Inr (s a)"
  "all_static 2 (elem_at [a, b]) s = Inr (s a \<and> s b)"
  "all_static 3 (elem_at [a, b, c]) s = Inr (s a \<and> s b \<and> s c)"
  by (auto simp: all_static_def numeral_2_eq_2 numeral_3_eq_3 res_map_def)

lemma load_static: "h_is_static (as_handle h) = handle_is_static h"
  by (cases h) (simp_all add: ir_class)

text \<open>
  The kind and the type of a node are those its class answers, and \<open>is_static\<close> is the only function
  that satisfies the recursive answers of the classes.
\<close>

theorem node_accessors:
  "node_type n = n_type (as_node n) \<and> value_type n = n_value_type (as_node n) \<and>
   ((\<forall>m. n_is_static (as_node m) s = Inr (s m)) \<longleftrightarrow> s = is_static)"
proof (intro conjI)
  have "n_is_static (as_node m) is_static = Inr (is_static m)" for m
    by (cases m) (auto simp: ir_class always_def load_static split: option.split)
  moreover have "s m = is_static m" if s: "\<forall>m. n_is_static (as_node m) s = Inr (s m)" for m
  proof -
    have eq: "s m = projr (n_is_static (as_node m) s)" for m by (simp add: s)
    show ?thesis
      by (induction m rule: is_static.induct) (subst eq, simp add: ir_class always_def load_static)+
  qed
  ultimately show "(\<forall>m. n_is_static (as_node m) s = Inr (s m)) \<longleftrightarrow> s = is_static" by blast
qed (cases n; simp add: ir_class)+

section \<open>What the numbering visits\<close>

text \<open>The switches of \<^verbatim>\<open>dfs_handle\<close> and \<^verbatim>\<open>dfs_node\<close>: the pointers they go on with, in their order.\<close>

definition visited_by_handle :: "handle_obj \<Rightarrow> ir_node option list" where
  "visited_by_handle h = (case h_type h of
     hArrayRef \<Rightarrow> [h_array_expr h, h_array_index h]
   | hMemberRef \<Rightarrow> [h_obj_expr h]
   | hMethodRef \<Rightarrow> [h_obj_expr h]
   | _ \<Rightarrow> [])"

fun res_all :: "'a res list \<Rightarrow> 'a list res" where
  "res_all [] = Inr []"
| "res_all (r # rs) = res_bind r (\<lambda>x. res_map ((#) x) (res_all rs))"

definition visited :: "node_obj \<Rightarrow> ir_node option list res" where
  "visited n = (let opr = (\<lambda>i. res_map Some (n_operand n i));
       handle = res_map (\<lambda>h. visited_by_handle (as_handle h)) (n_address n) in
     case n_type n of
       kUniOp \<Rightarrow> res_all [opr 0]
     | kBinOp \<Rightarrow> res_all [opr 0, opr 1]
     | kTriOp \<Rightarrow> res_all [opr 0, opr 1, opr 2]
     | kLoad \<Rightarrow> handle
     | kStore \<Rightarrow> res_bind handle (\<lambda>xs. res_map (\<lambda>v. xs @ [Some v]) (n_store_val n))
     | kInplaceUniOp \<Rightarrow> handle
     | kInplaceBinOp \<Rightarrow> res_bind handle (\<lambda>xs. res_map (\<lambda>x. xs @ [x]) (opr 0))
     | kFuncCall \<Rightarrow> res_bind (n_arglist_num n) (\<lambda>k.
         res_all (map (\<lambda>i. res_map Some (n_arglist_elem n i)) [0..<k]))
     | kReturn \<Rightarrow> res_map (\<lambda>v. if v \<noteq> None then [v] else []) (n_return_val n)
     | kJump \<Rightarrow> Inr []
     | kBranchTrue \<Rightarrow> res_map (\<lambda>c. [c]) (n_branch_cond n)
     | kBranchFalse \<Rightarrow> res_map (\<lambda>c. [c]) (n_branch_cond n)
     | _ \<Rightarrow> Inr [])"

lemma visited_by_handle [simp]: "visited_by_handle (as_handle h) = map Some (handle_operands h)"
  by (cases h) (simp_all add: visited_by_handle_def ir_class)

lemma res_all_map: "res_all (map (\<lambda>x. Inr (f x)) xs) = Inr (map f xs)"
  by (induction xs) (simp_all add: res_map_def)

lemma res_all_elems: "res_all (map (\<lambda>i. res_map Some (elem_at xs i)) [0..<length xs]) = Inr (map Some xs)"
proof -
  have "map (\<lambda>i. res_map Some (elem_at xs i)) [0..<length xs] = map (\<lambda>x. Inr (Some x)) xs"
    by (auto simp: res_map_def intro: nth_equalityI)
  then show ?thesis by (simp add: res_all_map)
qed

text \<open>
  The numbering of the printer goes from a node to pointers that are never \<^verbatim>\<open>NULL\<close> and asks only
  for what the class of the node answers: they are the operands by which \<open>dfs_node\<close> recurs.
\<close>

theorem visited_operands: "visited (as_node n) = Inr (map Some (node_operands n))"
  by (cases n) (simp_all add: visited_def ir_class res_map_def res_all_elems [unfolded res_map_def] split: option.split)

end
