(* ===== verification/Spec2Isabelle.thy ===== *)
theory Spec2Isabelle
  imports Vsm_Typing Vsm_Run Ir_Total Scanner_Tokens Ast_List Ast_Mgr Grammar Ast_Printer Print_Scan Print_Parse Print_Stmt Print_Func Vsm_Module Ymsl_Compiler Ir_Frame Compiler_Props Ast_Class Ir_Printer Ir_Class
begin

text \<open>
  A verification development for YMSL, a small compiled language: a scanner and a grammar give a
  syntax tree, an elaborator turns the tree into typed nodes with jumps, and a virtual machine runs
  bytecode. The theories follow the directories of the repository; the file a theory models is named
  at its head.

  \<^bold>\<open>Conventions\<close> (\<open>Ymsl_Prelude\<close>). Undefined behaviour of C++ and a failing \<^verbatim>\<open>ASSERT_COND\<close> or
  \<^verbatim>\<open>ASSERT_NOT_REACHED\<close> are values of the type \<open>fault\<close>; a function that may meet one returns
  \<open>fault + 'a\<close>. Array accesses are checked. \<^verbatim>\<open>ymuint\<close> and \<^verbatim>\<open>Ymsl_CODE\<close> are 32-bit words, \<^verbatim>\<open>Ymsl_INT\<close>
  is one read as signed (with overflow a fault), \<^verbatim>\<open>Ymsl_FLOAT\<close> is the bit pattern of an IEEE
  double (\<open>Ymsl_Double\<close>). A pointer to an object of a manager is its index. A loop that need not
  end has fuel and returns \<open>None\<close> when it is used up; a theorem then says how much is enough.

  \<^bold>\<open>Reading a program.\<close>
  \<open>Parser_Token\<close> and \<open>Parser_Dic\<close> hold the tokens and the table of reserved words
  (\<^verbatim>\<open>RsrvWordDic.cc\<close>), \<open>Ymsl_Scanner\<close> the states of \<^verbatim>\<open>YmslScanner::scan\<close> over an arbitrary source of
  characters, one definition for each label. \<open>Scanner_Spec\<close> states what they compute as functions on
  the text, \<open>Scanner_Correct\<close> proves it, and \<open>Scanner_Tokens\<close> has the theorems on whole texts:
  reading ends, spelling and scanning are inverse, the values of literals. Fuel: the characters left
  and two.
  \<open>Ast\<close> holds the syntax tree, \<open>Ast_List\<close> the linked lists the parser collects elements in, with
  the interface \<open>collector\<close>, \<open>Ast_Mgr\<close> the constructors the parser calls and \<^verbatim>\<open>AstMgr::scan\<close>,
  \<open>Grammar\<close> the productions of \<^verbatim>\<open>grammer.yy\<close> with their actions as inductive predicates, and
  \<open>Ast_Printer\<close> the printer. \<open>Ast_Class\<close> has the classes of the tree as objects, records of the
  answers of their virtual functions with a base class and overrides, and proves that the printer
  written over the objects is the one over the trees. \<open>Print_Scan\<close>, \<open>Print_Parse\<close>, \<open>Print_Stmt\<close> and
  \<open>Print_Func\<close> follow printed trees through the scanner and the grammar: expressions and modules are
  read back as they were, function declarations are not readable.

  \<^bold>\<open>Types and scopes.\<close>
  \<open>Ymsl_Hash\<close> is the string hash; \<open>Type_Mgr\<close> the type manager with its table of structural types
  (\<^verbatim>\<open>TypeMgr.cc\<close>): its invariant, that every request is served, and that pointers are equal exactly
  when the types are. \<open>Type_Calc\<close> has the casts and the rules of the operators. \<open>Scope_Table\<close> has the
  scopes (\<^verbatim>\<open>Scope.cc\<close>): a scope is a map, lookup follows the enclosing scopes.

  \<^bold>\<open>Elaboration.\<close>
  \<open>Ir_Data\<close> are nodes and handles, \<open>Ir_Interp\<close> the evaluation of constant expressions
  (\<^verbatim>\<open>IrInterp.cc\<close>), proved equal to one evaluator of tagged values. \<open>Ir_Mgr\<close> has the state of the
  elaborator and \<^verbatim>\<open>elab_expr\<close>, \<^verbatim>\<open>elab_primary\<close>, \<^verbatim>\<open>resolve_type\<close>; \<open>Ir_Stmt\<close> every statement and
  declaration and the body of a module (\<^verbatim>\<open>IrMgr_expr.cc\<close>, \<^verbatim>\<open>IrMgr_stmt.cc\<close>, \<^verbatim>\<open>IrMgr.cc\<close>). The
  theorems: \<open>Ir_Expr\<close> (the elaborator of expressions decides a type system or dereferences a null
  pointer exactly where \<open>crashes\<close> says, constants fold to their values), \<open>Ir_Decl\<close> and \<open>Ir_Func\<close>
  (enumerations, constants, functions, labels), \<open>Ir_Flow\<close> and \<open>Ir_Total\<close> (a structured statement ends
  in the first fault that \<open>stmt_fault\<close> finds, or is elaborated to code whose jumps go to labels
  placed once).
  \<open>Ir_Printer\<close> is \<^verbatim>\<open>IrPrinter.cc\<close> (a printed block is a linear form of its trees; one unit of fuel for
  each type is enough to print a type), \<open>Ir_Class\<close> the classes of nodes and handles as objects, with
  the accessors of the other theories as their answers.

  \<^bold>\<open>Modules.\<close>
  \<open>Vsm_Module\<close> is a module of the machine, its builder, \<^verbatim>\<open>VsmGen.cc\<close> and the built-in \<^verbatim>\<open>YmslPrint\<close>;
  \<open>Ymsl_Compiler\<close> is \<^verbatim>\<open>YmslCompiler::compile\<close> with the import of other modules (\<^verbatim>\<open>YmslCompiler.cc\<close>,
  \<^verbatim>\<open>IrMgr::elaborate\<close>, \<^verbatim>\<open>module2scope\<close>). Its parameters are the generated parser, the search path and
  the files, in the record \<open>comp_env\<close>; the hash maps of the utility library are finite maps. Imports
  recur through other files, so a compilation has fuel, one unit for each nested import. The types
  of a compiled module belong to a manager that is gone, so they are dangling pointers. \<open>Ir_Frame\<close>
  states with the locale \<open>el_frame\<close> what every elaboration step preserves and interprets it twice (the
  imports of the module, handles that code can be generated for); \<open>Compiler_Props\<close> has the theorems:
  what a compiled module imports and contains, all import statements of a module bind the names of
  the module imported first, an import cycle never ends.

  \<^bold>\<open>The virtual machine.\<close>
  \<open>Vsm_CodeList\<close> is the code stream and its builder, \<open>Vsm_State\<close> the machine with its inline
  accessors, \<open>Vsm_Opcode\<close> and \<open>Vsm_Exec\<close> the 80 cases of \<^verbatim>\<open>Vsm::execute\<close> in the groups of the source.
  \<open>Vsm_Run\<close> has theorems on runs; \<open>Vsm_Typing\<close> a checker for bytecode and its soundness.

  \<^bold>\<open>Not modelled.\<close> The LALR automaton (generated from the grammar), the precedence declarations and
  the error recovery of the grammar; input streams, file positions, memory pools and destructors;
  messages on the console; the decimal conversion of doubles (\<^verbatim>\<open>strtod\<close> and stream output are
  parameters). The older machine under \<^verbatim>\<open>src/engine\<close> and \<^verbatim>\<open>IrMgr_const.cc\<close>, \<^verbatim>\<open>IrAssign.cc\<close> are not
  built by the repository.
\<close>

end
